(* ===== verification/Prelude.thy ===== *)
theory Prelude
  imports Main "HOL-Library.Word" "HOL-Library.Multiset" "HOL-Library.List_Lexorder"
    "HOL-Library.Char_ord" "HOL-Library.Code_Target_Nat"
begin

text \<open>
  Shared vocabulary of the development: the Go values that every store uses (machine
  integers, byte slices, errors, results, interface values), the generic lemmas on lists,
  results and multisets, and the collections the component theories extend.
  Strings are byte strings (\<open>char list\<close>), compared bytewise as Go compares them
  (the orders of \<open>List_Lexorder\<close> and \<open>Char_ord\<close>).
\<close>

section \<open>Collections\<close>

named_theorems store_defs \<open>definitions of store operations, unfolded by their lemmas\<close>
named_theorems contract_defs \<open>definitions of the contracts of third-party code\<close>

section \<open>Machine integers and byte slices\<close>

text \<open>
  Go's \<open>uint64\<close> and \<open>int64\<close>. A \<open>u64\<close> is compared with the unsigned order of
  \<open>Word\<close>; an \<open>i64\<close> is read with \<^const>\<open>sint\<close> and compared as that integer.
  On the 64-bit targets the Go type \<open>int\<close> is an \<open>int64\<close>.
\<close>

type_synonym u64 = "64 word"
type_synonym i64 = "64 word"
type_synonym byte = "8 word"

text \<open>A \<open>[]byte\<close>: \<open>None\<close> is the nil slice, which Go distinguishes from the empty one.\<close>

type_synonym go_bytes = "byte list option"

lemma unat_of_nat_u64: "k < 18446744073709551616 \<Longrightarrow> unat (of_nat k :: u64) = k"
  by (simp add: unat_of_nat)

lemma unat_of_nat_byte: "k < 256 \<Longrightarrow> unat (of_nat k :: byte) = k"
  by (simp add: unat_of_nat)

lemma unat_u64_less: "unat (w :: u64) < 18446744073709551616"
  using unsigned_less [of w] by simp

section \<open>Errors, results, interface values\<close>

text \<open>
  \<open>ErrNew\<close> is \<open>errors.New\<close> (or \<open>fmt.Errorf\<close> without \<open>%w\<close>), \<open>ErrWrap m e\<close> is
  \<open>fmt.Errorf("m: %w", e)\<close>, \<open>ErrExt\<close> is an error value made by a library.
\<close>

datatype goerr = ErrNew string | ErrWrap string goerr | ErrExt string

text \<open>
  How a call ends: a value with a nil error, a non-nil error, or a run-time panic (nil
  dereference, failed one-value type assertion).
\<close>

datatype 'a res = Ok 'a | Err goerr | Panic

fun bind_res :: "'a res \<Rightarrow> ('a \<Rightarrow> 'b res) \<Rightarrow> 'b res" where
  "bind_res (Ok x) f = f x"
| "bind_res (Err e) f = Err e"
| "bind_res Panic f = Panic"

text \<open>Sequencing of calls that also change a state; a failure keeps the state it left.\<close>

fun bind_st :: "'a res \<times> 's \<Rightarrow> ('a \<Rightarrow> 's \<Rightarrow> 'b res \<times> 's) \<Rightarrow> 'b res \<times> 's" where
  "bind_st (Ok x, s) f = f x s"
| "bind_st (Err e, s) f = (Err e, s)"
| "bind_st (Panic, s) f = (Panic, s)"

fun is_ok :: "'a res \<Rightarrow> bool" where
  "is_ok (Ok x) = True"
| "is_ok (Err e) = False"
| "is_ok Panic = False"

text \<open>An \<open>interface{}\<close> value under the assertion \<open>v.(*T)\<close>: of type \<open>*T\<close>, or foreign.\<close>

datatype 'a iface = Boxed 'a | Foreign

fun as_row :: "'a iface \<Rightarrow> 'a option" where
  "as_row (Boxed x) = Some x"
| "as_row Foreign = None"

text \<open>
  The loop that every memory store runs over a result iterator:
  \<open>for row := it.Next(); row != nil; row = it.Next() { if j, ok := row.(*T); ok { js = append(js, j) } }\<close>.
\<close>

fun collect_rows :: "'a iface list \<Rightarrow> 'a list" where
  "collect_rows [] = []"
| "collect_rows (row # rest) =
     (case as_row row of Some j \<Rightarrow> j # collect_rows rest | None \<Rightarrow> collect_rows rest)"

lemma collect_rows_Boxed [simp]: "collect_rows (map Boxed xs) = xs"
  by (induction xs) auto

lemma collect_rows_Boxed_comp [simp]: "collect_rows (map (\<lambda>x. Boxed (f x)) xs) = map f xs"
  by (induction xs) auto

lemma is_ok_iff: "is_ok r \<longleftrightarrow> (\<exists>x. r = Ok x)"
  by (cases r) auto

lemma bind_res_Ok_iff: "bind_res r f = Ok y \<longleftrightarrow> (\<exists>x. r = Ok x \<and> f x = Ok y)"
  by (cases r) auto

lemma bind_res_Err_iff: "bind_res r f = Err e \<longleftrightarrow> r = Err e \<or> (\<exists>x. r = Ok x \<and> f x = Err e)"
  by (cases r) auto

lemma bind_res_not_Panic: "r \<noteq> Panic \<Longrightarrow> (\<And>x. r = Ok x \<Longrightarrow> f x \<noteq> Panic) \<Longrightarrow> bind_res r f \<noteq> Panic"
  by (cases r) auto

lemma bind_st_Ok_iff:
  "bind_st p f = (Ok y, s') \<longleftrightarrow> (\<exists>x s1. p = (Ok x, s1) \<and> f x s1 = (Ok y, s'))"
  by (cases p; cases "fst p") auto

lemma bind_st_cases:
  assumes "bind_st p f = (r, s')"
  obtains (ok) x s1 where "p = (Ok x, s1)" "f x s1 = (r, s')"
    | (err) e where "p = (Err e, s')" "r = Err e"
    | (panic) "p = (Panic, s')" "r = Panic"
  using assms by (cases p; cases "fst p") auto

lemma bind_st_mono: "snd (bind_st p f) = snd p \<or> (\<exists>x. fst p = Ok x \<and> bind_st p f = f x (snd p))"
  by (cases p; cases "fst p") auto

section \<open>Strings\<close>

text \<open>A string without the byte 0, which the radix-tree keys of the memory stores end with.\<close>

definition nul_free :: "string \<Rightarrow> bool" where
  "nul_free s \<longleftrightarrow> CHR 0x00 \<notin> set s"

lemma nul_free_Nil [simp]: "nul_free []"
  by (simp add: nul_free_def)

section \<open>Lists and multisets\<close>

lemma size_filter_mset_mset [simp]: "size (filter_mset P (mset xs)) = length (filter P xs)"
  by (metis mset_filter size_mset)

text \<open>A list sorted by an injective key is determined by its elements.\<close>

lemma sorted_key_unique:
  assumes "mset xs = mset ys" and "sorted (map f xs)" and "sorted (map f ys)"
    and "distinct (map f xs)"
  shows "xs = ys"
proof -
  from assms(1) have set: "set xs = set ys" by (rule mset_eq_setD)
  from assms(1) have "mset (map f xs) = mset (map f ys)" by simp
  with assms have eq: "map f xs = map f ys"
    by (metis properties_for_sort)
  moreover from assms(4) have "inj_on f (set xs)" by (simp add: distinct_map)
  ultimately show ?thesis using set by (metis inj_on_map_eq_map Un_absorb)
qed

end
