(* ===== verification/Proto.thy ===== *)
theory Proto
  imports Prelude
begin

text \<open>
  The messages of \<open>egopb\<close>, with the fields the stores read or write, the protobuf runtime
  as a parameter (a record of its functions), the contract the stores rely on, and
  \<open>toProto\<close> of \<open>durablestore/postgres/row.go\<close>; the other stores with serialized payloads have
  copies of it in their packages, modelled with the packages and equal to this one.
\<close>

section \<open>Messages\<close>

text \<open>A pointer to a message is an \<open>option\<close>; the getters read a nil pointer as the zero message.\<close>

record any =
  any_TypeUrl :: string
  any_Value :: "byte list"

record event =
  ev_PersistenceId :: string
  ev_SequenceNumber :: u64
  ev_IsDeleted :: bool
  ev_Event :: "any option"
  ev_Timestamp :: i64
  ev_Shard :: u64
  ev_EncryptionKeyId :: string
  ev_IsEncrypted :: bool

record durable_state =
  ds_PersistenceId :: string
  ds_VersionNumber :: u64
  ds_ResultingState :: "any option"
  ds_Timestamp :: i64
  ds_Shard :: u64

record snapshot =
  sn_PersistenceId :: string
  sn_SequenceNumber :: u64
  sn_State :: "any option"
  sn_Timestamp :: i64
  sn_EncryptionKeyId :: string
  sn_IsEncrypted :: bool

record offset =
  of_ShardNumber :: u64
  of_ProjectionName :: string
  of_Value :: i64
  of_Timestamp :: i64

record projection_id =
  pj_ProjectionName :: string
  pj_ShardNumber :: u64

definition zero_any :: any where
  "zero_any = \<lparr>any_TypeUrl = [], any_Value = []\<rparr>"

definition zero_event :: event where
  "zero_event = \<lparr>ev_PersistenceId = [], ev_SequenceNumber = 0, ev_IsDeleted = False, ev_Event = None,
     ev_Timestamp = 0, ev_Shard = 0, ev_EncryptionKeyId = [], ev_IsEncrypted = False\<rparr>"

definition zero_durable_state :: durable_state where
  "zero_durable_state = \<lparr>ds_PersistenceId = [], ds_VersionNumber = 0, ds_ResultingState = None,
     ds_Timestamp = 0, ds_Shard = 0\<rparr>"

definition zero_snapshot :: snapshot where
  "zero_snapshot = \<lparr>sn_PersistenceId = [], sn_SequenceNumber = 0, sn_State = None, sn_Timestamp = 0,
     sn_EncryptionKeyId = [], sn_IsEncrypted = False\<rparr>"

definition zero_offset :: offset where
  "zero_offset = \<lparr>of_ShardNumber = 0, of_ProjectionName = [], of_Value = 0, of_Timestamp = 0\<rparr>"

definition zero_projection_id :: projection_id where
  "zero_projection_id = \<lparr>pj_ProjectionName = [], pj_ShardNumber = 0\<rparr>"

text \<open>What the getters see of a pointer: \<open>x.GetF()\<close> is the zero value on a nil \<open>x\<close>.\<close>

definition or_zero :: "'a \<Rightarrow> 'a option \<Rightarrow> 'a" where
  "or_zero z p = (case p of None \<Rightarrow> z | Some x \<Rightarrow> x)"

lemma or_zero_simps [simp]: "or_zero z None = z" "or_zero z (Some x) = x"
  by (simp_all add: or_zero_def)

section \<open>The protobuf runtime\<close>

text \<open>
  \<open>find_message\<close> is \<open>protoregistry.GlobalTypes.FindMessageByName\<close>, \<open>unmarshal t bs\<close> is
  \<open>proto.Unmarshal\<close> into a new message of type \<open>t\<close> (an \<open>*anypb.Any\<close> or another
  message), \<open>marshal\<close> is \<open>proto.Marshal\<close> of an \<open>*anypb.Any\<close>, with the bytes it returns
  beside an error, and \<open>full_name\<close> the full name of its descriptor.
\<close>

datatype 'm message = MsgAny any | MsgOther 'm

record ('t, 'm) protolib =
  find_message :: "string \<Rightarrow> 't res"
  unmarshal :: "'t \<Rightarrow> go_bytes \<Rightarrow> 'm message res"
  marshal :: "any option \<Rightarrow> go_bytes \<times> goerr option"
  full_name :: "any option \<Rightarrow> string"

text \<open>
  The contract: a message that was marshalled without an error is registered under its
  full name, and unmarshalling its bytes gives it back (a nil message comes back as the
  empty one); a valid message has non-nil bytes; no call panics.
\<close>

definition proto_contract :: "('t, 'm) protolib \<Rightarrow> bool" where
  "proto_contract L \<longleftrightarrow>
     (\<forall>x bs. marshal L x = (bs, None) \<longrightarrow>
        (\<exists>t. find_message L (full_name L x) = Ok t \<and>
             unmarshal L t bs = Ok (MsgAny (or_zero zero_any x)))) \<and>
     (\<forall>a bs. marshal L (Some a) = (bs, None) \<longrightarrow> bs \<noteq> None) \<and>
     (\<forall>n. find_message L n \<noteq> Panic) \<and> (\<forall>t bs. unmarshal L t bs \<noteq> Panic)"

definition marshal_bytes :: "('t, 'm) protolib \<Rightarrow> any option \<Rightarrow> go_bytes" where
  "marshal_bytes L x = fst (marshal L x)"

definition marshals :: "('t, 'm) protolib \<Rightarrow> any option \<Rightarrow> bool" where
  "marshals L x \<longleftrightarrow> snd (marshal L x) = None"

section \<open>toProto\<close>

definition toProto :: "('t, 'm) protolib \<Rightarrow> string \<Rightarrow> go_bytes \<Rightarrow> any res" where
  "toProto L manifest bytea =
     (case find_message L manifest of
        Err e \<Rightarrow> Err e
      | Panic \<Rightarrow> Panic
      | Ok mt \<Rightarrow>
          (case unmarshal L mt bytea of
             Err e \<Rightarrow> Err e
           | Panic \<Rightarrow> Panic
           | Ok (MsgAny cast) \<Rightarrow> Ok cast
           | Ok (MsgOther pm) \<Rightarrow> Err (ErrNew (''failed to unpack message='' @ manifest))))"

lemma toProto_roundtrip:
  assumes "proto_contract L" and "marshals L x"
  shows "toProto L (full_name L x) (marshal_bytes L x) = Ok (or_zero zero_any x)"
proof -
  have "marshal L x = (marshal_bytes L x, None)"
    using assms(2) by (metis marshals_def marshal_bytes_def prod.collapse)
  with assms(1) obtain t where "find_message L (full_name L x) = Ok t"
    and "unmarshal L t (marshal_bytes L x) = Ok (MsgAny (or_zero zero_any x))"
    unfolding proto_contract_def by blast
  then show ?thesis by (simp add: toProto_def)
qed

lemma toProto_not_Panic: "proto_contract L \<Longrightarrow> toProto L n bs \<noteq> Panic"
  by (auto simp: toProto_def proto_contract_def split: res.splits message.splits)

lemma toProto_foreign:
  "find_message L n = Ok t \<Longrightarrow> unmarshal L t bs = Ok (MsgOther m) \<Longrightarrow>
     toProto L n bs = Err (ErrNew (''failed to unpack message='' @ n))"
  by (simp add: toProto_def)

lemma marshal_bytes_not_nil:
  "proto_contract L \<Longrightarrow> marshals L (Some a) \<Longrightarrow> marshal_bytes L (Some a) \<noteq> None"
  unfolding proto_contract_def marshals_def marshal_bytes_def by (metis prod.collapse)

section \<open>A concrete runtime\<close>

text \<open>
  A small wire format that satisfies the contract: the length of the type URL, the URL and
  the value, one message type registered. It shows that the contract can hold and makes the
  witnesses of the component theories computable.
\<close>

fun ref_encode :: "any option \<Rightarrow> go_bytes" where
  "ref_encode None = None"
| "ref_encode (Some a) =
     Some (replicate (length (any_TypeUrl a)) 1 @ 0 # map (\<lambda>c. of_nat (of_char c)) (any_TypeUrl a) @ any_Value a)"

definition ref_decode :: "go_bytes \<Rightarrow> any res" where
  "ref_decode bs =
     (case bs of
        None \<Rightarrow> Ok zero_any
      | Some ws \<Rightarrow>
          (let n = length (takeWhile (\<lambda>w. w = 1) ws); rest = drop (Suc n) ws in
           if n < length ws
           then Ok \<lparr>any_TypeUrl = map (\<lambda>w. char_of (unat w)) (take n rest), any_Value = drop n rest\<rparr>
           else Err (ErrExt ''proto: cannot parse invalid wire-format data'')))"

definition any_name :: string where
  "any_name = ''google.protobuf.Any''"

definition ref_protolib :: "(unit, unit) protolib" where
  "ref_protolib =
     \<lparr>find_message = (\<lambda>n. if n = any_name then Ok () else Err (ErrExt ''proto: not found'')),
      unmarshal = (\<lambda>_ bs. bind_res (ref_decode bs) (\<lambda>a. Ok (MsgAny a))),
      marshal = (\<lambda>x. (ref_encode x, None)),
      full_name = (\<lambda>_. any_name)\<rparr>"

lemma ref_decode_encode: "ref_decode (ref_encode x) = Ok (or_zero zero_any x)"
proof (cases x)
  case None
  then show ?thesis by (simp add: ref_decode_def)
next
  case (Some a)
  have "takeWhile (\<lambda>w. w = 1) (replicate n 1 @ 0 # ws) = replicate n (1::byte)" for n ws
    by (induction n) auto
  moreover have "char_of (unat (of_nat (of_char c) :: byte)) = c" for c
  proof -
    have "of_char c < (256::nat)" by simp
    then have "unat (of_nat (of_char c) :: byte) = of_char c" by (simp add: unat_of_nat_byte)
    then show ?thesis by simp
  qed
  ultimately show ?thesis using Some
    by (simp add: ref_decode_def Let_def comp_def map_idI)
qed

lemma ref_decode_not_Panic: "ref_decode bs \<noteq> Panic"
  by (auto simp: ref_decode_def Let_def split: option.splits)

lemma ref_protolib_contract: "proto_contract ref_protolib"
proof -
  have "bind_res (ref_decode bs) (\<lambda>a. Ok (MsgAny a)) \<noteq> Panic" for bs
    by (rule bind_res_not_Panic) (simp_all add: ref_decode_not_Panic)
  then show ?thesis
    by (auto simp: proto_contract_def ref_protolib_def ref_decode_encode)
qed

lemma ref_protolib_marshals [simp]: "marshals ref_protolib x"
  by (simp add: marshals_def ref_protolib_def)

end
