(* ===== verification/StateStore.thy ===== *)
theory StateStore
  imports Proto
begin

text \<open>
  The interfaces that the stores implement towards eGo: the connection lifecycle
  (\<open>Connect\<close>, \<open>Disconnect\<close>, \<open>Ping\<close>), which every store has, and
  \<open>persistence.StateStore\<close> (\<open>WriteState\<close>, \<open>GetLatestState\<close>), which the four durable
  stores have. Each is a locale: its parameters are the operations of a store and the
  abstraction of its state, its assumptions what the store promises, and its lemmas what a
  client may conclude. The component theories interpret them on the models of the code.
  \<open>env\<close> is what a store is configured with (libraries, database driver, table names),
  \<open>rely\<close> the contract of the third-party part of it.
\<close>

section \<open>Sequences of calls\<close>

datatype lifecycle_call = CallConnect | CallDisconnect | CallPing

text \<open>A client that makes lifecycle calls in order and stops at the first that fails.\<close>

fun run_calls ::
  "('s \<Rightarrow> unit res \<times> 's) \<Rightarrow> ('s \<Rightarrow> unit res \<times> 's) \<Rightarrow> ('s \<Rightarrow> unit res \<times> 's) \<Rightarrow>
   lifecycle_call list \<Rightarrow> 's \<Rightarrow> unit res \<times> 's" where
  "run_calls con dis pin [] s = (Ok (), s)"
| "run_calls con dis pin (c # cs) s =
     bind_st (case c of CallConnect \<Rightarrow> con s | CallDisconnect \<Rightarrow> dis s | CallPing \<Rightarrow> pin s)
       (\<lambda>_ s'. run_calls con dis pin cs s')"

text \<open>A client that writes messages in order and stops at the first write that fails.\<close>

fun run_writes :: "('m \<Rightarrow> 's \<Rightarrow> unit res \<times> 's) \<Rightarrow> 'm list \<Rightarrow> 's \<Rightarrow> unit res \<times> 's" where
  "run_writes wr [] s = (Ok (), s)"
| "run_writes wr (m # ms) s =
     bind_st (wr m s) (\<lambda>_ s'. run_writes wr ms s')"

lemma run_writes_Cons_Ok:
  "run_writes wr (m # ms) s = (Ok (), s') \<longleftrightarrow>
     (\<exists>s1. wr m s = (Ok (), s1) \<and> run_writes wr ms s1 = (Ok (), s'))"
  by (auto simp: bind_st_Ok_iff)

section \<open>The connection lifecycle\<close>

locale lifecycle =
  fixes rely :: "'env \<Rightarrow> bool"
    and live :: "'s \<Rightarrow> bool"
    and Connect :: "'env \<Rightarrow> 's \<Rightarrow> unit res \<times> 's"
    and Disconnect :: "'env \<Rightarrow> 's \<Rightarrow> unit res \<times> 's"
    and Ping :: "'env \<Rightarrow> 's \<Rightarrow> unit res \<times> 's"
  assumes connect_live: "live s \<Longrightarrow> Connect env s = (Ok (), s)"
    and connect_up: "rely env \<Longrightarrow> Connect env s = (Ok (), s') \<Longrightarrow> live s'"
    and connect_fail: "rely env \<Longrightarrow> Connect env s = (r, s') \<Longrightarrow> r \<noteq> Ok () \<Longrightarrow> \<not> live s'"
    and disconnect_dead: "\<not> live s \<Longrightarrow> Disconnect env s = (Ok (), s)"
    and disconnect_down: "rely env \<Longrightarrow> Disconnect env s = (Ok (), s') \<Longrightarrow> \<not> live s'"
    and ping_dead: "\<not> live s \<Longrightarrow> Ping env s = Connect env s"
    and ping_live: "live s \<Longrightarrow> Ping env s = (r, s') \<Longrightarrow> live s'"
begin

lemma connect_idem: "rely env \<Longrightarrow> Connect env s = (Ok (), s') \<Longrightarrow> Connect env s' = (Ok (), s')"
  by (blast intro: connect_live connect_up)

lemma disconnect_idem:
  "rely env \<Longrightarrow> Disconnect env s = (Ok (), s') \<Longrightarrow> Disconnect env s' = (Ok (), s')"
  by (rule disconnect_dead) (rule disconnect_down)

lemma ping_establishes: "rely env \<Longrightarrow> Ping env s = (Ok (), s') \<Longrightarrow> live s'"
  by (cases "live s") (auto dest: ping_live connect_up simp: ping_dead)

lemma run_calls_live:
  "rely env \<Longrightarrow> run_calls (Connect env) (Disconnect env) (Ping env) cs s = (Ok (), s') \<Longrightarrow>
     live s' = (if cs = [] then live s else last cs \<noteq> CallDisconnect)"
proof (induction cs arbitrary: s)
  case Nil
  then show ?case by simp
next
  case (Cons c cs)
  from Cons.prems(2) obtain s1 where
    step: "(case c of CallConnect \<Rightarrow> Connect env s | CallDisconnect \<Rightarrow> Disconnect env s | CallPing \<Rightarrow> Ping env s) = (Ok (), s1)"
    and rest: "run_calls (Connect env) (Disconnect env) (Ping env) cs s1 = (Ok (), s')"
    by (auto simp: bind_st_Ok_iff)
  from step Cons.prems(1) have "live s1 = (c \<noteq> CallDisconnect)"
    by (cases c) (auto dest: connect_up disconnect_down ping_establishes)
  with Cons.IH [OF Cons.prems(1) rest] show ?case by auto
qed

end

section \<open>persistence.StateStore\<close>

text \<open>
  \<open>view env s\<close> is the state stored for each persistence id. A write that returns a nil error
  stores what \<open>obs\<close> keeps of the message; a write that fails changes at most the entry of its
  own id, and only to what it was writing (a remote database may have applied it); a read that
  returns a nil error returns the view, where reads are \<open>fresh\<close> (a replicated database may
  answer from a replica that lags behind). \<open>storable\<close> is what a store can keep at all.
\<close>

locale state_store =
  fixes rely :: "'env \<Rightarrow> bool"
    and inv :: "'env \<Rightarrow> 's \<Rightarrow> bool"
    and fresh :: "'env \<Rightarrow> 's \<Rightarrow> bool"
    and storable :: "'env \<Rightarrow> durable_state \<Rightarrow> bool"
    and obs :: "durable_state \<Rightarrow> durable_state"
    and view :: "'env \<Rightarrow> 's \<Rightarrow> string \<Rightarrow> durable_state option"
    and WriteState :: "'env \<Rightarrow> durable_state option \<Rightarrow> 's \<Rightarrow> unit res \<times> 's"
    and GetLatestState :: "'env \<Rightarrow> string \<Rightarrow> 's \<Rightarrow> durable_state option res"
  assumes write_ok: "\<lbrakk>rely env; inv env s; storable env d; WriteState env (Some d) s = (Ok (), s')\<rbrakk>
      \<Longrightarrow> view env s' = (view env s)(ds_PersistenceId d \<mapsto> obs d)"
    and write_fail: "\<lbrakk>rely env; inv env s; storable env d; WriteState env (Some d) s = (r, s'); r \<noteq> Ok ()\<rbrakk>
      \<Longrightarrow> view env s' = view env s \<or> view env s' = (view env s)(ds_PersistenceId d \<mapsto> obs d)"
    and write_inv: "\<lbrakk>rely env; inv env s; storable env d; WriteState env (Some d) s = (r, s')\<rbrakk>
      \<Longrightarrow> inv env s'"
    and get_ok: "\<lbrakk>rely env; inv env s; fresh env s; p \<noteq> []; GetLatestState env p s = Ok x\<rbrakk> \<Longrightarrow> x = view env s p"
begin

lemma read_your_write:
  assumes "rely env" "inv env s" "storable env d" "ds_PersistenceId d \<noteq> []"
    and "WriteState env (Some d) s = (Ok (), s')" and "fresh env s'"
    and "GetLatestState env (ds_PersistenceId d) s' = Ok x"
  shows "x = Some (obs d)"
proof -
  have "inv env s'" using assms by (blast intro: write_inv)
  then have "x = view env s' (ds_PersistenceId d)" using assms by (blast intro: get_ok)
  then show ?thesis using write_ok [OF assms(1,2,3,5)] by simp
qed

lemma write_keeps_others:
  assumes "rely env" "inv env s" "storable env d" "p \<noteq> ds_PersistenceId d"
    and "WriteState env (Some d) s = (r, s')"
  shows "view env s' p = view env s p"
  using assms write_ok [OF assms(1-3)] write_fail [OF assms(1-3)]
  by (cases "r = Ok ()") (fastforce dest: fun_cong)+

lemma run_writes_inv:
  "\<lbrakk>rely env; inv env s; \<forall>d \<in> set ds. storable env d;
    run_writes (\<lambda>d. WriteState env (Some d)) ds s = (Ok (), s')\<rbrakk> \<Longrightarrow> inv env s'"
proof (induction ds arbitrary: s)
  case (Cons d ds)
  then show ?case by (auto simp: bind_st_Ok_iff dest: write_inv)
qed simp

lemma run_writes_view:
  "\<lbrakk>rely env; inv env s; \<forall>d \<in> set ds. storable env d;
    run_writes (\<lambda>d. WriteState env (Some d)) ds s = (Ok (), s')\<rbrakk> \<Longrightarrow>
     view env s' = view env s ++ map_of (rev (map (\<lambda>d. (ds_PersistenceId d, obs d)) ds))"
proof (induction ds arbitrary: s)
  case Nil
  then show ?case by simp
next
  case (Cons d ds)
  from Cons.prems(4) obtain s1 where step: "WriteState env (Some d) s = (Ok (), s1)"
    and rest: "run_writes (\<lambda>d. WriteState env (Some d)) ds s1 = (Ok (), s')"
    by (auto simp: bind_st_Ok_iff)
  have "inv env s1" using Cons.prems step by (auto intro: write_inv)
  moreover have "view env s1 = (view env s)(ds_PersistenceId d \<mapsto> obs d)"
    using Cons.prems step by (auto intro: write_ok)
  ultimately show ?case using Cons.IH [OF _ _ _ rest] Cons.prems
    by (simp add: map_add_assoc map_add_upd del: fun_upd_apply)
qed

text \<open>The last of a sequence of writes to an id is the one a later read returns.\<close>

lemma last_write_wins:
  assumes "rely env" "inv env s" "\<forall>d \<in> set (ds @ d # es). storable env d"
    and "ds_PersistenceId d \<noteq> []" and "\<forall>e \<in> set es. ds_PersistenceId e \<noteq> ds_PersistenceId d"
    and "run_writes (\<lambda>d. WriteState env (Some d)) (ds @ d # es) s = (Ok (), s')" and "fresh env s'"
    and "GetLatestState env (ds_PersistenceId d) s' = Ok x"
  shows "x = Some (obs d)"
proof -
  let ?kv = "\<lambda>d. (ds_PersistenceId d, obs d)"
  have "inv env s'" using assms(1,2,3,6) by (rule run_writes_inv)
  with assms have "x = view env s' (ds_PersistenceId d)" by (blast intro: get_ok)
  also have "\<dots> = (view env s ++ map_of (rev (map ?kv (ds @ d # es)))) (ds_PersistenceId d)"
    using run_writes_view [OF assms(1,2,3,6)] by simp
  also have "\<dots> = Some (obs d)"
  proof -
    have "map_of (rev (map ?kv es)) (ds_PersistenceId d) = None"
      using assms(5) by (auto simp: map_of_eq_None_iff)
    then show ?thesis by (simp add: map_add_def)
  qed
  finally show ?thesis .
qed

end

text \<open>A store that refuses to work while it is not connected, as the interface documents.\<close>

definition durable_not_connected :: goerr where
  "durable_not_connected = ErrNew ''durable store is not connected''"

locale guarded_state_store = state_store +
  fixes live :: "'b \<Rightarrow> bool"
  assumes write_dead: "\<not> live s \<Longrightarrow> WriteState env m s = (Err durable_not_connected, s)"
    and get_dead: "\<not> live s \<Longrightarrow> GetLatestState env p s = Err durable_not_connected"
begin

lemma run_writes_dead:
  "\<not> live s \<Longrightarrow> run_writes (WriteState env) (m # ms) s = (Err durable_not_connected, s)"
  by (simp add: write_dead)

lemma ok_only_live: "WriteState env m s = (Ok (), s') \<Longrightarrow> live s"
  using write_dead by fastforce

end

end
