(* ===== verification/DurableMemory.thy ===== *)
theory DurableMemory
  imports StateStore "HOL-Library.AList"
begin

text \<open>
  \<open>durablestore/memory/durable_store.go\<close>: a durable store over a \<open>sync.Map\<close>. The map is an
  association list (\<open>Store\<close> updates, \<open>Load\<close> looks up, \<open>Range\<close> visits the entries and
  \<open>Delete\<close> removes a key); its values are \<open>interface{}\<close> values holding a pointer to a
  message. The store keeps the message it was given, so a read returns all of its fields.
\<close>

record mem_state_store =
  mss_db :: "(string \<times> durable_state option iface) list"
  mss_connected :: bool

definition NewStateStore :: mem_state_store where
  "NewStateStore = \<lparr>mss_db = [], mss_connected = False\<rparr>"

definition mss_Connect :: "mem_state_store \<Rightarrow> unit res \<times> mem_state_store" where
  "mss_Connect d =
     (if mss_connected d then (Ok (), d) else (Ok (), d\<lparr>mss_connected := True\<rparr>))"

text \<open>The call \<open>Range(func(k, v) { Delete(k); return true })\<close>.\<close>

fun range_delete :: "(string \<times> 'v) list \<Rightarrow> (string \<times> 'v) list \<Rightarrow> (string \<times> 'v) list" where
  "range_delete [] db = db"
| "range_delete ((k, v) # visited) db = range_delete visited (AList.delete k db)"

definition mss_Disconnect :: "mem_state_store \<Rightarrow> unit res \<times> mem_state_store" where
  "mss_Disconnect d =
     (if \<not> mss_connected d then (Ok (), d)
      else (Ok (), d\<lparr>mss_db := range_delete (mss_db d) (mss_db d), mss_connected := False\<rparr>))"

definition mss_Ping :: "mem_state_store \<Rightarrow> unit res \<times> mem_state_store" where
  "mss_Ping d = (if \<not> mss_connected d then mss_Connect d else (Ok (), d))"

definition mss_WriteState :: "durable_state option \<Rightarrow> mem_state_store \<Rightarrow> unit res \<times> mem_state_store" where
  "mss_WriteState state d =
     (if \<not> mss_connected d then (Err (ErrNew ''durable store is not connected''), d)
      else (Ok (), d\<lparr>mss_db := AList.update (ds_PersistenceId (or_zero zero_durable_state state))
                                 (Boxed state) (mss_db d)\<rparr>))"

definition mss_GetLatestState :: "string \<Rightarrow> mem_state_store \<Rightarrow> durable_state option res" where
  "mss_GetLatestState persistenceID d =
     (if \<not> mss_connected d then Err (ErrNew ''durable store is not connected'')
      else case map_of (mss_db d) persistenceID of
             None \<Rightarrow> Ok None
           | Some v \<Rightarrow> (case v of Boxed state \<Rightarrow> Ok state | Foreign \<Rightarrow> Panic))"

lemmas mss_defs = NewStateStore_def mss_Connect_def mss_Disconnect_def mss_Ping_def
  mss_WriteState_def mss_GetLatestState_def

declare mss_defs [store_defs]

section \<open>Abstraction and invariant\<close>

definition mss_view :: "mem_state_store \<Rightarrow> string \<Rightarrow> durable_state option" where
  "mss_view d p = (case map_of (mss_db d) p of Some (Boxed state) \<Rightarrow> state | _ \<Rightarrow> None)"

text \<open>
  The map holds pointers to messages only, each under the persistence id of its message, and
  is empty while the store is not connected.
\<close>

definition mss_inv :: "mem_state_store \<Rightarrow> bool" where
  "mss_inv d \<longleftrightarrow>
     (\<forall>(k, v) \<in> set (mss_db d). \<exists>state. v = Boxed state \<and>
        k = ds_PersistenceId (or_zero zero_durable_state state)) \<and>
     (\<not> mss_connected d \<longrightarrow> mss_db d = [])"

lemma range_delete_filter: "range_delete visited db = filter (\<lambda>(k, v). k \<notin> fst ` set visited) db"
proof (induction visited db rule: range_delete.induct)
  case (2 k v visited db)
  then show ?case by (auto simp: AList.delete_eq intro!: filter_cong)
qed simp

lemma range_delete_all: "range_delete db db = []"
  by (force simp: range_delete_filter filter_empty_conv)

lemma set_alist_update: "set (AList.update k v db) \<subseteq> insert (k, v) (set db)"
  by (induction db) auto

lemma mss_inv_NewStateStore: "mss_inv NewStateStore"
  by (simp add: mss_inv_def store_defs)

lemma mss_inv_Connect: "mss_inv d \<Longrightarrow> mss_inv (snd (mss_Connect d))"
  by (auto simp: mss_inv_def store_defs)

lemma mss_inv_Disconnect: "mss_inv d \<Longrightarrow> mss_inv (snd (mss_Disconnect d))"
  by (auto simp: mss_inv_def store_defs range_delete_all)

lemma mss_inv_Ping: "mss_inv d \<Longrightarrow> mss_inv (snd (mss_Ping d))"
  by (auto simp: mss_inv_def store_defs)

lemma mss_inv_WriteState:
  assumes "mss_inv d"
  shows "mss_inv (snd (mss_WriteState m d))"
proof -
  let ?k = "ds_PersistenceId (or_zero zero_durable_state m)"
  have "\<exists>state. v = Boxed state \<and> k = ds_PersistenceId (or_zero zero_durable_state state)"
    if "(k, v) \<in> set (AList.update ?k (Boxed m) (mss_db d))" for k v
    using that set_alist_update [of ?k "Boxed m" "mss_db d"] assms by (auto simp: mss_inv_def)
  with assms show ?thesis by (auto simp: mss_inv_def store_defs)
qed

lemma mss_get_view:
  "mss_inv d \<Longrightarrow> mss_connected d \<Longrightarrow> mss_GetLatestState p d = Ok (mss_view d p)"
  by (fastforce simp: mss_inv_def store_defs mss_view_def split: option.splits iface.splits
      dest: map_of_SomeD)

section \<open>The interfaces\<close>

interpretation mss_life: lifecycle "\<lambda>_::unit. True" mss_connected
  "\<lambda>_. mss_Connect" "\<lambda>_. mss_Disconnect" "\<lambda>_. mss_Ping"
  by unfold_locales (auto simp: store_defs split: if_splits)

interpretation mss: guarded_state_store "\<lambda>_::unit. True" "\<lambda>_. mss_inv" "\<lambda>_ _. True" "\<lambda>_ _. True" "\<lambda>d. d"
  "\<lambda>_. mss_view" "\<lambda>_. mss_WriteState" "\<lambda>_. mss_GetLatestState" mss_connected
proof unfold_locales
  fix s s' d
  assume "mss_WriteState (Some d) s = (Ok (), s')"
  then show "mss_view s' = (mss_view s)(ds_PersistenceId d \<mapsto> d)"
    by (auto simp: store_defs mss_view_def fun_eq_iff update_conv split: if_splits)
next
  fix s s' :: mem_state_store and d r
  assume "mss_WriteState (Some d) s = (r, s')" and "r \<noteq> Ok ()"
  then show "mss_view s' = mss_view s \<or> mss_view s' = (mss_view s)(ds_PersistenceId d \<mapsto> d)"
    by (auto simp: store_defs split: if_splits)
next
  fix s s' d r
  assume "mss_inv s" "mss_WriteState (Some d) s = (r, s')"
  then show "mss_inv s'" using mss_inv_WriteState [of s "Some d"] by simp
next
  fix s :: mem_state_store and p x
  assume "mss_inv s" "mss_GetLatestState p s = Ok x"
  then show "x = mss_view s p"
    using mss_get_view [of s p] by (cases "mss_connected s") (auto simp: store_defs)
qed (simp_all add: store_defs durable_not_connected_def)

end
