(* ===== verification/Sql.thy ===== *)
theory Sql
  imports Prelude
begin

text \<open>
  The SQL statements that the stores build (with the squirrel builder, or as CQL text), as
  data, and what they say of a table: a table is a multiset of rows, a row a function from
  column names to values. The SQL of a \<open>Suffix\<close> or an \<open>OrderBy\<close> is read into the
  statement: \<open>ON CONFLICT (ks) DO UPDATE SET c = EXCLUDED.c, \<dots>\<close> as the conflict columns
  and the updated columns, \<open>c ASC\<close> and \<open>c DESC\<close> as a column and a direction.
\<close>

section \<open>Values and statements\<close>

datatype sqlval = SNull | SText string | SInt int | SBool bool | SBytes "byte list"

type_synonym row = "string \<Rightarrow> sqlval"
type_synonym tables = "string \<Rightarrow> row multiset"

datatype cond =
    CondEq string sqlval
  | CondGt string sqlval
  | CondGtOrEq string sqlval
  | CondLtOrEq string sqlval

record select_stmt =
  sel_distinct :: bool
  sel_columns :: "string list"
  sel_from :: string
  sel_where :: "cond list"
  sel_order :: "(string \<times> bool) option"
  sel_limit :: "u64 option"

record insert_stmt =
  ins_into :: string
  ins_columns :: "string list"
  ins_values :: "sqlval list list"
  ins_conflict :: "(string list \<times> string list) option"

record delete_stmt =
  del_from :: string
  del_where :: "cond list"

record update_stmt =
  upd_table :: string
  upd_set :: "(string \<times> sqlval) list"
  upd_where :: "cond list"

datatype stmt =
    Select select_stmt
  | Insert insert_stmt
  | Delete delete_stmt
  | Update update_stmt

section \<open>The builder chain\<close>

text \<open>One function per builder method, so that a statement reads as the source builds it.\<close>

definition sq_Select :: "string list \<Rightarrow> string \<Rightarrow> select_stmt" where
  "sq_Select cols tbl = \<lparr>sel_distinct = False, sel_columns = cols, sel_from = tbl, sel_where = [],
     sel_order = None, sel_limit = None\<rparr>"

definition sq_Distinct :: "select_stmt \<Rightarrow> select_stmt" where
  "sq_Distinct q = q\<lparr>sel_distinct := True\<rparr>"

definition sq_Where :: "cond \<Rightarrow> select_stmt \<Rightarrow> select_stmt" where
  "sq_Where c q = q\<lparr>sel_where := sel_where q @ [c]\<rparr>"

definition sq_OrderByAsc :: "string \<Rightarrow> select_stmt \<Rightarrow> select_stmt" where
  "sq_OrderByAsc c q = q\<lparr>sel_order := Some (c, True)\<rparr>"

definition sq_OrderByDesc :: "string \<Rightarrow> select_stmt \<Rightarrow> select_stmt" where
  "sq_OrderByDesc c q = q\<lparr>sel_order := Some (c, False)\<rparr>"

definition sq_Limit :: "u64 \<Rightarrow> select_stmt \<Rightarrow> select_stmt" where
  "sq_Limit n q = q\<lparr>sel_limit := Some n\<rparr>"

definition sq_Insert :: "string \<Rightarrow> string list \<Rightarrow> insert_stmt" where
  "sq_Insert tbl cols = \<lparr>ins_into = tbl, ins_columns = cols, ins_values = [], ins_conflict = None\<rparr>"

definition sq_Values :: "sqlval list \<Rightarrow> insert_stmt \<Rightarrow> insert_stmt" where
  "sq_Values vs i = i\<lparr>ins_values := ins_values i @ [vs]\<rparr>"

definition sq_OnConflictUpdate :: "string list \<Rightarrow> string list \<Rightarrow> insert_stmt \<Rightarrow> insert_stmt" where
  "sq_OnConflictUpdate ks us i = i\<lparr>ins_conflict := Some (ks, us)\<rparr>"

definition sq_Delete :: "string \<Rightarrow> delete_stmt" where
  "sq_Delete tbl = \<lparr>del_from = tbl, del_where = []\<rparr>"

definition sq_DeleteWhere :: "cond \<Rightarrow> delete_stmt \<Rightarrow> delete_stmt" where
  "sq_DeleteWhere c d = d\<lparr>del_where := del_where d @ [c]\<rparr>"

definition sq_Update :: "string \<Rightarrow> update_stmt" where
  "sq_Update tbl = \<lparr>upd_table = tbl, upd_set = [], upd_where = []\<rparr>"

definition sq_Set :: "string \<Rightarrow> sqlval \<Rightarrow> update_stmt \<Rightarrow> update_stmt" where
  "sq_Set c v u = u\<lparr>upd_set := upd_set u @ [(c, v)]\<rparr>"

definition sq_UpdateWhere :: "cond \<Rightarrow> update_stmt \<Rightarrow> update_stmt" where
  "sq_UpdateWhere c u = u\<lparr>upd_where := upd_where u @ [c]\<rparr>"

lemmas sq_defs = sq_Delete_def sq_DeleteWhere_def sq_Update_def sq_Set_def sq_UpdateWhere_def
  sq_Select_def sq_Distinct_def sq_Where_def sq_OrderByAsc_def sq_OrderByDesc_def
  sq_Limit_def sq_Insert_def sq_Values_def sq_OnConflictUpdate_def

text \<open>
  Go arguments as SQL values (a nil \<open>[]byte\<close> is NULL), and columns scanned into Go
  variables: a column whose value does not fit the variable's type is an error.
\<close>

definition bind_u64 :: "u64 \<Rightarrow> sqlval" where
  "bind_u64 w = SInt (uint w)"

definition bind_i64 :: "i64 \<Rightarrow> sqlval" where
  "bind_i64 w = SInt (sint w)"

definition bind_bytes :: "go_bytes \<Rightarrow> sqlval" where
  "bind_bytes b = (case b of None \<Rightarrow> SNull | Some bs \<Rightarrow> SBytes bs)"

definition scan_error :: goerr where
  "scan_error = ErrExt ''scan''"

fun scan_u64 :: "sqlval \<Rightarrow> u64 res" where
  "scan_u64 (SInt i) = (if 0 \<le> i \<and> i < 18446744073709551616 then Ok (word_of_int i) else Err scan_error)"
| "scan_u64 _ = Err scan_error"

fun scan_i64 :: "sqlval \<Rightarrow> i64 res" where
  "scan_i64 (SInt i) =
     (if - 9223372036854775808 \<le> i \<and> i < 9223372036854775808 then Ok (word_of_int i) else Err scan_error)"
| "scan_i64 _ = Err scan_error"

fun scan_string :: "sqlval \<Rightarrow> string res" where
  "scan_string (SText s) = Ok s"
| "scan_string _ = Err scan_error"

fun scan_bool :: "sqlval \<Rightarrow> bool res" where
  "scan_bool (SBool b) = Ok b"
| "scan_bool _ = Err scan_error"

fun scan_bytes :: "sqlval \<Rightarrow> go_bytes res" where
  "scan_bytes (SBytes bs) = Ok (Some bs)"
| "scan_bytes SNull = Ok None"
| "scan_bytes _ = Err scan_error"

lemma scan_bind [simp]:
  "scan_u64 (bind_u64 w) = Ok w" "scan_i64 (bind_i64 w) = Ok w" "scan_bytes (bind_bytes b) = Ok b"
proof -
  have "uint w < 18446744073709551616" for w :: u64
    using uint_lt2p [of w] by simp
  then show "scan_u64 (bind_u64 w) = Ok w" by (simp add: bind_u64_def)
  have "- 9223372036854775808 \<le> sint w" "sint w < 9223372036854775808"
    using sint_ge [of w] sint_lt [of w] by simp_all
  then show "scan_i64 (bind_i64 w) = Ok w" by (simp add: bind_i64_def)
  show "scan_bytes (bind_bytes b) = Ok b" by (simp add: bind_bytes_def split: option.split)
qed

section \<open>What a statement says of the tables\<close>

text \<open>
  \<open>coll\<close> is the database's collation, the order of text values. A comparison with NULL or
  between values of different types does not hold.
\<close>

fun sql_le :: "(string \<Rightarrow> string \<Rightarrow> bool) \<Rightarrow> sqlval \<Rightarrow> sqlval \<Rightarrow> bool" where
  "sql_le coll (SInt i) (SInt j) = (i \<le> j)"
| "sql_le coll (SText s) (SText t) = coll s t"
| "sql_le coll _ _ = False"

fun holds :: "(string \<Rightarrow> string \<Rightarrow> bool) \<Rightarrow> row \<Rightarrow> cond \<Rightarrow> bool" where
  "holds coll r (CondEq c v) = (r c = v \<and> v \<noteq> SNull)"
| "holds coll r (CondGt c v) = (sql_le coll v (r c) \<and> r c \<noteq> v)"
| "holds coll r (CondGtOrEq c v) = sql_le coll v (r c)"
| "holds coll r (CondLtOrEq c v) = sql_le coll (r c) v"

definition matches :: "(string \<Rightarrow> string \<Rightarrow> bool) \<Rightarrow> cond list \<Rightarrow> row \<Rightarrow> bool" where
  "matches coll cs r \<longleftrightarrow> list_all (holds coll r) cs"

definition project :: "string list \<Rightarrow> row \<Rightarrow> row" where
  "project cols r = (\<lambda>c. if c \<in> set cols then r c else SNull)"

definition ordered_by :: "(string \<Rightarrow> string \<Rightarrow> bool) \<Rightarrow> (string \<times> bool) option \<Rightarrow> row list \<Rightarrow> bool" where
  "ordered_by coll ord rs =
     (case ord of None \<Rightarrow> True
      | Some (c, asc) \<Rightarrow>
          sorted_wrt (\<lambda>r r'. if asc then sql_le coll (r c) (r' c) else sql_le coll (r' c) (r c)) rs)"

definition limited :: "u64 option \<Rightarrow> 'a list \<Rightarrow> 'a list" where
  "limited lim rs = (case lim of None \<Rightarrow> rs | Some n \<Rightarrow> take (unat n) rs)"

text \<open>
  A list of rows is a result of a query if it is a prefix (of the limit's length) of some
  arrangement, in the order asked for, of the projected rows that satisfy the condition:
  the order among equal rows, or with no ORDER BY, is not determined.
\<close>

definition sel_result :: "(string \<Rightarrow> string \<Rightarrow> bool) \<Rightarrow> select_stmt \<Rightarrow> row multiset \<Rightarrow> row list \<Rightarrow> bool" where
  "sel_result coll q T rs \<longleftrightarrow>
     (\<exists>xs. mset xs =
         (let M = image_mset (project (sel_columns q)) (filter_mset (matches coll (sel_where q)) T)
          in if sel_distinct q then mset_set (set_mset M) else M) \<and>
       ordered_by coll (sel_order q) xs \<and> rs = limited (sel_limit q) xs)"

definition row_of :: "string list \<Rightarrow> sqlval list \<Rightarrow> row" where
  "row_of cols vs = (\<lambda>c. case map_of (zip cols vs) c of Some v \<Rightarrow> v | None \<Rightarrow> SNull)"

definition overwrite :: "string list \<Rightarrow> row \<Rightarrow> row \<Rightarrow> row" where
  "overwrite us n r = (\<lambda>c. if c \<in> set us then n c else r c)"

definition insert_row :: "(string list \<times> string list) option \<Rightarrow> row \<Rightarrow> row multiset \<Rightarrow> row multiset" where
  "insert_row oc n T =
     (case oc of
        None \<Rightarrow> add_mset n T
      | Some (ks, us) \<Rightarrow>
          if \<exists>r \<in># T. map r ks = map n ks
          then image_mset (\<lambda>r. if map r ks = map n ks then overwrite us n r else r) T
          else add_mset n T)"

fun exec_stmt :: "(string \<Rightarrow> string \<Rightarrow> bool) \<Rightarrow> stmt \<Rightarrow> tables \<Rightarrow> tables" where
  "exec_stmt coll (Select q) ts = ts"
| "exec_stmt coll (Insert i) ts =
     ts(ins_into i := fold (insert_row (ins_conflict i)) (map (row_of (ins_columns i)) (ins_values i))
                       (ts (ins_into i)))"
| "exec_stmt coll (Delete d) ts =
     ts(del_from d := filter_mset (\<lambda>r. \<not> matches coll (del_where d) r) (ts (del_from d)))"
| "exec_stmt coll (Update u) ts =
     ts(upd_table u := image_mset (\<lambda>r. if matches coll (upd_where u) r
            then (\<lambda>c. case map_of (upd_set u) c of Some v \<Rightarrow> v | None \<Rightarrow> r c) else r) (ts (upd_table u)))"

section \<open>Tables with a primary key\<close>

definition keyed :: "string list \<Rightarrow> row multiset \<Rightarrow> bool" where
  "keyed ks T \<longleftrightarrow> (\<forall>v. size {# r \<in># T. map r ks = v #} \<le> 1)"

text \<open>The row with a given key.\<close>

definition find_row :: "string list \<Rightarrow> sqlval list \<Rightarrow> row multiset \<Rightarrow> row option" where
  "find_row ks v T =
     (if {# r \<in># T. map r ks = v #} = {#} then None
      else Some (the_elem (set_mset {# r \<in># T. map r ks = v #})))"

lemma find_row_single: "{# r \<in># T. map r ks = v #} = {# r #} \<Longrightarrow> find_row ks v T = Some r"
  by (simp only: find_row_def) simp

lemma keyed_cases:
  assumes "keyed ks T"
  obtains (none) "{# r \<in># T. map r ks = v #} = {#}" "find_row ks v T = None"
    | (one) r where "{# r \<in># T. map r ks = v #} = {# r #}" "find_row ks v T = Some r" "map r ks = v" "r \<in># T"
proof (cases "{# r \<in># T. map r ks = v #} = {#}")
  case True
  then show ?thesis using none by (simp add: find_row_def)
next
  case False
  with assms have "size {# r \<in># T. map r ks = v #} = 1"
    by (metis keyed_def le_neq_implies_less less_one nonempty_has_size not_less_zero)
  then obtain r where r: "{# r \<in># T. map r ks = v #} = {# r #}"
    using size_1_singleton_mset by blast
  have "r \<in># {# r \<in># T. map r ks = v #}" by (simp only: r) simp
  then have "map r ks = v" "r \<in># T" by simp_all
  moreover have "find_row ks v T = Some r" by (simp only: find_row_def r) simp
  ultimately show ?thesis using one r by blast
qed

lemma find_row_None_iff: "find_row ks v T = None \<longleftrightarrow> (\<forall>r \<in># T. map r ks \<noteq> v)"
  by (auto simp: find_row_def)

lemma find_row_Some_iff:
  assumes "keyed ks T"
  shows "find_row ks v T = Some r \<longleftrightarrow> r \<in># T \<and> map r ks = v"
proof (cases rule: keyed_cases [OF assms, of v])
  case 1
  then show ?thesis by auto
next
  case (2 r')
  have "r \<in># T \<and> map r ks = v \<longleftrightarrow> r \<in># {# r \<in># T. map r ks = v #}" by simp
  also have "\<dots> \<longleftrightarrow> r = r'" by (simp only: 2) simp
  finally show ?thesis using 2 by auto
qed

lemma map_overwrite: "set ks \<inter> set us = {} \<Longrightarrow> map (overwrite us n r) ks = map r ks"
  by (auto simp: overwrite_def)

lemma find_row_update:
  assumes "keyed ks T" and "set ks \<inter> set us = {}" and "\<exists>r \<in># T. map r ks = map n ks"
  shows "find_row ks v (insert_row (Some (ks, us)) n T) =
    (if v = map n ks
     then Some (case find_row ks v T of None \<Rightarrow> n | Some r \<Rightarrow> overwrite us n r)
     else find_row ks v T)"
proof -
  let ?f = "\<lambda>r. if map r ks = map n ks then overwrite us n r else r"
  have keys: "map (?f r) ks = map r ks" for r using map_overwrite [OF assms(2)] by simp
  have "{# r \<in># image_mset ?f T. map r ks = v #} = image_mset ?f {# r \<in># T. map r ks = v #}"
    by (simp only: filter_mset_image_mset keys)
  with assms(3) have upd: "{# r \<in># insert_row (Some (ks, us)) n T. map r ks = v #} =
      image_mset ?f {# r \<in># T. map r ks = v #}"
    by (simp add: insert_row_def)
  have found: "find_row ks v T \<noteq> None" if "v = map n ks"
    using that assms(3) by (auto simp: find_row_None_iff)
  show ?thesis
  proof (cases rule: keyed_cases [OF assms(1), of v])
    case 1
    with upd have "find_row ks v (insert_row (Some (ks, us)) n T) = None"
      by (simp only: find_row_def) simp
    with 1 found show ?thesis by auto
  next
    case (2 r)
    with upd have "{# r \<in># insert_row (Some (ks, us)) n T. map r ks = v #} = {# ?f r #}"
      by (simp only: image_mset_single)
    then have "find_row ks v (insert_row (Some (ks, us)) n T) = Some (?f r)"
      by (rule find_row_single)
    moreover have "?f r = (if v = map n ks then overwrite us n r else r)"
      by (simp only: 2(3))
    ultimately show ?thesis by (simp only: 2(2)) simp
  qed
qed

lemma find_row_add:
  assumes "\<not> (\<exists>r \<in># T. map r ks = map n ks)"
  shows "find_row ks v (insert_row (Some (ks, us)) n T) = (if v = map n ks then Some n else find_row ks v T)"
    and "find_row ks (map n ks) T = None"
proof -
  have "insert_row (Some (ks, us)) n T = add_mset n T"
    using assms by (simp only: insert_row_def option.case prod.case if_False)
  then have ins: "{# r \<in># insert_row (Some (ks, us)) n T. map r ks = v #} =
      (if map n ks = v then add_mset n {# r \<in># T. map r ks = v #} else {# r \<in># T. map r ks = v #})" for v
    by (simp only: filter_mset_add_mset)
  have none: "{# r \<in># T. map r ks = map n ks #} = {#}" using assms by auto
  then show "find_row ks (map n ks) T = None" by (simp only: find_row_def if_True simp_thms)
  show "find_row ks v (insert_row (Some (ks, us)) n T) = (if v = map n ks then Some n else find_row ks v T)"
  proof (cases "v = map n ks")
    case True
    have "{# r \<in># insert_row (Some (ks, us)) n T. map r ks = v #} = {# n #}"
      unfolding ins True none by simp
    with True show ?thesis by (simp add: find_row_single)
  next
    case False
    then show ?thesis by (simp only: find_row_def ins) simp
  qed
qed

lemma find_row_insert_row:
  assumes "keyed ks T" and "set ks \<inter> set us = {}"
  shows "find_row ks v (insert_row (Some (ks, us)) n T) =
    (if v = map n ks
     then Some (case find_row ks v T of None \<Rightarrow> n | Some r \<Rightarrow> overwrite us n r)
     else find_row ks v T)"
proof (cases "\<exists>r \<in># T. map r ks = map n ks")
  case True
  then show ?thesis by (rule find_row_update [OF assms])
next
  case False
  show ?thesis by (simp add: find_row_add [OF False])
qed

lemma find_row_image:
  assumes "keyed ks T" "\<And>r. map (f r) ks = map r ks"
  shows "find_row ks v (image_mset f T) = map_option f (find_row ks v T)"
proof -
  have img: "{# r \<in># image_mset f T. map r ks = v #} = image_mset f {# r \<in># T. map r ks = v #}"
    by (simp only: filter_mset_image_mset assms(2))
  show ?thesis
  proof (cases rule: keyed_cases [OF assms(1), of v])
    case 1
    then have "find_row ks v (image_mset f T) = None" unfolding find_row_def img by simp
    with 1 show ?thesis by simp
  next
    case (2 r)
    then have "{# r \<in># image_mset f T. map r ks = v #} = {# f r #}" by (simp only: img image_mset_single)
    then have "find_row ks v (image_mset f T) = Some (f r)" by (rule find_row_single)
    with 2 show ?thesis by simp
  qed
qed

lemma find_row_filter:
  assumes "keyed ks T"
  shows "find_row ks v (filter_mset C T) =
    (case find_row ks v T of None \<Rightarrow> None | Some r \<Rightarrow> if C r then Some r else None)"
proof -
  have flt: "{# r \<in># filter_mset C T. map r ks = v #} = filter_mset C {# r \<in># T. map r ks = v #}"
    by (simp only: filter_filter_mset conj_commute)
  show ?thesis
  proof (cases rule: keyed_cases [OF assms(1), of v])
    case 1
    have "find_row ks v (filter_mset C T) = None" by (simp only: find_row_def flt 1(1)) simp
    with 1 show ?thesis by simp
  next
    case (2 r)
    then have eq: "{# r \<in># filter_mset C T. map r ks = v #} = (if C r then {# r #} else {#})"
      by (simp only: flt) simp
    then have "find_row ks v (filter_mset C T) = (if C r then Some r else None)"
      unfolding find_row_def by (simp only: eq) simp
    with 2 show ?thesis by simp
  qed
qed

text \<open>A query for one key over a keyed table has the row of that key as its only result.\<close>

lemma sel_result_by_key:
  assumes "keyed ks T" and "matches coll (sel_where q) = (\<lambda>r. map r ks = v)"
    and "\<not> sel_distinct q" and "sel_limit q = None \<or> sel_limit q = Some 1"
    and "sel_result coll q T rs"
  shows "rs = (case find_row ks v T of None \<Rightarrow> [] | Some r \<Rightarrow> [project (sel_columns q) r])"
proof -
  from assms(2,3,5) obtain xs
    where xs: "mset xs = image_mset (project (sel_columns q)) {# r \<in># T. map r ks = v #}"
      and rs: "rs = limited (sel_limit q) xs"
    by (auto simp: sel_result_def)
  show ?thesis
  proof (cases rule: keyed_cases [OF assms(1), of v])
    case 1
    then have "xs = []" using xs by (simp only: image_mset_empty mset_zero_iff)
    then show ?thesis using 1 rs by (simp add: limited_def split: option.split)
  next
    case (2 r)
    then have "xs = [project (sel_columns q) r]" using xs
      by (simp only: image_mset_single mset_single_iff)
    then show ?thesis using 2 rs assms(4) by (auto simp: limited_def)
  qed
qed

lemma keyed_insert_row:
  assumes "keyed ks T" "set ks \<inter> set us = {}"
  shows "keyed ks (insert_row (Some (ks, us)) n T)"
proof (cases "\<exists>r \<in># T. map r ks = map n ks")
  case True
  let ?f = "\<lambda>r. if map r ks = map n ks then overwrite us n r else r"
  have "map (?f r) ks = map r ks" for r using assms(2) by (auto simp: overwrite_def)
  moreover have "insert_row (Some (ks, us)) n T = image_mset ?f T"
    using True by (simp only: insert_row_def option.case prod.case if_True)
  ultimately show ?thesis using assms(1)
    by (simp only: keyed_def filter_mset_image_mset size_image_mset comp_def) (simp del: map_eq_conv)
next
  case False
  then have "insert_row (Some (ks, us)) n T = add_mset n T"
    by (simp only: insert_row_def option.case prod.case if_False)
  moreover have "{# r \<in># T. map r ks = map n ks #} = {#}" using False by auto
  ultimately show ?thesis using assms(1) by (auto simp: keyed_def simp del: map_eq_conv)
qed

text \<open>A query for the distinct values of one column.\<close>

lemma sel_result_column:
  assumes "sel_result coll q T rs" "sel_columns q = [c]" "sel_distinct q"
  shows "\<exists>vs. distinct vs \<and> set vs = (\<lambda>r. r c) ` {r. r \<in># T \<and> matches coll (sel_where q) r} \<and>
    map (\<lambda>r. r c) rs = limited (sel_limit q) vs \<and>
    (sel_order q = Some (c, True) \<longrightarrow> sorted_wrt (sql_le coll) vs)"
proof -
  let ?M = "image_mset (project [c]) (filter_mset (matches coll (sel_where q)) T)"
  obtain xs where xs: "mset xs = mset_set (set_mset ?M)" "ordered_by coll (sel_order q) xs"
    "rs = limited (sel_limit q) xs"
    using assms by (auto simp: sel_result_def Let_def)
  have set_xs: "set xs = set_mset ?M"
    using arg_cong [OF xs(1), of set_mset] by simp
  have "distinct xs"
    by (rule card_distinct) (metis set_xs size_mset size_mset_set xs(1))
  moreover have "inj_on (\<lambda>r. r c) (set xs)"
    unfolding set_xs by (auto simp: inj_on_def project_def fun_eq_iff)
  ultimately have "distinct (map (\<lambda>r. r c) xs)" by (simp add: distinct_map)
  moreover have "set (map (\<lambda>r. r c) xs) = (\<lambda>r. r c) ` {r. r \<in># T \<and> matches coll (sel_where q) r}"
    by (auto simp: set_xs project_def image_iff)
  moreover have "sel_order q = Some (c, True) \<longrightarrow> sorted_wrt (sql_le coll) (map (\<lambda>r. r c) xs)"
    using xs(2) by (auto simp: ordered_by_def sorted_wrt_map)
  moreover have "map (\<lambda>r. r c) rs = limited (sel_limit q) (map (\<lambda>r. r c) xs)"
    by (simp add: xs(3) limited_def take_map split: option.split)
  ultimately show ?thesis by blast
qed

end
