(* ===== verification/StateRow.thy ===== *)
theory StateRow
  imports StateStore Sql
begin

text \<open>
  The row of \<open>states_store\<close> and its conversion to a durable state: the struct \<open>row\<close> with
  \<open>ToDurableState\<close>, the same text in \<open>durablestore/postgres/row.go\<close> and
  \<open>durablestore/cassandra/row.go\<close>, and the scan of a result row into it (a column goes to the
  field whose name is its camel-case form).
\<close>

record state_row =
  sr_PersistenceID :: string
  sr_VersionNumber :: u64
  sr_StatePayload :: go_bytes
  sr_StateManifest :: string
  sr_Timestamp :: i64
  sr_ShardNumber :: u64

definition zero_state_row :: state_row where
  "zero_state_row = \<lparr>sr_PersistenceID = [], sr_VersionNumber = 0, sr_StatePayload = None,
     sr_StateManifest = [], sr_Timestamp = 0, sr_ShardNumber = 0\<rparr>"

definition scan_state_row :: "row \<Rightarrow> state_row res" where
  "scan_state_row r =
     bind_res (scan_string (r ''persistence_id'')) (\<lambda>pid.
     bind_res (scan_u64 (r ''version_number'')) (\<lambda>ver.
     bind_res (scan_bytes (r ''state_payload'')) (\<lambda>payload.
     bind_res (scan_string (r ''state_manifest'')) (\<lambda>manifest.
     bind_res (scan_i64 (r ''timestamp'')) (\<lambda>ts.
     bind_res (scan_u64 (r ''shard_number'')) (\<lambda>shard.
       Ok \<lparr>sr_PersistenceID = pid, sr_VersionNumber = ver, sr_StatePayload = payload,
           sr_StateManifest = manifest, sr_Timestamp = ts, sr_ShardNumber = shard\<rparr>))))))"

definition ToDurableState :: "('t, 'm) protolib \<Rightarrow> state_row \<Rightarrow> durable_state res" where
  "ToDurableState L x =
     (case toProto L (sr_StateManifest x) (sr_StatePayload x) of
        Err err \<Rightarrow> Err (ErrWrap ''failed to unmarshal the durable state'' err)
      | Panic \<Rightarrow> Panic
      | Ok state \<Rightarrow>
          Ok \<lparr>ds_PersistenceId = sr_PersistenceID x, ds_VersionNumber = sr_VersionNumber x,
              ds_ResultingState = Some state, ds_Timestamp = sr_Timestamp x, ds_Shard = sr_ShardNumber x\<rparr>)"

definition state_columns :: "string list" where
  "state_columns = [''persistence_id'', ''version_number'', ''state_payload'', ''state_manifest'',
     ''timestamp'', ''shard_number'']"

text \<open>The values bound for a message, in the order of the columns.\<close>

definition state_values :: "('t, 'm) protolib \<Rightarrow> durable_state \<Rightarrow> sqlval list" where
  "state_values L state =
     [SText (ds_PersistenceId state), bind_u64 (ds_VersionNumber state),
      bind_bytes (marshal_bytes L (ds_ResultingState state)),
      SText (full_name L (ds_ResultingState state)),
      bind_i64 (ds_Timestamp state), bind_u64 (ds_Shard state)]"

text \<open>What a stored row means.\<close>

definition decode_state ::
  "(row \<Rightarrow> state_row res) \<Rightarrow> ('t, 'm) protolib \<Rightarrow> row \<Rightarrow> durable_state res" where
  "decode_state sc L r = bind_res (sc r) (ToDurableState L)"

text \<open>
  A driver's scan into the struct: it looks at the columns of the table only, and gives the
  values back that were bound.
\<close>

definition good_scan :: "(row \<Rightarrow> state_row res) \<Rightarrow> bool" where
  "good_scan sc \<longleftrightarrow>
     (\<forall>r r'. (\<forall>c \<in> set state_columns. r c = r' c) \<longrightarrow> sc r = sc r') \<and>
     (\<forall>pid ver payload manifest ts shard.
        sc (row_of state_columns
              [SText pid, bind_u64 ver, bind_bytes payload, SText manifest, bind_i64 ts, bind_u64 shard]) =
          Ok \<lparr>sr_PersistenceID = pid, sr_VersionNumber = ver, sr_StatePayload = payload,
              sr_StateManifest = manifest, sr_Timestamp = ts, sr_ShardNumber = shard\<rparr>)"

text \<open>What the SQL stores can keep: a message with an id, a payload and a valid payload.\<close>

definition sql_storable :: "('t, 'm) protolib \<Rightarrow> durable_state \<Rightarrow> bool" where
  "sql_storable L d \<longleftrightarrow> ds_PersistenceId d \<noteq> [] \<and> ds_ResultingState d \<noteq> None \<and>
     marshals L (ds_ResultingState d)"

lemma row_of_state_values:
  "row_of state_columns (state_values L d) ''persistence_id'' = SText (ds_PersistenceId d)"
  "row_of state_columns (state_values L d) ''version_number'' = bind_u64 (ds_VersionNumber d)"
  "row_of state_columns (state_values L d) ''state_payload'' = bind_bytes (marshal_bytes L (ds_ResultingState d))"
  "row_of state_columns (state_values L d) ''state_manifest'' = SText (full_name L (ds_ResultingState d))"
  "row_of state_columns (state_values L d) ''timestamp'' = bind_i64 (ds_Timestamp d)"
  "row_of state_columns (state_values L d) ''shard_number'' = bind_u64 (ds_Shard d)"
  by (simp_all add: row_of_def state_columns_def state_values_def)

lemma scan_state_row_cong:
  "\<forall>c \<in> set state_columns. r c = r' c \<Longrightarrow> scan_state_row r = scan_state_row r'"
  by (simp add: scan_state_row_def state_columns_def)

lemma scan_state_row_good: "good_scan scan_state_row"
  unfolding good_scan_def
  by (auto intro: scan_state_row_cong simp: scan_state_row_def row_of_def state_columns_def)

lemma decode_state_cong:
  "good_scan sc \<Longrightarrow> \<forall>c \<in> set state_columns. r c = r' c \<Longrightarrow> decode_state sc L r = decode_state sc L r'"
  unfolding decode_state_def good_scan_def by metis

lemma scan_state_row_project [simp]: "scan_state_row (project state_columns r) = scan_state_row r"
  by (rule scan_state_row_cong) (simp add: project_def)

lemma scan_state_row_pid:
  "scan_state_row r = Ok x \<Longrightarrow> r ''persistence_id'' = SText (sr_PersistenceID x)"
  unfolding scan_state_row_def bind_res_Ok_iff
  by (cases "r ''persistence_id''") auto

lemma decode_state_values:
  assumes "good_scan sc" "proto_contract L" and "sql_storable L d"
  shows "decode_state sc L (row_of state_columns (state_values L d)) = Ok d"
proof -
  from assms(3) obtain a where a: "ds_ResultingState d = Some a" by (auto simp: sql_storable_def)
  have "toProto L (full_name L (ds_ResultingState d)) (marshal_bytes L (ds_ResultingState d)) = Ok a"
    using toProto_roundtrip [OF assms(2), of "ds_ResultingState d"] assms(3) a
    by (simp add: sql_storable_def)
  then show ?thesis
    using assms(1) by (simp add: decode_state_def good_scan_def state_values_def ToDurableState_def a [symmetric])
qed

text \<open>The view of a table: the message of the row with a key, if it can be decoded.\<close>

definition state_view ::
  "(row \<Rightarrow> state_row res) \<Rightarrow> ('t, 'm) protolib \<Rightarrow> row multiset \<Rightarrow> string \<Rightarrow> durable_state option" where
  "state_view sc L T p =
     (case find_row [''persistence_id''] [SText p] T of
        None \<Rightarrow> None
      | Some r \<Rightarrow> (case decode_state sc L r of Ok d \<Rightarrow> Some d | _ \<Rightarrow> None))"

text \<open>The columns an upsert overwrites, in the order of the statement's suffix.\<close>

definition state_updated :: "string list" where
  "state_updated = [''version_number'', ''state_payload'', ''state_manifest'', ''timestamp'', ''shard_number'']"

lemma state_view_insert_row:
  assumes "good_scan sc" "proto_contract L" "sql_storable L d" "keyed [''persistence_id''] T"
    and "set us = set state_updated"
  shows "state_view sc L (insert_row (Some ([''persistence_id''], us)) (row_of state_columns (state_values L d)) T)
    = (state_view sc L T)(ds_PersistenceId d \<mapsto> d)"
proof
  fix p
  let ?n = "row_of state_columns (state_values L d)"
  let ?old = "find_row [''persistence_id''] [SText p] T"
  have key: "map ?n [''persistence_id''] = [SText (ds_PersistenceId d)]" by (simp add: row_of_state_values)
  have fresh: "set [''persistence_id''] \<inter> set us = {}" unfolding assms(5) by (simp add: state_updated_def)
  have dec: "decode_state sc L ?n = Ok d" by (rule decode_state_values [OF assms(1,2,3)])
  have upd: "decode_state sc L (overwrite us ?n r) = Ok d" if "?old = Some r" "p = ds_PersistenceId d" for r
  proof -
    have "map r [''persistence_id''] = [SText p]" using that(1) by (simp add: find_row_Some_iff [OF assms(4)])
    then have "\<forall>c \<in> set state_columns. overwrite us ?n r c = ?n c"
      using that(2) unfolding overwrite_def assms(5)
      by (simp add: state_columns_def state_updated_def row_of_state_values [unfolded state_columns_def])
    from decode_state_cong [OF assms(1) this, of L] dec show ?thesis by simp
  qed
  show "state_view sc L (insert_row (Some ([''persistence_id''], us)) ?n T) p =
      ((state_view sc L T)(ds_PersistenceId d \<mapsto> d)) p"
    unfolding state_view_def find_row_insert_row [OF assms(4) fresh] key
    using dec upd by (auto split: option.splits)
qed

text \<open>A row read back by key decodes to the view, with the key's id.\<close>

lemma state_view_found:
  assumes "keyed [''persistence_id''] T" "p \<noteq> []"
    and "find_row [''persistence_id''] [SText p] T = Some r" "scan_state_row r = Ok x"
  shows "sr_PersistenceID x = p" and "ToDurableState L x = Ok d \<Longrightarrow> state_view scan_state_row L T p = Some d"
proof -
  have "map r [''persistence_id''] = [SText p]" using assms(1,3) by (simp add: find_row_Some_iff)
  then show "sr_PersistenceID x = p" using scan_state_row_pid [OF assms(4)] by simp
  show "ToDurableState L x = Ok d \<Longrightarrow> state_view scan_state_row L T p = Some d"
    using assms(3,4) by (simp add: state_view_def decode_state_def)
qed

end
