(* ===== verification/Strconv.thy ===== *)
theory Strconv
  imports Prelude
begin

text \<open>
  The decimal text of integers: \<open>fmt.Sprintf("%d", n)\<close>, \<open>strconv.ParseUint(s, 10, 64)\<close> and
  \<open>strconv.ParseInt(s, 10, 64)\<close> of the Go standard library, as the DynamoDB store, the
  connection strings and the error messages use them. The parsers are the library's loops on
  64-bit words, with its two errors and the value they return with each.
\<close>

section \<open>Printing\<close>

definition digit_char :: "nat \<Rightarrow> char" where
  "digit_char d = char_of (48 + d)"

fun fmt_nat :: "nat \<Rightarrow> string" where
  "fmt_nat n = (if n < 10 then [digit_char n] else fmt_nat (n div 10) @ [digit_char (n mod 10)])"

declare fmt_nat.simps [simp del]

definition fmt_int :: "int \<Rightarrow> string" where
  "fmt_int i = (if i < 0 then CHR ''-'' # fmt_nat (nat (- i)) else fmt_nat (nat i))"

definition fmt_u64 :: "u64 \<Rightarrow> string" where
  "fmt_u64 w = fmt_nat (unat w)"

definition fmt_i64 :: "i64 \<Rightarrow> string" where
  "fmt_i64 w = fmt_int (sint w)"

section \<open>Parsing\<close>

datatype num_error = ErrSyntax | ErrRange

definition digit_of :: "char \<Rightarrow> nat option" where
  "digit_of c = (let d = of_char c :: nat in if 48 \<le> d \<and> d \<le> 57 then Some (d - 48) else None)"

definition max_u64 :: u64 where
  "max_u64 = 18446744073709551615"

text \<open>The smallest \<open>n\<close> with \<open>10 * n > max_u64\<close>.\<close>

definition cutoff10 :: u64 where
  "cutoff10 = 1844674407370955162"

fun ParseUint_loop :: "string \<Rightarrow> u64 \<Rightarrow> u64 \<times> num_error option" where
  "ParseUint_loop [] n = (n, None)"
| "ParseUint_loop (c # cs) n =
     (case digit_of c of
        None \<Rightarrow> (0, Some ErrSyntax)
      | Some d \<Rightarrow>
          if cutoff10 \<le> n then (max_u64, Some ErrRange)
          else let n10 = n * 10; n1 = n10 + of_nat d in
            if n1 < n10 then (max_u64, Some ErrRange) else ParseUint_loop cs n1)"

definition ParseUint :: "string \<Rightarrow> u64 \<times> num_error option" where
  "ParseUint s = (if s = [] then (0, Some ErrSyntax) else ParseUint_loop s 0)"

definition int64_cutoff :: u64 where
  "int64_cutoff = 9223372036854775808"

definition ParseInt :: "string \<Rightarrow> i64 \<times> num_error option" where
  "ParseInt s =
     (if s = [] then (0, Some ErrSyntax)
      else let neg = (hd s = CHR ''-'');
               body = (if hd s = CHR ''+'' \<or> hd s = CHR ''-'' then tl s else s);
               (un, err) = ParseUint body in
        if err = Some ErrSyntax then (0, err)
        else if \<not> neg \<and> int64_cutoff \<le> un then (int64_cutoff - 1, Some ErrRange)
        else if neg \<and> int64_cutoff < un then (- int64_cutoff, Some ErrRange)
        else (if neg then - un else un, None))"

section \<open>Round trips\<close>

lemma digit_of_digit_char: "d < 10 \<Longrightarrow> digit_of (digit_char d) = Some d"
  by (simp add: digit_of_def digit_char_def)

lemma digit_char_not_sign: "d < 10 \<Longrightarrow> digit_char d \<noteq> CHR ''-'' \<and> digit_char d \<noteq> CHR ''+''"
  using digit_of_digit_char [of d] by (auto simp: digit_of_def)

lemma fmt_nat_not_Nil [simp]: "fmt_nat n \<noteq> []"
  by (subst fmt_nat.simps) simp

lemma hd_fmt_nat: "\<exists>d < 10. hd (fmt_nat n) = digit_char d"
proof (induction n rule: fmt_nat.induct)
  case (1 n)
  then show ?case
    by (cases "n < 10") (auto simp: fmt_nat.simps [of n])
qed

lemma ParseUint_loop_step:
  assumes "k < 2 ^ 64"
  shows "ParseUint_loop (digit_char (k mod 10) # cs) (of_nat (k div 10)) = ParseUint_loop cs (of_nat k)"
proof -
  let ?q = "of_nat (k div 10) :: u64"
  have q: "unat ?q = k div 10"
    using assms by (simp add: unat_of_nat_u64)
  have small: "\<not> cutoff10 \<le> ?q"
    using assms by (simp add: cutoff10_def word_le_nat_alt q)
  have sum: "?q * 10 + of_nat (k mod 10) = (of_nat k :: u64)"
  proof -
    have "?q * 10 + of_nat (k mod 10) = (of_nat (k div 10 * 10 + k mod 10) :: u64)"
      by (simp only: of_nat_add of_nat_mult of_nat_numeral)
    also have "\<dots> = of_nat k" by (simp only: div_mult_mod_eq)
    finally show ?thesis .
  qed
  have "unat (?q * 10) = k div 10 * 10"
  proof -
    have "?q * 10 = (of_nat (k div 10 * 10) :: u64)" by (simp only: of_nat_mult of_nat_numeral)
    moreover have "k div 10 * 10 < 18446744073709551616" using assms by simp
    ultimately show ?thesis by (simp only: unat_of_nat_u64)
  qed
  moreover have "unat (of_nat k :: u64) = k" using assms by (simp add: unat_of_nat_u64)
  ultimately have "\<not> (of_nat k :: u64) < ?q * 10"
    by (simp add: word_less_nat_alt not_less)
  with small show ?thesis
    by (simp add: digit_of_digit_char Let_def sum)
qed

lemma ParseUint_loop_fmt_nat:
  "k < 2 ^ 64 \<Longrightarrow> ParseUint_loop (fmt_nat k @ cs) 0 = ParseUint_loop cs (of_nat k)"
proof (induction k arbitrary: cs rule: fmt_nat.induct)
  case (1 k)
  show ?case
  proof (cases "k < 10")
    case True
    then show ?thesis using ParseUint_loop_step [OF "1.prems", of cs] by (simp add: fmt_nat.simps)
  next
    case False
    then have "ParseUint_loop (fmt_nat k @ cs) 0 =
        ParseUint_loop (fmt_nat (k div 10) @ digit_char (k mod 10) # cs) 0"
      by (simp add: fmt_nat.simps [of k])
    also have "\<dots> = ParseUint_loop (digit_char (k mod 10) # cs) (of_nat (k div 10))"
      using False "1.prems" by (intro "1.IH") auto
    also have "\<dots> = ParseUint_loop cs (of_nat k)"
      using "1.prems" by (rule ParseUint_loop_step)
    finally show ?thesis .
  qed
qed

lemma ParseUint_fmt_nat: "k < 2 ^ 64 \<Longrightarrow> ParseUint (fmt_nat k) = (of_nat k, None)"
  using ParseUint_loop_fmt_nat [of k "[]"] by (simp add: ParseUint_def)

lemma ParseUint_fmt_u64: "ParseUint (fmt_u64 w) = (w, None)"
proof -
  have "unat w < 2 ^ 64" using unat_u64_less [of w] by simp
  then show ?thesis by (simp only: fmt_u64_def ParseUint_fmt_nat) simp
qed

lemma ParseInt_fmt_nat:
  assumes "k < 2 ^ 63"
  shows "ParseInt (fmt_nat k) = (of_nat k, None)"
proof -
  from hd_fmt_nat [of k] obtain d where "d < 10" "hd (fmt_nat k) = digit_char d" by blast
  then have hd: "hd (fmt_nat k) \<noteq> CHR ''-''" "hd (fmt_nat k) \<noteq> CHR ''+''"
    using digit_char_not_sign by auto
  have "\<not> int64_cutoff \<le> (of_nat k :: u64)"
    using assms by (simp add: int64_cutoff_def word_le_nat_alt unat_of_nat_u64)
  then show ?thesis
    using assms hd by (simp add: ParseInt_def ParseUint_fmt_nat)
qed

lemma ParseInt_fmt_neg:
  assumes "k \<le> 2 ^ 63"
  shows "ParseInt (CHR ''-'' # fmt_nat k) = (- of_nat k, None)"
proof -
  have "\<not> int64_cutoff < (of_nat k :: u64)"
    using assms by (simp add: int64_cutoff_def word_less_nat_alt unat_of_nat_u64)
  then show ?thesis
    using assms by (simp add: ParseInt_def ParseUint_fmt_nat)
qed

lemma ParseInt_fmt_i64: "ParseInt (fmt_i64 w) = (w, None)"
proof (cases "sint w < 0")
  case True
  let ?k = "nat (- sint w)"
  have "- (2 ^ 63) \<le> sint w" using sint_ge [of w] by simp
  then have "?k \<le> 2 ^ 63" by simp
  moreover have "- of_nat ?k = w"
  proof -
    have "- of_nat ?k = (of_int (- int ?k) :: u64)" by simp
    also have "\<dots> = of_int (sint w)" using True by simp
    finally show ?thesis by simp
  qed
  ultimately show ?thesis using True by (simp add: fmt_i64_def fmt_int_def ParseInt_fmt_neg)
next
  case False
  let ?k = "nat (sint w)"
  have "sint w < 2 ^ 63" using sint_lt [of w] by simp
  then have "?k < 2 ^ 63" using False by simp
  moreover have "of_nat ?k = w"
  proof -
    have "of_nat ?k = (of_int (int ?k) :: u64)" by simp
    also have "\<dots> = of_int (sint w)" using False by simp
    finally show ?thesis by simp
  qed
  ultimately show ?thesis using False by (simp add: fmt_i64_def fmt_int_def ParseInt_fmt_nat)
qed

end
