(* ===== verification/PgDatabase.thy ===== *)
theory PgDatabase
  imports Sql Strconv
begin

text \<open>
  \<open>postgres.go\<close> and \<open>db_config.go\<close>, of which each Postgres store has a copy: the
  configuration, the connection string, and the thin layer over the pgx pool that the stores
  call through the Go interface \<open>database\<close>. The pool, the row scanner and the SQL builder
  are third-party code: a record of functions over an abstract world, with the contract the
  stores rely on. The interface \<open>database\<close> is the locale \<open>sql_database\<close>, interpreted on
  the layer at the end of the theory.
\<close>

section \<open>Configuration\<close>

text \<open>Durations are nanoseconds in an \<open>int64\<close>; a Go \<open>int\<close> is an \<open>int64\<close>.\<close>

definition Minute :: i64 where
  "Minute = 60000000000"

definition Hour :: i64 where
  "Hour = 3600000000000"

record db_config =
  dc_DBHost :: string
  dc_DBPort :: i64
  dc_DBName :: string
  dc_DBUser :: string
  dc_DBPassword :: string
  dc_DBSchema :: string
  dc_DBSSLMode :: string
  dc_MaxConnections :: i64
  dc_MinConnections :: i64
  dc_MaxConnectionLifetime :: i64
  dc_MaxConnIdleTime :: i64
  dc_HealthCheckPeriod :: i64

text \<open>The public \<open>Config\<close> of the durable and the snapshot store has the same fields.\<close>

record config =
  cf_DBHost :: string
  cf_DBPort :: i64
  cf_DBName :: string
  cf_DBUser :: string
  cf_DBPassword :: string
  cf_DBSchema :: string
  cf_DBSSLMode :: string
  cf_MaxConnections :: i64
  cf_MinConnections :: i64
  cf_MaxConnectionLifetime :: i64
  cf_MaxConnIdleTime :: i64
  cf_HealthCheckPeriod :: i64

definition sanitize :: "db_config \<Rightarrow> db_config" where
  "sanitize c =
     (let c = (if dc_DBSSLMode c = '''' then c\<lparr>dc_DBSSLMode := ''disable''\<rparr> else c);
          c = (if dc_MaxConnections c = 0 then c\<lparr>dc_MaxConnections := 4\<rparr> else c);
          c = (if dc_MaxConnectionLifetime c = 0 then c\<lparr>dc_MaxConnectionLifetime := Hour\<rparr> else c);
          c = (if dc_MaxConnIdleTime c = 0 then c\<lparr>dc_MaxConnIdleTime := 30 * Minute\<rparr> else c);
          c = (if dc_HealthCheckPeriod c = 0 then c\<lparr>dc_HealthCheckPeriod := Minute\<rparr> else c)
      in c)"

definition newConfig :: "config \<Rightarrow> db_config" where
  "newConfig config =
     sanitize \<lparr>dc_DBHost = cf_DBHost config, dc_DBPort = cf_DBPort config, dc_DBName = cf_DBName config,
       dc_DBUser = cf_DBUser config, dc_DBPassword = cf_DBPassword config, dc_DBSchema = cf_DBSchema config,
       dc_DBSSLMode = cf_DBSSLMode config, dc_MaxConnections = cf_MaxConnections config,
       dc_MinConnections = cf_MinConnections config,
       dc_MaxConnectionLifetime = cf_MaxConnectionLifetime config,
       dc_MaxConnIdleTime = cf_MaxConnIdleTime config, dc_HealthCheckPeriod = cf_HealthCheckPeriod config\<rparr>"

text \<open>The connection string of the durable and the snapshot store.\<close>

definition createConnectionString :: "db_config \<Rightarrow> string" where
  "createConnectionString config =
     (let info = ''host='' @ dc_DBHost config @ '' port='' @ fmt_i64 (dc_DBPort config) @
                 '' user='' @ dc_DBUser config @ '' dbname='' @ dc_DBName config @
                 '' sslmode='' @ dc_DBSSLMode config;
          info = (if dc_DBPassword config \<noteq> '''' then info @ '' password='' @ dc_DBPassword config else info);
          info = (if dc_DBSchema config \<noteq> '''' then info @ '' search_path='' @ dc_DBSchema config else info)
      in info)"

text \<open>
  The event store and the offset store have no SSL mode: their struct is this record without
  \<open>DBSSLMode\<close> (left empty here and not read), filled with defaults instead of sanitized.
\<close>

definition plain_newConfig :: "string \<Rightarrow> i64 \<Rightarrow> string \<Rightarrow> string \<Rightarrow> string \<Rightarrow> string \<Rightarrow> db_config" where
  "plain_newConfig host port user password dbName schema =
     \<lparr>dc_DBHost = host, dc_DBPort = port, dc_DBName = dbName, dc_DBUser = user, dc_DBPassword = password,
      dc_DBSchema = schema, dc_DBSSLMode = '''', dc_MaxConnections = 4, dc_MinConnections = 0,
      dc_MaxConnectionLifetime = Hour, dc_MaxConnIdleTime = 30 * Minute, dc_HealthCheckPeriod = Minute\<rparr>"

text \<open>The constructor of the offset store's package takes no schema; its client sets the field.\<close>

definition NewConfig :: "string \<Rightarrow> i64 \<Rightarrow> string \<Rightarrow> string \<Rightarrow> string \<Rightarrow> db_config" where
  "NewConfig host port user password dbName =
     \<lparr>dc_DBHost = host, dc_DBPort = port, dc_DBName = dbName, dc_DBUser = user, dc_DBPassword = password,
      dc_DBSchema = '''', dc_DBSSLMode = '''', dc_MaxConnections = 4, dc_MinConnections = 0,
      dc_MaxConnectionLifetime = Hour, dc_MaxConnIdleTime = 30 * Minute, dc_HealthCheckPeriod = Minute\<rparr>"

definition plain_connectionString ::
  "string \<Rightarrow> i64 \<Rightarrow> string \<Rightarrow> string \<Rightarrow> string \<Rightarrow> string \<Rightarrow> string" where
  "plain_connectionString host port name user password schema =
     (let info = ''host='' @ host @ '' port='' @ fmt_i64 port @ '' user='' @ user @
                 '' dbname='' @ name @ '' sslmode=disable'';
          info = (if password \<noteq> '''' then info @ '' password='' @ password else info);
          info = (if schema \<noteq> '''' then info @ '' search_path='' @ schema else info)
      in info)"

section \<open>The pgx driver, the scanner and the SQL builder\<close>

record pool_settings =
  po_MaxConns :: "32 word"
  po_MaxConnLifetime :: i64
  po_MaxConnIdleTime :: i64
  po_MinConns :: "32 word"
  po_HealthCheckPeriod :: i64

text \<open>
  \<open>to_sql\<close> is the builder's \<open>ToSql\<close>; \<open>parse_config\<close>, \<open>new_pool\<close>, \<open>pool_ping\<close>,
  \<open>pool_exec\<close>, \<open>pool_begin\<close> and \<open>pool_close\<close> belong to pgxpool, the \<open>tx_\<close> functions
  to \<open>pgx.Tx\<close>; \<open>scan_all\<close> and \<open>scan_one\<close> are \<open>pgxscan.Select\<close> and \<open>pgxscan.Get\<close> up
  to the rows they fetch (the mapping of a row to the destination struct is in the stores'
  theories), and \<open>not_found\<close> is \<open>pgxscan.NotFound\<close>.
\<close>

record ('q, 'cfg, 'pool, 'tx, 'w) pgdrv =
  to_sql :: "stmt \<Rightarrow> 'q res"
  parse_config :: "string \<Rightarrow> 'cfg res"
  set_config :: "pool_settings \<Rightarrow> 'cfg \<Rightarrow> 'cfg"
  new_pool :: "'cfg \<Rightarrow> 'w \<Rightarrow> 'pool res \<times> 'w"
  pool_ping :: "'pool \<Rightarrow> 'w \<Rightarrow> unit res \<times> 'w"
  pool_exec :: "'pool \<Rightarrow> 'q \<Rightarrow> 'w \<Rightarrow> unit res \<times> 'w"
  pool_begin :: "'pool \<Rightarrow> 'w \<Rightarrow> 'tx res \<times> 'w"
  pool_close :: "'pool \<Rightarrow> 'w \<Rightarrow> 'w"
  tx_exec :: "'tx \<Rightarrow> 'q \<Rightarrow> 'w \<Rightarrow> unit res \<times> 'w"
  tx_rollback :: "'tx \<Rightarrow> 'w \<Rightarrow> unit res \<times> 'w"
  tx_commit :: "'tx \<Rightarrow> 'w \<Rightarrow> unit res \<times> 'w"
  scan_all :: "'pool \<Rightarrow> 'q \<Rightarrow> 'w \<Rightarrow> row list res"
  scan_one :: "'pool \<Rightarrow> 'q \<Rightarrow> 'w \<Rightarrow> row res"
  not_found :: "goerr \<Rightarrow> bool"

text \<open>
  What the contract speaks of: the tables of the database, the tables as a transaction sees
  them, the number of open transactions, which transactions are open, the worlds the database can be in, the collation and
  the primary key of each table. The database is used by this store alone.
\<close>

record ('tx, 'w) pgghost =
  gh_tables :: "'w \<Rightarrow> tables"
  gh_staged :: "'w \<Rightarrow> 'tx \<Rightarrow> tables"
  gh_open :: "'w \<Rightarrow> nat"
  gh_live :: "'w \<Rightarrow> 'tx \<Rightarrow> bool"
  gh_valid :: "'w \<Rightarrow> bool"
  gh_coll :: "string \<Rightarrow> string \<Rightarrow> bool"
  gh_pk :: "string \<Rightarrow> string list"

text \<open>A statement that fails may or may not have been applied, but is never applied in part.\<close>

definition exec_contract :: "('q, 'cfg, 'pool, 'tx, 'w) pgdrv \<Rightarrow> ('tx, 'w) pgghost \<Rightarrow> bool" where
  "exec_contract D G \<longleftrightarrow>
     (\<forall>st q p w r w'. to_sql D st = Ok q \<and> gh_valid G w \<and> pool_exec D p q w = (r, w') \<longrightarrow>
        r \<noteq> Panic \<and> gh_valid G w' \<and> gh_open G w' = gh_open G w \<and>
        (r = Ok () \<longrightarrow> gh_tables G w' = exec_stmt (gh_coll G) st (gh_tables G w)) \<and>
        (r \<noteq> Ok () \<longrightarrow> gh_tables G w' = gh_tables G w \<or>
           gh_tables G w' = exec_stmt (gh_coll G) st (gh_tables G w)))"

definition query_contract :: "('q, 'cfg, 'pool, 'tx, 'w) pgdrv \<Rightarrow> ('tx, 'w) pgghost \<Rightarrow> bool" where
  "query_contract D G \<longleftrightarrow>
     (\<forall>s q p w. to_sql D (Select s) = Ok q \<and> gh_valid G w \<longrightarrow>
        scan_one D p q w \<noteq> Panic \<and> scan_all D p q w \<noteq> Panic \<and>
        (\<forall>r. scan_one D p q w = Ok r \<longrightarrow> sel_result (gh_coll G) s (gh_tables G w (sel_from s)) [r]) \<and>
        (\<forall>e. scan_one D p q w = Err e \<and> not_found D e \<longrightarrow>
           sel_result (gh_coll G) s (gh_tables G w (sel_from s)) []) \<and>
        (\<forall>rs. scan_all D p q w = Ok rs \<longrightarrow> sel_result (gh_coll G) s (gh_tables G w (sel_from s)) rs) \<and>
        (\<forall>e. scan_all D p q w = Err e \<and> not_found D e \<longrightarrow>
           sel_result (gh_coll G) s (gh_tables G w (sel_from s)) []))"

definition pool_contract :: "('q, 'cfg, 'pool, 'tx, 'w) pgdrv \<Rightarrow> ('tx, 'w) pgghost \<Rightarrow> bool" where
  "pool_contract D G \<longleftrightarrow>
     (\<forall>st. to_sql D st \<noteq> Panic) \<and> (\<forall>s. parse_config D s \<noteq> Panic) \<and>
     (\<forall>c w r w'. gh_valid G w \<and> new_pool D c w = (r, w') \<longrightarrow>
        r \<noteq> Panic \<and> gh_valid G w' \<and> gh_tables G w' = gh_tables G w) \<and>
     (\<forall>p w r w'. gh_valid G w \<and> pool_ping D p w = (r, w') \<longrightarrow>
        r \<noteq> Panic \<and> gh_valid G w' \<and> gh_tables G w' = gh_tables G w) \<and>
     (\<forall>p w. gh_valid G w \<longrightarrow> gh_valid G (pool_close D p w) \<and> gh_tables G (pool_close D p w) = gh_tables G w)"

text \<open>A rollback and a commit end their transaction if it is open; one that has ended is not ended again.\<close>

definition tx_contract :: "('q, 'cfg, 'pool, 'tx, 'w) pgdrv \<Rightarrow> ('tx, 'w) pgghost \<Rightarrow> bool" where
  "tx_contract D G \<longleftrightarrow>
     (\<forall>p w r w'. gh_valid G w \<and> pool_begin D p w = (r, w') \<longrightarrow>
        r \<noteq> Panic \<and> gh_valid G w' \<and> gh_tables G w' = gh_tables G w \<and>
        gh_open G w' = (if is_ok r then Suc (gh_open G w) else gh_open G w) \<and>
        (\<forall>tx. r = Ok tx \<longrightarrow> gh_staged G w' tx = gh_tables G w \<and> gh_live G w' tx)) \<and>
     (\<forall>st q tx w r w'. to_sql D st = Ok q \<and> gh_valid G w \<and> tx_exec D tx q w = (r, w') \<longrightarrow>
        r \<noteq> Panic \<and> gh_valid G w' \<and> gh_tables G w' = gh_tables G w \<and> gh_open G w' = gh_open G w \<and>
        gh_live G w' tx = gh_live G w tx \<and>
        (r = Ok () \<longrightarrow> gh_staged G w' tx = exec_stmt (gh_coll G) st (gh_staged G w tx))) \<and>
     (\<forall>tx w r w'. gh_valid G w \<and> tx_rollback D tx w = (r, w') \<longrightarrow>
        r \<noteq> Panic \<and> gh_valid G w' \<and> gh_tables G w' = gh_tables G w \<and>
        gh_open G w' = (if gh_live G w tx then gh_open G w - 1 else gh_open G w)) \<and>
     (\<forall>tx w r w'. gh_valid G w \<and> tx_commit D tx w = (r, w') \<longrightarrow>
        r \<noteq> Panic \<and> gh_valid G w' \<and>
        gh_open G w' = (if gh_live G w tx then gh_open G w - 1 else gh_open G w) \<and>
        (r = Ok () \<longrightarrow> gh_tables G w' = gh_staged G w tx) \<and>
        (r \<noteq> Ok () \<longrightarrow> gh_tables G w' = gh_tables G w \<or> gh_tables G w' = gh_staged G w tx))"

text \<open>A primary key is unique in every world, and the collation is a linear order.\<close>

definition schema_contract :: "('tx, 'w) pgghost \<Rightarrow> bool" where
  "schema_contract G \<longleftrightarrow>
     (\<forall>w t. gh_valid G w \<and> gh_pk G t \<noteq> [] \<longrightarrow> keyed (gh_pk G t) (gh_tables G w t)) \<and>
     (\<forall>a b. gh_coll G a b \<or> gh_coll G b a) \<and>
     (\<forall>a b. gh_coll G a b \<and> gh_coll G b a \<longrightarrow> a = b) \<and>
     (\<forall>a b c. gh_coll G a b \<and> gh_coll G b c \<longrightarrow> gh_coll G a c)"

definition pg_contract :: "('q, 'cfg, 'pool, 'tx, 'w) pgdrv \<Rightarrow> ('tx, 'w) pgghost \<Rightarrow> bool" where
  "pg_contract D G \<longleftrightarrow> exec_contract D G \<and> query_contract D G \<and> pool_contract D G \<and>
     tx_contract D G \<and> schema_contract G"

section \<open>The layer of postgres.go\<close>

record 'pool postgres =
  pg_connStr :: string
  pg_pool :: "'pool option"
  pg_config :: db_config

definition newDatabase :: "db_config \<Rightarrow> 'pool postgres" where
  "newDatabase config =
     \<lparr>pg_connStr = createConnectionString config, pg_pool = None, pg_config = config\<rparr>"

definition plain_newDatabase :: "db_config \<Rightarrow> 'pool postgres" where
  "plain_newDatabase config =
     \<lparr>pg_connStr = plain_connectionString (dc_DBHost config) (dc_DBPort config) (dc_DBName config)
        (dc_DBUser config) (dc_DBPassword config) (dc_DBSchema config),
      pg_pool = None, pg_config = config\<rparr>"

type_synonym ('pool, 'w) pgdb = "'pool postgres \<times> 'w"

definition pg_settings :: "db_config \<Rightarrow> pool_settings" where
  "pg_settings c =
     \<lparr>po_MaxConns = ucast (dc_MaxConnections c), po_MaxConnLifetime = dc_MaxConnectionLifetime c,
      po_MaxConnIdleTime = dc_MaxConnIdleTime c, po_MinConns = ucast (dc_MinConnections c),
      po_HealthCheckPeriod = dc_HealthCheckPeriod c\<rparr>"

definition pg_Connect ::
  "('q, 'cfg, 'pool, 'tx, 'w) pgdrv \<Rightarrow> ('pool, 'w) pgdb \<Rightarrow> unit res \<times> ('pool, 'w) pgdb" where
  "pg_Connect D s =
     (case s of (pg, w) \<Rightarrow>
        (case parse_config D (pg_connStr pg) of
           Err e \<Rightarrow> (Err (ErrWrap ''failed to parse connection string'' e), (pg, w))
         | Panic \<Rightarrow> (Panic, (pg, w))
         | Ok config \<Rightarrow>
             (case new_pool D (set_config D (pg_settings (pg_config pg)) config) w of
                (Err e, w1) \<Rightarrow> (Err (ErrWrap ''failed to create the connection pool'' e), (pg, w1))
              | (Panic, w1) \<Rightarrow> (Panic, (pg, w1))
              | (Ok pool, w1) \<Rightarrow>
                  (case pool_ping D pool w1 of
                     (Err e, w2) \<Rightarrow> (Err (ErrWrap ''failed to ping the database connection'' e), (pg, w2))
                   | (Panic, w2) \<Rightarrow> (Panic, (pg, w2))
                   | (Ok _, w2) \<Rightarrow> (Ok (), (pg\<lparr>pg_pool := Some pool\<rparr>, w2))))))"

text \<open>A method call on a nil pool panics.\<close>

definition pg_Ping ::
  "('q, 'cfg, 'pool, 'tx, 'w) pgdrv \<Rightarrow> ('pool, 'w) pgdb \<Rightarrow> unit res \<times> ('pool, 'w) pgdb" where
  "pg_Ping D s =
     (case s of (pg, w) \<Rightarrow>
        (case pg_pool pg of
           None \<Rightarrow> (Panic, (pg, w))
         | Some pool \<Rightarrow> (let (r, w') = pool_ping D pool w in (r, (pg, w')))))"

definition pg_Exec ::
  "('q, 'cfg, 'pool, 'tx, 'w) pgdrv \<Rightarrow> 'q \<Rightarrow> ('pool, 'w) pgdb \<Rightarrow> unit res \<times> ('pool, 'w) pgdb" where
  "pg_Exec D query s =
     (case s of (pg, w) \<Rightarrow>
        (case pg_pool pg of
           None \<Rightarrow> (Panic, (pg, w))
         | Some pool \<Rightarrow> (let (r, w') = pool_exec D pool query w in (r, (pg, w')))))"

definition pg_BeginTx ::
  "('q, 'cfg, 'pool, 'tx, 'w) pgdrv \<Rightarrow> ('pool, 'w) pgdb \<Rightarrow> 'tx res \<times> ('pool, 'w) pgdb" where
  "pg_BeginTx D s =
     (case s of (pg, w) \<Rightarrow>
        (case pg_pool pg of
           None \<Rightarrow> (Panic, (pg, w))
         | Some pool \<Rightarrow> (let (r, w') = pool_begin D pool w in (r, (pg, w')))))"

text \<open>No record is no error: the destination keeps its zero value (an empty slice).\<close>

definition pg_SelectAll ::
  "('q, 'cfg, 'pool, 'tx, 'w) pgdrv \<Rightarrow> 'q \<Rightarrow> ('pool, 'w) pgdb \<Rightarrow> row list res" where
  "pg_SelectAll D query s =
     (case pg_pool (fst s) of
        None \<Rightarrow> Panic
      | Some pool \<Rightarrow>
          (case scan_all D pool query (snd s) of
             Err err \<Rightarrow> if not_found D err then Ok [] else Err err
           | Panic \<Rightarrow> Panic
           | Ok rs \<Rightarrow> Ok rs))"

definition pg_Select ::
  "('q, 'cfg, 'pool, 'tx, 'w) pgdrv \<Rightarrow> 'q \<Rightarrow> ('pool, 'w) pgdb \<Rightarrow> row option res" where
  "pg_Select D query s =
     (case pg_pool (fst s) of
        None \<Rightarrow> Panic
      | Some pool \<Rightarrow>
          (case scan_one D pool query (snd s) of
             Err err \<Rightarrow> if not_found D err then Ok None else Err err
           | Panic \<Rightarrow> Panic
           | Ok r \<Rightarrow> Ok (Some r)))"

definition pg_Disconnect ::
  "('q, 'cfg, 'pool, 'tx, 'w) pgdrv \<Rightarrow> ('pool, 'w) pgdb \<Rightarrow> unit res \<times> ('pool, 'w) pgdb" where
  "pg_Disconnect D s =
     (case s of (pg, w) \<Rightarrow>
        (case pg_pool pg of
           None \<Rightarrow> (Ok (), (pg, w))
         | Some pool \<Rightarrow> (Ok (), (pg, pool_close D pool w))))"

lemmas pg_defs = newDatabase_def pg_settings_def pg_Connect_def pg_Ping_def pg_Exec_def pg_BeginTx_def
  pg_SelectAll_def pg_Select_def pg_Disconnect_def

end
