(* ===== verification/SqlDatabase.thy ===== *)
theory SqlDatabase
  imports PgDatabase
begin

text \<open>
  The Go interface \<open>database\<close> as a locale: what \<open>Exec\<close>, \<open>Select\<close> and \<open>SelectAll\<close>
  promise of the tables, and the two facts the stores need of a keyed table: an upsert
  replaces the row of its key and a query by key returns that row. The locale is interpreted
  on the layer of \<open>postgres.go\<close>.
\<close>

section \<open>The interface\<close>

locale sql_database =
  fixes rely :: "'env \<Rightarrow> bool"
    and ready :: "'env \<Rightarrow> 's \<Rightarrow> bool"
    and tabs :: "'env \<Rightarrow> 's \<Rightarrow> tables"
    and coll :: "'env \<Rightarrow> string \<Rightarrow> string \<Rightarrow> bool"
    and pk :: "'env \<Rightarrow> string \<Rightarrow> string list"
    and renders :: "'env \<Rightarrow> stmt \<Rightarrow> 'q \<Rightarrow> bool"
    and dbExec :: "'env \<Rightarrow> 'q \<Rightarrow> 's \<Rightarrow> unit res \<times> 's"
    and dbSelect :: "'env \<Rightarrow> 'q \<Rightarrow> 's \<Rightarrow> row option res"
    and dbSelectAll :: "'env \<Rightarrow> 'q \<Rightarrow> 's \<Rightarrow> row list res"
  assumes exec_ready: "\<lbrakk>rely env; ready env s; renders env st q; dbExec env q s = (r, s')\<rbrakk> \<Longrightarrow> ready env s'"
    and exec_ok: "\<lbrakk>rely env; ready env s; renders env st q; dbExec env q s = (Ok (), s')\<rbrakk>
      \<Longrightarrow> tabs env s' = exec_stmt (coll env) st (tabs env s)"
    and exec_fail: "\<lbrakk>rely env; ready env s; renders env st q; dbExec env q s = (r, s'); r \<noteq> Ok ()\<rbrakk>
      \<Longrightarrow> tabs env s' = tabs env s \<or> tabs env s' = exec_stmt (coll env) st (tabs env s)"
    and select_ok: "\<lbrakk>rely env; ready env s; renders env (Select sl) q; dbSelect env q s = Ok x\<rbrakk>
      \<Longrightarrow> sel_result (coll env) sl (tabs env s (sel_from sl)) (case x of None \<Rightarrow> [] | Some r \<Rightarrow> [r])"
    and select_all_ok: "\<lbrakk>rely env; ready env s; renders env (Select sl) q; dbSelectAll env q s = Ok rs\<rbrakk>
      \<Longrightarrow> sel_result (coll env) sl (tabs env s (sel_from sl)) rs"
    and pk_keyed: "\<lbrakk>rely env; ready env s; pk env t \<noteq> []\<rbrakk> \<Longrightarrow> keyed (pk env t) (tabs env s t)"
begin

lemma select_by_key:
  assumes "rely env" "ready env s" "renders env (Select sl) q" "dbSelect env q s = Ok x"
    and "pk env (sel_from sl) = ks" "ks \<noteq> []"
    and "matches (coll env) (sel_where sl) = (\<lambda>r. map r ks = v)"
    and "\<not> sel_distinct sl" and "sel_limit sl = None \<or> sel_limit sl = Some 1"
  shows "x = map_option (project (sel_columns sl)) (find_row ks v (tabs env s (sel_from sl)))"
proof -
  have "keyed ks (tabs env s (sel_from sl))"
    using pk_keyed [OF assms(1,2), of "sel_from sl"] assms(5,6) by simp
  then have "(case x of None \<Rightarrow> [] | Some r \<Rightarrow> [r]) =
      (case find_row ks v (tabs env s (sel_from sl)) of None \<Rightarrow> []
       | Some r \<Rightarrow> [project (sel_columns sl) r])"
    by (rule sel_result_by_key [OF _ assms(7-9) select_ok [OF assms(1-4)]])
  then show ?thesis by (auto split: option.splits)
qed

text \<open>A successful upsert of one row, on the table's primary key.\<close>

lemma upsert_by_key:
  assumes "rely env" "ready env s" "renders env (Insert i) q" "dbExec env q s = (Ok (), s')"
    and "ins_values i = [vs]" "ins_conflict i = Some (ks, us)"
    and "pk env (ins_into i) = ks" "ks \<noteq> []" "set ks \<inter> set us = {}"
  shows "find_row ks v (tabs env s' (ins_into i)) =
     (let n = row_of (ins_columns i) vs in
      if v = map n ks
      then Some (case find_row ks v (tabs env s (ins_into i)) of None \<Rightarrow> n | Some r \<Rightarrow> overwrite us n r)
      else find_row ks v (tabs env s (ins_into i)))"
proof -
  have "keyed ks (tabs env s (ins_into i))"
    using pk_keyed [OF assms(1,2), of "ins_into i"] assms(7,8) by simp
  moreover have "tabs env s' (ins_into i) =
      insert_row (Some (ks, us)) (row_of (ins_columns i) vs) (tabs env s (ins_into i))"
    using exec_ok [OF assms(1-4)] assms(5,6) by simp
  ultimately show ?thesis using assms(9) by (simp add: find_row_insert_row Let_def)
qed

lemma exec_frame:
  assumes "rely env" "ready env s" "renders env (Insert i) q" "dbExec env q s = (r, s')"
    and "t \<noteq> ins_into i"
  shows "tabs env s' t = tabs env s t"
  using exec_ok [OF assms(1-3)] exec_fail [OF assms(1-4)] assms(4,5)
  by (cases "r = Ok ()") auto

end

section \<open>The layer of postgres.go provides it\<close>

text \<open>The environment is the driver with what its contract speaks of.\<close>

type_synonym ('q, 'cfg, 'pool, 'tx, 'w) pgenv =
  "('q, 'cfg, 'pool, 'tx, 'w) pgdrv \<times> ('tx, 'w) pgghost"

definition pgenv_ok :: "('q, 'cfg, 'pool, 'tx, 'w) pgenv \<Rightarrow> bool" where
  "pgenv_ok env \<longleftrightarrow> pg_contract (fst env) (snd env)"

definition pg_ready :: "('q, 'cfg, 'pool, 'tx, 'w) pgenv \<Rightarrow> ('pool, 'w) pgdb \<Rightarrow> bool" where
  "pg_ready env s \<longleftrightarrow> gh_valid (snd env) (snd s)"

definition pg_tables :: "('q, 'cfg, 'pool, 'tx, 'w) pgenv \<Rightarrow> ('pool, 'w) pgdb \<Rightarrow> tables" where
  "pg_tables env s = gh_tables (snd env) (snd s)"

definition pg_renders :: "('q, 'cfg, 'pool, 'tx, 'w) pgenv \<Rightarrow> stmt \<Rightarrow> 'q \<Rightarrow> bool" where
  "pg_renders env st q \<longleftrightarrow> to_sql (fst env) st = Ok q"

lemmas pgenv_defs = pgenv_ok_def pg_ready_def pg_tables_def pg_renders_def

lemma pg_Exec_contract:
  assumes "pgenv_ok env" "pg_ready env s" "pg_renders env st q" "pg_Exec (fst env) q s = (r, s')"
  shows "pg_ready env s'"
    and "r = Ok () \<Longrightarrow> pg_tables env s' = exec_stmt (gh_coll (snd env)) st (pg_tables env s)"
    and "pg_tables env s' = pg_tables env s \<or>
         pg_tables env s' = exec_stmt (gh_coll (snd env)) st (pg_tables env s)"
proof -
  obtain D G where env: "env = (D, G)" by (cases env)
  obtain pg w where s: "s = (pg, w)" by (cases s)
  have "pg_ready env s' \<and>
      (r = Ok () \<longrightarrow> pg_tables env s' = exec_stmt (gh_coll (snd env)) st (pg_tables env s)) \<and>
      (pg_tables env s' = pg_tables env s \<or>
         pg_tables env s' = exec_stmt (gh_coll (snd env)) st (pg_tables env s))"
  proof (cases "pg_pool pg")
    case None
    then show ?thesis using assms by (simp add: env s pg_Exec_def)
  next
    case (Some p)
    obtain r1 w' where e: "pool_exec D p q w = (r1, w')" by fastforce
    with Some assms have r: "r = r1" "s' = (pg, w')" by (simp_all add: env s pg_Exec_def)
    have "exec_contract D G" and q: "to_sql D st = Ok q" and v: "gh_valid G w"
      using assms by (simp_all add: env s pgenv_defs pg_contract_def)
    then have "gh_valid G w'"
      and "r1 = Ok () \<longrightarrow> gh_tables G w' = exec_stmt (gh_coll G) st (gh_tables G w)"
      and "r1 \<noteq> Ok () \<longrightarrow> gh_tables G w' = gh_tables G w \<or>
           gh_tables G w' = exec_stmt (gh_coll G) st (gh_tables G w)"
      using e unfolding exec_contract_def by blast+
    then show ?thesis by (auto simp: env s r pgenv_defs)
  qed
  then show "pg_ready env s'"
    and "r = Ok () \<Longrightarrow> pg_tables env s' = exec_stmt (gh_coll (snd env)) st (pg_tables env s)"
    and "pg_tables env s' = pg_tables env s \<or>
         pg_tables env s' = exec_stmt (gh_coll (snd env)) st (pg_tables env s)"
    by blast+
qed

lemma pg_query_facts:
  assumes "pgenv_ok env" "pg_ready env s" "pg_renders env (Select sl) q" "pg_pool (fst s) = Some p"
  shows "scan_one (fst env) p q (snd s) = Ok r \<Longrightarrow>
      sel_result (gh_coll (snd env)) sl (pg_tables env s (sel_from sl)) [r]"
    and "scan_one (fst env) p q (snd s) = Err e \<Longrightarrow> not_found (fst env) e \<Longrightarrow>
      sel_result (gh_coll (snd env)) sl (pg_tables env s (sel_from sl)) []"
    and "scan_all (fst env) p q (snd s) = Ok rs \<Longrightarrow>
      sel_result (gh_coll (snd env)) sl (pg_tables env s (sel_from sl)) rs"
    and "scan_all (fst env) p q (snd s) = Err e \<Longrightarrow> not_found (fst env) e \<Longrightarrow>
      sel_result (gh_coll (snd env)) sl (pg_tables env s (sel_from sl)) []"
  using assms unfolding pgenv_defs pg_contract_def query_contract_def by blast+

lemma pg_Select_contract:
  assumes "pgenv_ok env" "pg_ready env s" "pg_renders env (Select sl) q" "pg_Select (fst env) q s = Ok x"
  shows "sel_result (gh_coll (snd env)) sl (pg_tables env s (sel_from sl))
    (case x of None \<Rightarrow> [] | Some r \<Rightarrow> [r])"
proof (cases "pg_pool (fst s)")
  case None
  then show ?thesis using assms(4) by (simp add: pg_Select_def)
next
  case (Some p)
  note facts = pg_query_facts [OF assms(1-3) Some]
  show ?thesis
    using assms(4) Some facts(1,2)
    by (cases "scan_one (fst env) p q (snd s)") (auto simp: pg_Select_def split: if_splits)
qed

lemma pg_SelectAll_contract:
  assumes "pgenv_ok env" "pg_ready env s" "pg_renders env (Select sl) q" "pg_SelectAll (fst env) q s = Ok rs"
  shows "sel_result (gh_coll (snd env)) sl (pg_tables env s (sel_from sl)) rs"
proof (cases "pg_pool (fst s)")
  case None
  then show ?thesis using assms(4) by (simp add: pg_SelectAll_def)
next
  case (Some p)
  note facts = pg_query_facts [OF assms(1-3) Some]
  show ?thesis
    using assms(4) Some facts(3,4)
    by (cases "scan_all (fst env) p q (snd s)") (auto simp: pg_SelectAll_def split: if_splits)
qed

interpretation pgdb: sql_database pgenv_ok pg_ready pg_tables "\<lambda>env. gh_coll (snd env)"
  "\<lambda>env. gh_pk (snd env)" pg_renders "\<lambda>env. pg_Exec (fst env)" "\<lambda>env. pg_Select (fst env)"
  "\<lambda>env. pg_SelectAll (fst env)"
proof unfold_locales
  fix env :: "('q, 'cfg, 'pool, 'tx, 'w) pgenv" and s t
  assume "pgenv_ok env" "pg_ready env s" "gh_pk (snd env) t \<noteq> []"
  then show "keyed (gh_pk (snd env) t) (pg_tables env s t)"
    unfolding pgenv_defs pg_contract_def schema_contract_def by blast
qed ((erule (3) pg_Exec_contract(1)) | (erule (3) pg_Exec_contract(2), rule refl) |
  (erule (3) pg_Exec_contract(3)) | (erule (3) pg_Select_contract) | (erule (3) pg_SelectAll_contract))+

text \<open>Connecting, pinging and disconnecting leave the tables alone.\<close>

lemma pg_pool_facts:
  assumes "pgenv_ok env" "gh_valid (snd env) w"
  shows "new_pool (fst env) c w = (r1, w') \<Longrightarrow>
      r1 \<noteq> Panic \<and> gh_valid (snd env) w' \<and> gh_tables (snd env) w' = gh_tables (snd env) w"
    and "pool_ping (fst env) p w = (r2, w') \<Longrightarrow>
      r2 \<noteq> Panic \<and> gh_valid (snd env) w' \<and> gh_tables (snd env) w' = gh_tables (snd env) w"
    and "gh_valid (snd env) (pool_close (fst env) p w)"
    and "gh_tables (snd env) (pool_close (fst env) p w) = gh_tables (snd env) w"
    and "parse_config (fst env) str \<noteq> Panic" and "to_sql (fst env) st \<noteq> Panic"
  using assms unfolding pgenv_defs pg_contract_def pool_contract_def by blast+

lemma pg_Connect_cases:
  assumes "pgenv_ok env" "pg_ready env s" "pg_Connect (fst env) s = (r, s')"
  shows "pg_ready env s' \<and> pg_tables env s' = pg_tables env s \<and> r \<noteq> Panic \<and>
    pg_connStr (fst s') = pg_connStr (fst s) \<and> (r = Ok () \<longrightarrow> pg_pool (fst s') \<noteq> None)"
proof -
  obtain D G where env: "env = (D, G)" by (cases env)
  obtain pg w where s: "s = (pg, w)" by (cases s)
  let ?c = "\<lambda>config. set_config D (pg_settings (pg_config pg)) config"
  have w: "gh_valid (snd env) w" using assms(2) by (simp add: s pg_ready_def)
  show ?thesis
  proof (cases "parse_config D (pg_connStr pg)")
    case (Err e)
    then show ?thesis using assms(2,3) by (auto simp: env s pg_Connect_def)
  next
    case Panic
    then show ?thesis using pg_pool_facts(5) [OF assms(1) w] by (simp add: env)
  next
    case (Ok config)
    obtain r1 w1 where n: "new_pool D (?c config) w = (r1, w1)" by fastforce
    then have w1: "r1 \<noteq> Panic" "gh_valid (snd env) w1" "gh_tables (snd env) w1 = gh_tables (snd env) w"
      using pg_pool_facts(1) [OF assms(1) w] by (auto simp: env)
    show ?thesis
    proof (cases r1)
      case (Ok pool)
      obtain r2 w2 where p: "pool_ping D pool w1 = (r2, w2)" by fastforce
      then have "r2 \<noteq> Panic" "gh_valid (snd env) w2" "gh_tables (snd env) w2 = gh_tables (snd env) w1"
        using pg_pool_facts(2) [OF assms(1) w1(2)] by (auto simp: env)
      then show ?thesis using assms(3) \<open>parse_config D (pg_connStr pg) = Ok config\<close> n p w1 Ok
        by (cases r2) (auto simp: env s pg_Connect_def pgenv_defs)
    qed (use assms(3) Ok n w1 in \<open>auto simp: env s pg_Connect_def pgenv_defs\<close>)
  qed
qed

end
