(* ===== verification/PgStore.thy ===== *)
theory PgStore
  imports StateStore SqlDatabase
begin

text \<open>
  What the four Postgres stores have in common: a struct with the database layer and a
  connection flag, and the same \<open>Connect\<close>, \<open>Disconnect\<close> and \<open>Ping\<close>. Each store's theory
  translates its own and shows that they are these. The state is the struct together with
  the world the driver acts on.
\<close>

record ('pool, 'w) pg_store =
  st_db :: "'pool postgres"
  st_connected :: bool
  st_world :: 'w

text \<open>The pair of layer and world that \<open>s.db\<close> stands for, and a store with it replaced.\<close>

definition st_pair :: "('pool, 'w, 'x) pg_store_scheme \<Rightarrow> ('pool, 'w) pgdb" where
  "st_pair s = (st_db s, st_world s)"

definition st_put :: "('pool, 'w) pgdb \<Rightarrow> ('pool, 'w, 'x) pg_store_scheme \<Rightarrow> ('pool, 'w, 'x) pg_store_scheme" where
  "st_put p s = s\<lparr>st_db := fst p, st_world := snd p\<rparr>"

definition store_Connect ::
  "('q, 'cfg, 'pool, 'tx, 'w) pgdrv \<Rightarrow> ('pool, 'w, 'x) pg_store_scheme \<Rightarrow> unit res \<times> ('pool, 'w, 'x) pg_store_scheme" where
  "store_Connect D s =
     (if st_connected s then (Ok (), s)
      else case pg_Connect D (st_pair s) of
             (Err err, p) \<Rightarrow> (Err err, st_put p s)
           | (Panic, p) \<Rightarrow> (Panic, st_put p s)
           | (Ok _, p) \<Rightarrow> (Ok (), (st_put p s)\<lparr>st_connected := True\<rparr>))"

definition store_Disconnect ::
  "('q, 'cfg, 'pool, 'tx, 'w) pgdrv \<Rightarrow> ('pool, 'w, 'x) pg_store_scheme \<Rightarrow> unit res \<times> ('pool, 'w, 'x) pg_store_scheme" where
  "store_Disconnect D s =
     (if \<not> st_connected s then (Ok (), s)
      else case pg_Disconnect D (st_pair s) of
             (Err err, p) \<Rightarrow> (Err err, st_put p s)
           | (Panic, p) \<Rightarrow> (Panic, st_put p s)
           | (Ok _, p) \<Rightarrow> (Ok (), (st_put p s)\<lparr>st_connected := False\<rparr>))"

definition store_Ping ::
  "('q, 'cfg, 'pool, 'tx, 'w) pgdrv \<Rightarrow> ('pool, 'w, 'x) pg_store_scheme \<Rightarrow> unit res \<times> ('pool, 'w, 'x) pg_store_scheme" where
  "store_Ping D s =
     (if \<not> st_connected s then store_Connect D s
      else let (r, p) = pg_Ping D (st_pair s) in (r, st_put p s))"

lemmas store_life_defs = store_Connect_def store_Disconnect_def store_Ping_def

declare store_life_defs [store_defs]

lemma st_connected_put [simp]: "st_connected (st_put p s) = st_connected s"
  by (simp add: st_put_def)

lemma st_pair_put [simp]: "st_pair (st_put p s) = p"
  by (simp add: st_pair_def st_put_def)

lemma st_pair_connected [simp]: "st_pair (s\<lparr>st_connected := b\<rparr>) = st_pair s"
  by (simp add: st_pair_def)

interpretation store_life: lifecycle "\<lambda>_. True" st_connected store_Connect store_Disconnect store_Ping
proof unfold_locales
  fix D :: "('q, 'cfg, 'pool, 'tx, 'w) pgdrv" and s :: "('pool, 'w, 'x) pg_store_scheme" and r s'
  obtain r1 p1 where c: "pg_Connect D (st_pair s) = (r1, p1)" by (cases "pg_Connect D (st_pair s)")
  show "st_connected s'" if "store_Connect D s = (Ok (), s')"
    using that c by (cases r1) (auto simp: store_defs split: if_splits)
  show "\<not> st_connected s'" if "store_Connect D s = (r, s')" "r \<noteq> Ok ()"
    using that c by (cases r1) (auto simp: store_defs split: if_splits)
  obtain r2 p2 where d: "pg_Disconnect D (st_pair s) = (r2, p2)" by (cases "pg_Disconnect D (st_pair s)")
  show "\<not> st_connected s'" if "store_Disconnect D s = (Ok (), s')"
    using that d by (cases r2) (auto simp: store_defs split: if_splits)
  show "st_connected s'" if "st_connected s" "store_Ping D s = (r, s')"
    using that by (auto simp: store_defs split: prod.splits)
qed (simp_all add: store_defs)

text \<open>The lifecycle leaves the tables alone, and a connected store has a pool.\<close>

definition st_pool_inv :: "('pool, 'w, 'x) pg_store_scheme \<Rightarrow> bool" where
  "st_pool_inv s \<longleftrightarrow> (st_connected s \<longrightarrow> pg_pool (st_db s) \<noteq> None)"

lemma store_Connect_tables:
  assumes "pgenv_ok env" "pg_ready env (st_pair s)" "st_pool_inv s" "store_Connect (fst env) s = (r, s')"
  shows "pg_ready env (st_pair s') \<and> pg_tables env (st_pair s') = pg_tables env (st_pair s) \<and>
    st_pool_inv s' \<and> r \<noteq> Panic"
proof (cases "st_connected s")
  case True
  then show ?thesis using assms by (auto simp: store_defs)
next
  case False
  obtain r1 p where c: "pg_Connect (fst env) (st_pair s) = (r1, p)" by (cases "pg_Connect (fst env) (st_pair s)")
  from pg_Connect_cases [OF assms(1,2) c] show ?thesis
    using assms(4) False c by (cases r1) (auto simp: store_defs st_pool_inv_def st_put_def st_pair_def)
qed

lemma store_Disconnect_tables:
  assumes "pgenv_ok env" "pg_ready env (st_pair s)" "st_pool_inv s" "store_Disconnect (fst env) s = (r, s')"
  shows "pg_ready env (st_pair s') \<and> pg_tables env (st_pair s') = pg_tables env (st_pair s) \<and>
    st_pool_inv s' \<and> r = Ok ()"
proof (cases "st_connected s")
  case False
  then show ?thesis using assms by (simp add: store_defs)
next
  case True
  then obtain p where "pg_pool (st_db s) = Some p" using assms(3) by (auto simp: st_pool_inv_def)
  then show ?thesis
    using assms True pg_pool_facts(3,4) [of env "st_world s" p]
    by (auto simp: store_defs pg_Disconnect_def st_pair_def st_put_def pgenv_defs st_pool_inv_def)
qed

text \<open>
  The shape of the calls that run one statement: build the SQL, run it on the pool, wrap the
  errors. The stores' theories show that their calls are of this shape.
\<close>

definition store_exec ::
  "('q, 'cfg, 'pool, 'tx, 'w) pgdrv \<Rightarrow> string \<Rightarrow> string \<Rightarrow> stmt \<Rightarrow> ('pool, 'w, 'x) pg_store_scheme \<Rightarrow>
   unit res \<times> ('pool, 'w, 'x) pg_store_scheme" where
  "store_exec D build_msg exec_msg st s =
     (case to_sql D st of
        Err err \<Rightarrow> (Err (ErrWrap build_msg err), s)
      | Panic \<Rightarrow> (Panic, s)
      | Ok query \<Rightarrow>
          (case pg_Exec D query (st_pair s) of
             (Err err, p) \<Rightarrow> (Err (ErrWrap exec_msg err), st_put p s)
           | (Panic, p) \<Rightarrow> (Panic, st_put p s)
           | (Ok _, p) \<Rightarrow> (Ok (), st_put p s)))"

lemma store_exec_tables:
  assumes "pgenv_ok env" "pg_ready env (st_pair s)" "store_exec (fst env) m1 m2 st s = (r, s')"
  defines "after \<equiv> exec_stmt (gh_coll (snd env)) st (pg_tables env (st_pair s))"
  shows "pg_ready env (st_pair s')" and "r = Ok () \<Longrightarrow> pg_tables env (st_pair s') = after"
    and "pg_tables env (st_pair s') = pg_tables env (st_pair s) \<or> pg_tables env (st_pair s') = after"
    and "st_connected s' = st_connected s"
proof -
  have "pg_ready env (st_pair s') \<and> (r = Ok () \<longrightarrow> pg_tables env (st_pair s') = after) \<and>
    (pg_tables env (st_pair s') = pg_tables env (st_pair s) \<or> pg_tables env (st_pair s') = after) \<and>
    st_connected s' = st_connected s"
  proof (cases "to_sql (fst env) st")
    case (Ok q)
    obtain r1 p where e: "pg_Exec (fst env) q (st_pair s) = (r1, p)" by (cases "pg_Exec (fst env) q (st_pair s)")
    then have "s' = st_put p s" "r = Ok () \<longleftrightarrow> r1 = Ok ()"
      using assms(3) Ok by (cases r1; auto simp: store_exec_def)+
    then show ?thesis
      using pg_Exec_contract [OF assms(1,2) _ e, of st] Ok by (auto simp: pg_renders_def after_def)
  qed (use assms(2,3) in \<open>auto simp: store_exec_def\<close>)
  then show "pg_ready env (st_pair s')" and "r = Ok () \<Longrightarrow> pg_tables env (st_pair s') = after"
    and "pg_tables env (st_pair s') = pg_tables env (st_pair s) \<or> pg_tables env (st_pair s') = after"
    and "st_connected s' = st_connected s"
    by blast+
qed

end
