(* ===== verification/DurablePg.thy ===== *)
theory DurablePg
  imports StateRow PgStore
begin

text \<open>
  \<open>durablestore/postgres/durable_store.go\<close>: the Postgres durable store. The state is the
  struct (the database layer and the connection flag, both guarded by a mutex) together with
  the world the driver acts on; each operation is one critical section or one statement, so
  the sequential model takes the mutex as given.
\<close>

definition dp_columns :: "string list" where
  "dp_columns = [''persistence_id'', ''version_number'', ''state_payload'', ''state_manifest'',
     ''timestamp'', ''shard_number'']"

definition dp_tableName :: string where
  "dp_tableName = ''states_store''"

definition NewDurableStore :: "config \<Rightarrow> 'w \<Rightarrow> ('pool, 'w) pg_store" where
  "NewDurableStore config w =
     \<lparr>st_db = newDatabase (newConfig config), st_connected = False, st_world = w\<rparr>"

definition dp_Connect ::
  "('q, 'cfg, 'pool, 'tx, 'w) pgdrv \<Rightarrow> ('pool, 'w) pg_store \<Rightarrow> unit res \<times> ('pool, 'w) pg_store" where
  "dp_Connect D s =
     (if st_connected s then (Ok (), s)
      else case pg_Connect D (st_pair s) of
             (Err err, p) \<Rightarrow> (Err err, st_put p s)
           | (Panic, p) \<Rightarrow> (Panic, st_put p s)
           | (Ok _, p) \<Rightarrow> (Ok (), (st_put p s)\<lparr>st_connected := True\<rparr>))"

definition dp_Disconnect ::
  "('q, 'cfg, 'pool, 'tx, 'w) pgdrv \<Rightarrow> ('pool, 'w) pg_store \<Rightarrow> unit res \<times> ('pool, 'w) pg_store" where
  "dp_Disconnect D s =
     (if \<not> st_connected s then (Ok (), s)
      else case pg_Disconnect D (st_pair s) of
             (Err err, p) \<Rightarrow> (Err err, st_put p s)
           | (Panic, p) \<Rightarrow> (Panic, st_put p s)
           | (Ok _, p) \<Rightarrow> (Ok (), (st_put p s)\<lparr>st_connected := False\<rparr>))"

definition dp_Ping ::
  "('q, 'cfg, 'pool, 'tx, 'w) pgdrv \<Rightarrow> ('pool, 'w) pg_store \<Rightarrow> unit res \<times> ('pool, 'w) pg_store" where
  "dp_Ping D s =
     (if \<not> st_connected s then dp_Connect D s
      else let (r, p) = pg_Ping D (st_pair s) in (r, st_put p s))"

text \<open>The upsert of \<open>WriteState\<close>, with its suffix.\<close>

definition dp_upsert :: "('t, 'm) protolib \<Rightarrow> durable_state \<Rightarrow> insert_stmt" where
  "dp_upsert L state =
     (let bytea = marshal_bytes L (ds_ResultingState state);
          manifest = full_name L (ds_ResultingState state)
      in sq_OnConflictUpdate [''persistence_id'']
           [''version_number'', ''state_payload'', ''state_manifest'', ''timestamp'', ''shard_number'']
           (sq_Values
             [SText (ds_PersistenceId state), bind_u64 (ds_VersionNumber state), bind_bytes bytea,
              SText manifest, bind_i64 (ds_Timestamp state), bind_u64 (ds_Shard state)]
             (sq_Insert dp_tableName dp_columns)))"

text \<open>The flag, read under the mutex.\<close>

definition dp_isConnected :: "('pool, 'w, 'x) pg_store_scheme \<Rightarrow> bool" where
  "dp_isConnected s = st_connected s"

lemma dp_isConnected_eq [simp]: "dp_isConnected = st_connected"
  by (intro ext) (simp add: dp_isConnected_def)

definition dp_WriteState ::
  "('t, 'm) protolib \<Rightarrow> ('q, 'cfg, 'pool, 'tx, 'w) pgdrv \<Rightarrow> durable_state option \<Rightarrow>
   ('pool, 'w) pg_store \<Rightarrow> unit res \<times> ('pool, 'w) pg_store" where
  "dp_WriteState L D state s =
     (if \<not> dp_isConnected s then (Err (ErrNew ''durable store is not connected''), s)
      else case state of
        None \<Rightarrow> (Ok (), s)
      | Some st \<Rightarrow>
          if st = zero_durable_state then (Ok (), s)
          else case to_sql D (Insert (dp_upsert L st)) of
            Err err \<Rightarrow> (Err (ErrWrap ''unable to build sql insert statement'' err), s)
          | Panic \<Rightarrow> (Panic, s)
          | Ok query \<Rightarrow>
              (case pg_Exec D query (st_pair s) of
                 (Err err, p) \<Rightarrow> (Err (ErrWrap ''failed to record durable state'' err), st_put p s)
               | (Panic, p) \<Rightarrow> (Panic, st_put p s)
               | (Ok _, p) \<Rightarrow> (Ok (), st_put p s)))"

definition dp_select :: "string \<Rightarrow> select_stmt" where
  "dp_select persistenceID =
     sq_Where (CondEq ''persistence_id'' (SText persistenceID)) (sq_Select dp_columns dp_tableName)"

text \<open>\<open>Select\<close> into \<open>new(row)\<close>: with no record the row keeps its zero value.\<close>

definition dp_GetLatestState ::
  "('t, 'm) protolib \<Rightarrow> ('q, 'cfg, 'pool, 'tx, 'w) pgdrv \<Rightarrow> string \<Rightarrow> ('pool, 'w) pg_store \<Rightarrow>
   durable_state option res" where
  "dp_GetLatestState L D persistenceID s =
     (if \<not> dp_isConnected s then Err (ErrNew ''durable store is not connected'')
      else case to_sql D (Select (dp_select persistenceID)) of
        Err err \<Rightarrow> Err (ErrWrap ''failed to build the select sql statement'' err)
      | Panic \<Rightarrow> Panic
      | Ok query \<Rightarrow>
          (case bind_res (pg_Select D query (st_pair s))
                  (\<lambda>x. case x of None \<Rightarrow> Ok zero_state_row | Some r \<Rightarrow> scan_state_row r) of
             Err err \<Rightarrow> Err (ErrWrap ''failed to fetch the latest event from the database'' err)
           | Panic \<Rightarrow> Panic
           | Ok row \<Rightarrow>
               if sr_PersistenceID row = '''' then Ok None
               else bind_res (ToDurableState L row) (\<lambda>d. Ok (Some d))))"

section \<open>Lifecycle\<close>

lemma dp_store: "dp_Connect = store_Connect" "dp_Disconnect = store_Disconnect" "dp_Ping = store_Ping"
  by (simp_all add: fun_eq_iff dp_Connect_def dp_Disconnect_def dp_Ping_def store_defs)

interpretation dp_life: lifecycle "\<lambda>_. True" st_connected dp_Connect dp_Disconnect dp_Ping
  unfolding dp_store by (rule store_life.lifecycle_axioms)

section \<open>The StateStore contract\<close>

text \<open>The environment: the protobuf runtime, and the driver with what its contract speaks of.\<close>

type_synonym ('t, 'm, 'q, 'cfg, 'pool, 'tx, 'w) dpenv =
  "('t, 'm) protolib \<times> ('q, 'cfg, 'pool, 'tx, 'w) pgenv"

definition dp_rely :: "('t, 'm, 'q, 'cfg, 'pool, 'tx, 'w) dpenv \<Rightarrow> bool" where
  "dp_rely env \<longleftrightarrow> proto_contract (fst env) \<and> pgenv_ok (snd env) \<and>
     gh_pk (snd (snd env)) ''states_store'' = [''persistence_id'']"

definition dp_inv :: "('t, 'm, 'q, 'cfg, 'pool, 'tx, 'w) dpenv \<Rightarrow> ('pool, 'w) pg_store \<Rightarrow> bool" where
  "dp_inv env s \<longleftrightarrow> pg_ready (snd env) (st_pair s)"

definition dp_view ::
  "('t, 'm, 'q, 'cfg, 'pool, 'tx, 'w) dpenv \<Rightarrow> ('pool, 'w) pg_store \<Rightarrow> string \<Rightarrow> durable_state option" where
  "dp_view env s = state_view scan_state_row (fst env) (pg_tables (snd env) (st_pair s) ''states_store'')"

lemma dp_upsert_fields:
  "ins_into (dp_upsert L d) = ''states_store''"
  "ins_conflict (dp_upsert L d) = Some ([''persistence_id''], state_updated)"
  "ins_columns (dp_upsert L d) = state_columns"
  "ins_values (dp_upsert L d) = [state_values L d]"
  by (simp_all add: dp_upsert_def sq_defs dp_tableName_def dp_columns_def state_columns_def
      state_updated_def state_values_def Let_def)

lemma dp_select_fields:
  "sel_from (dp_select p) = ''states_store''" "sel_columns (dp_select p) = state_columns"
  "\<not> sel_distinct (dp_select p)" "sel_limit (dp_select p) = None"
  "matches coll (sel_where (dp_select p)) = (\<lambda>r. map r [''persistence_id''] = [SText p])"
  by (simp_all add: dp_select_def sq_defs dp_tableName_def dp_columns_def state_columns_def
      matches_def fun_eq_iff)

lemma dp_WriteState_cases:
  assumes "dp_WriteState L D (Some d) s = (r, s')" and "sql_storable L d"
  obtains (kept) "s' = s" "r \<noteq> Ok ()"
    | (exec) q r1 p where "to_sql D (Insert (dp_upsert L d)) = Ok q" "pg_Exec D q (st_pair s) = (r1, p)"
        "s' = st_put p s" "r = Ok () \<longleftrightarrow> r1 = Ok ()"
proof -
  have nz: "d \<noteq> zero_durable_state" using assms(2) by (auto simp: sql_storable_def zero_durable_state_def)
  show ?thesis
  proof (cases "st_connected s")
    case True
    then show ?thesis
    proof (cases "to_sql D (Insert (dp_upsert L d))")
      case (Ok q)
      obtain r1 p where e: "pg_Exec D q (st_pair s) = (r1, p)" by (cases "pg_Exec D q (st_pair s)")
      then have "s' = st_put p s" "r = Ok () \<longleftrightarrow> r1 = Ok ()"
        using assms(1) nz True Ok by (auto simp: dp_WriteState_def split: res.splits)
      then show ?thesis using exec Ok e by blast
    qed (use assms(1) nz in \<open>auto simp: dp_WriteState_def intro!: kept\<close>)
  qed (use assms(1) in \<open>auto simp: dp_WriteState_def intro!: kept\<close>)
qed

lemma dp_upsert_view:
  assumes "dp_rely env" "dp_inv env s" "sql_storable (fst env) d"
    and "pg_tables (snd env) p = exec_stmt coll (Insert (dp_upsert (fst env) d)) (pg_tables (snd env) (st_pair s))"
  shows "dp_view env (st_put p s) = (dp_view env s)(ds_PersistenceId d \<mapsto> d)"
proof -
  have "keyed [''persistence_id''] (pg_tables (snd env) (st_pair s) ''states_store'')"
    using pgdb.pk_keyed [of "snd env" "st_pair s" "''states_store''"] assms(1,2)
    by (simp add: dp_rely_def dp_inv_def)
  moreover have "pg_tables (snd env) p ''states_store'' =
      insert_row (Some ([''persistence_id''], state_updated))
        (row_of state_columns (state_values (fst env) d)) (pg_tables (snd env) (st_pair s) ''states_store'')"
    by (simp add: assms(4) dp_upsert_fields)
  moreover have "proto_contract (fst env)" using assms(1) by (simp add: dp_rely_def)
  ultimately show ?thesis using assms(3)
    by (simp add: dp_view_def state_view_insert_row [OF scan_state_row_good])
qed

lemma dp_get_view:
  assumes "dp_rely env" "dp_inv env s" "p \<noteq> []"
    and "dp_GetLatestState (fst env) (fst (snd env)) p s = Ok x"
  shows "x = dp_view env s p"
proof -
  let ?T = "pg_tables (snd env) (st_pair s) ''states_store''"
  let ?D = "fst (snd env)"
  have conn: "st_connected s"
    using assms(4) by (auto simp: dp_GetLatestState_def split: if_splits)
  have ok: "pgenv_ok (snd env)" "pg_ready (snd env) (st_pair s)"
    and pk: "gh_pk (snd (snd env)) ''states_store'' = [''persistence_id'']"
    using assms(1,2) by (simp_all add: dp_rely_def dp_inv_def)
  have keyed: "keyed [''persistence_id''] ?T"
    using pgdb.pk_keyed [OF ok, of "''states_store''"] pk by simp
  obtain q where q: "to_sql ?D (Select (dp_select p)) = Ok q"
    using assms(4) conn by (cases "to_sql ?D (Select (dp_select p))") (auto simp: dp_GetLatestState_def)
  obtain y where y: "pg_Select ?D q (st_pair s) = Ok y"
    using assms(4) conn q by (cases "pg_Select ?D q (st_pair s)") (auto simp: dp_GetLatestState_def)
  have "pg_renders (snd env) (Select (dp_select p)) q" using q by (simp add: pg_renders_def)
  from pgdb.select_by_key [OF ok this y, of "[''persistence_id'']"] pk
  have found: "y = map_option (project state_columns) (find_row [''persistence_id''] [SText p] ?T)"
    by (simp add: dp_select_fields)
  show ?thesis
  proof (cases "find_row [''persistence_id''] [SText p] ?T")
    case None
    then show ?thesis using assms(4) conn q y found
      by (simp add: dp_GetLatestState_def dp_view_def state_view_def zero_state_row_def)
  next
    case (Some r)
    then obtain z where z: "scan_state_row r = Ok z"
      using assms(4) conn q y found by (cases "scan_state_row r") (auto simp: dp_GetLatestState_def)
    have pid: "sr_PersistenceID z = p" by (rule state_view_found(1) [OF keyed assms(3) Some z])
    then obtain d where d: "ToDurableState (fst env) z = Ok d" and x: "x = Some d"
      using assms(3,4) conn q y found Some z
      by (cases "ToDurableState (fst env) z") (auto simp: dp_GetLatestState_def)
    then show ?thesis using state_view_found(2) [OF keyed assms(3) Some z d] by (simp add: dp_view_def)
  qed
qed

interpretation dp: guarded_state_store dp_rely dp_inv "\<lambda>_ _. True" "\<lambda>env. sql_storable (fst env)" "\<lambda>d. d" dp_view
  "\<lambda>env. dp_WriteState (fst env) (fst (snd env))" "\<lambda>env. dp_GetLatestState (fst env) (fst (snd env))"
  st_connected
proof unfold_locales
  fix env :: "('t, 'm, 'q, 'cfg, 'pool, 'tx, 'w) dpenv" and s d s' r
  assume rely: "dp_rely env" and inv: "dp_inv env s" and st: "sql_storable (fst env) d"
  then have ok: "pgenv_ok (snd env)" "pg_ready (snd env) (st_pair s)" by (simp_all add: dp_rely_def dp_inv_def)
  let ?v = "(dp_view env s)(ds_PersistenceId d \<mapsto> d)"
  have all: "dp_inv env s' \<and> (r = Ok () \<longrightarrow> dp_view env s' = ?v) \<and>
      (dp_view env s' = dp_view env s \<or> dp_view env s' = ?v)"
    if "dp_WriteState (fst env) (fst (snd env)) (Some d) s = (r, s')" for r s'
    using that st
  proof (cases rule: dp_WriteState_cases)
    case kept
    then show ?thesis using inv by simp
  next
    case (exec q r1 p)
    then have q: "pg_renders (snd env) (Insert (dp_upsert (fst env) d)) q" by (simp add: pg_renders_def)
    note facts = pg_Exec_contract [OF ok q exec(2)]
    have same: "dp_view env (st_put p s) = dp_view env s"
      if "pg_tables (snd env) p = pg_tables (snd env) (st_pair s)"
      using that by (simp add: dp_view_def)
    have upd: "dp_view env (st_put p s) = ?v"
      if "pg_tables (snd env) p = exec_stmt (gh_coll (snd (snd env))) (Insert (dp_upsert (fst env) d))
            (pg_tables (snd env) (st_pair s))"
      by (rule dp_upsert_view [OF rely inv st that])
    have "dp_inv env s'" using facts(1) exec(3) by (simp add: dp_inv_def)
    moreover have "r = Ok () \<longrightarrow> dp_view env s' = ?v" using facts(2) upd exec(3,4) by blast
    moreover have "dp_view env s' = dp_view env s \<or> dp_view env s' = ?v"
      using facts(3) same upd exec(3) by blast
    ultimately show ?thesis by blast
  qed
  show "dp_view env s' = ?v" if "dp_WriteState (fst env) (fst (snd env)) (Some d) s = (Ok (), s')"
    using all [OF that] by simp
  show "dp_view env s' = dp_view env s \<or> dp_view env s' = ?v"
    if "dp_WriteState (fst env) (fst (snd env)) (Some d) s = (r, s')"
    using all [OF that] by blast
  show "dp_inv env s'" if "dp_WriteState (fst env) (fst (snd env)) (Some d) s = (r, s')"
    using all [OF that] by blast
next
  fix env :: "('t, 'm, 'q, 'cfg, 'pool, 'tx, 'w) dpenv" and s p x
  assume "dp_rely env" "dp_inv env s" "p \<noteq> []" "dp_GetLatestState (fst env) (fst (snd env)) p s = Ok x"
  then show "x = dp_view env s p" by (rule dp_get_view)
qed (simp_all add: dp_WriteState_def dp_GetLatestState_def durable_not_connected_def)

end
