(* ===== verification/DurableCassandra.thy ===== *)
theory DurableCassandra
  imports StateRow
begin

text \<open>
  \<open>durablestore/cassandra\<close>: the layer of \<open>cassandra.go\<close> over a gocql session, and the durable
  store of \<open>durable_store.go\<close>. The driver is third-party code: a record of functions over an
  abstract world, with the contract the store relies on. Unlike the other connected stores,
  \<open>WriteState\<close> and \<open>GetLatestState\<close> here do not look at the connection flag, so on a store
  that was never connected they use a nil session.
\<close>

section \<open>The gocql driver\<close>

record cas_config =
  cc_Cluster :: string
  cc_Keyspace :: string
  cc_Consistency :: "16 word"

text \<open>The fields of \<open>gocql.ClusterConfig\<close> that the code sets, over the defaults of \<open>NewCluster\<close>.\<close>

record 'cl cluster_config =
  cl_defaults :: 'cl
  cl_Keyspace :: string
  cl_Consistency :: "16 word"

text \<open>
  \<open>query_exec\<close> and \<open>query_scan\<close> are \<open>Query(text, values).Consistency(c)\<close> followed by
  \<open>Exec()\<close> or by \<open>Scan\<close>, the latter up to the row it fetches; \<open>is_ErrNotFound\<close> is
  \<open>errors.Is(err, gocql.ErrNotFound)\<close>. A method call on a nil session panics.
\<close>

record ('cl, 'sess, 'w) gocql =
  NewCluster :: "string \<Rightarrow> 'cl"
  CreateSession :: "'cl cluster_config \<Rightarrow> 'w \<Rightarrow> 'sess res \<times> 'w"
  CloseSession :: "'sess \<Rightarrow> 'w \<Rightarrow> 'w"
  query_exec :: "'sess \<Rightarrow> 16 word \<Rightarrow> string \<Rightarrow> sqlval list \<Rightarrow> 'w \<Rightarrow> unit res \<times> 'w"
  query_scan :: "'sess \<Rightarrow> 16 word \<Rightarrow> string \<Rightarrow> sqlval list \<Rightarrow> 'w \<Rightarrow> row res"
  is_ErrNotFound :: "goerr \<Rightarrow> bool"

text \<open>Scanning a row into the struct: a NULL leaves the zero value of the variable.\<close>

definition null_to :: "'a \<Rightarrow> (sqlval \<Rightarrow> 'a res) \<Rightarrow> sqlval \<Rightarrow> 'a res" where
  "null_to z f v = (if v = SNull then Ok z else f v)"

definition scan_cql_row :: "row \<Rightarrow> state_row res" where
  "scan_cql_row r =
     bind_res (null_to '''' scan_string (r ''persistence_id'')) (\<lambda>pid.
     bind_res (null_to 0 scan_u64 (r ''version_number'')) (\<lambda>ver.
     bind_res (scan_bytes (r ''state_payload'')) (\<lambda>payload.
     bind_res (null_to '''' scan_string (r ''state_manifest'')) (\<lambda>manifest.
     bind_res (null_to 0 scan_i64 (r ''timestamp'')) (\<lambda>ts.
     bind_res (null_to 0 scan_u64 (r ''shard_number'')) (\<lambda>shard.
       Ok \<lparr>sr_PersistenceID = pid, sr_VersionNumber = ver, sr_StatePayload = payload,
           sr_StateManifest = manifest, sr_Timestamp = ts, sr_ShardNumber = shard\<rparr>))))))"

section \<open>cassandra.go\<close>

record ('cl, 'sess) cassandra =
  cas_cluster :: "'cl cluster_config"
  cas_session :: "'sess option"

definition newCassandra :: "('cl, 'sess, 'w) gocql \<Rightarrow> cas_config \<Rightarrow> ('cl, 'sess) cassandra" where
  "newCassandra D config =
     \<lparr>cas_cluster = \<lparr>cl_defaults = NewCluster D (cc_Cluster config), cl_Keyspace = cc_Keyspace config,
                     cl_Consistency = cc_Consistency config\<rparr>,
      cas_session = None\<rparr>"

definition cas_Connect ::
  "('cl, 'sess, 'w) gocql \<Rightarrow> ('cl, 'sess) cassandra \<times> 'w \<Rightarrow> unit res \<times> ('cl, 'sess) cassandra \<times> 'w" where
  "cas_Connect D s =
     (case s of (c, w) \<Rightarrow>
        (case CreateSession D (cas_cluster c) w of
           (Err err, w') \<Rightarrow> (Err err, (c, w'))
         | (Panic, w') \<Rightarrow> (Panic, (c, w'))
         | (Ok session, w') \<Rightarrow> (Ok (), (c\<lparr>cas_session := Some session\<rparr>, w'))))"

definition cas_Disconnect ::
  "('cl, 'sess, 'w) gocql \<Rightarrow> ('cl, 'sess) cassandra \<times> 'w \<Rightarrow> unit res \<times> ('cl, 'sess) cassandra \<times> 'w" where
  "cas_Disconnect D s =
     (case s of (c, w) \<Rightarrow>
        (case cas_session c of
           None \<Rightarrow> (Panic, (c, w))
         | Some session \<Rightarrow> (Ok (), (c, CloseSession D session w))))"

definition cas_insert_cql :: string where
  "cas_insert_cql = ''INSERT INTO states_store (persistence_id, version_number, state_payload, state_manifest, timestamp, shard_number) VALUES (?, ?, ?, ?, ?, ?)''"

definition cas_select_cql :: string where
  "cas_select_cql = ''SELECT persistence_id, version_number, state_payload, state_manifest, timestamp, shard_number FROM states_store WHERE persistence_id = ?''"

definition cas_WriteState ::
  "('cl, 'sess, 'w) gocql \<Rightarrow> string \<Rightarrow> u64 \<Rightarrow> go_bytes \<Rightarrow> string \<Rightarrow> i64 \<Rightarrow> u64 \<Rightarrow>
   ('cl, 'sess) cassandra \<times> 'w \<Rightarrow> unit res \<times> ('cl, 'sess) cassandra \<times> 'w" where
  "cas_WriteState D persistenceID versionNumber bytea manifest ts shardNumber s =
     (case s of (c, w) \<Rightarrow>
        (case cas_session c of
           None \<Rightarrow> (Panic, (c, w))
         | Some session \<Rightarrow>
             (case query_exec D session (cl_Consistency (cas_cluster c)) cas_insert_cql
                     [SText persistenceID, bind_u64 versionNumber, bind_bytes bytea, SText manifest,
                      bind_i64 ts, bind_u64 shardNumber] w of
                (Err err, w') \<Rightarrow> (Err (ErrWrap ''failed to write state to cassandra'' err), (c, w'))
              | (Panic, w') \<Rightarrow> (Panic, (c, w'))
              | (Ok _, w') \<Rightarrow> (Ok (), (c, w')))))"

definition cas_GetLatestState ::
  "('cl, 'sess, 'w) gocql \<Rightarrow> string \<Rightarrow> ('cl, 'sess) cassandra \<times> 'w \<Rightarrow> state_row option res" where
  "cas_GetLatestState D persistenceID s =
     (case s of (c, w) \<Rightarrow>
        (case cas_session c of
           None \<Rightarrow> Panic
         | Some session \<Rightarrow>
             (case bind_res (query_scan D session (cl_Consistency (cas_cluster c)) cas_select_cql
                              [SText persistenceID] w) scan_cql_row of
                Err err \<Rightarrow>
                  if is_ErrNotFound D err then Ok None
                  else Err (ErrWrap ''failed to read latest state from cassandra'' err)
              | Panic \<Rightarrow> Panic
              | Ok state \<Rightarrow> Ok (Some state))))"

section \<open>row.go\<close>

definition cas_toProto :: "('t, 'm) protolib \<Rightarrow> string \<Rightarrow> go_bytes \<Rightarrow> any res" where
  "cas_toProto L manifest bytea =
     (case find_message L manifest of
        Err err \<Rightarrow> Err err
      | Panic \<Rightarrow> Panic
      | Ok mt \<Rightarrow>
          (case unmarshal L mt bytea of
             Err err \<Rightarrow> Err err
           | Panic \<Rightarrow> Panic
           | Ok pm \<Rightarrow>
               (case pm of
                  MsgAny cast \<Rightarrow> Ok cast
                | MsgOther _ \<Rightarrow> Err (ErrNew (''failed to unpack message='' @ manifest)))))"

lemma cas_toProto_eq [simp]: "cas_toProto = toProto"
  by (intro ext) (simp add: cas_toProto_def toProto_def)

definition cas_ToDurableState :: "('t, 'm) protolib \<Rightarrow> state_row \<Rightarrow> durable_state res" where
  "cas_ToDurableState L x =
     (case cas_toProto L (sr_StateManifest x) (sr_StatePayload x) of
        Err err \<Rightarrow> Err (ErrWrap ''failed to unmarshal the durable state'' err)
      | Panic \<Rightarrow> Panic
      | Ok state \<Rightarrow>
          Ok \<lparr>ds_PersistenceId = sr_PersistenceID x, ds_VersionNumber = sr_VersionNumber x,
              ds_ResultingState = Some state, ds_Timestamp = sr_Timestamp x, ds_Shard = sr_ShardNumber x\<rparr>)"

lemma cas_ToDurableState_eq [simp]: "cas_ToDurableState = ToDurableState"
  by (intro ext) (simp add: cas_ToDurableState_def ToDurableState_def)

section \<open>durable_store.go\<close>

record ('cl, 'sess, 'w) durable_cas =
  dc_cluster :: "('cl, 'sess) cassandra"
  dc_connected :: bool
  dc_world :: 'w

definition cas_NewDurableStore :: "('cl, 'sess, 'w) gocql \<Rightarrow> cas_config \<Rightarrow> 'w \<Rightarrow> ('cl, 'sess, 'w) durable_cas" where
  "cas_NewDurableStore D config w =
     \<lparr>dc_cluster = newCassandra D config, dc_connected = False, dc_world = w\<rparr>"

definition dc_pair :: "('cl, 'sess, 'w) durable_cas \<Rightarrow> ('cl, 'sess) cassandra \<times> 'w" where
  "dc_pair s = (dc_cluster s, dc_world s)"

definition dc_put ::
  "('cl, 'sess) cassandra \<times> 'w \<Rightarrow> ('cl, 'sess, 'w) durable_cas \<Rightarrow> ('cl, 'sess, 'w) durable_cas" where
  "dc_put p s = s\<lparr>dc_cluster := fst p, dc_world := snd p\<rparr>"

definition dc_Connect ::
  "('cl, 'sess, 'w) gocql \<Rightarrow> ('cl, 'sess, 'w) durable_cas \<Rightarrow> unit res \<times> ('cl, 'sess, 'w) durable_cas" where
  "dc_Connect D s =
     (if dc_connected s then (Ok (), s)
      else case cas_Connect D (dc_pair s) of
             (Err err, p) \<Rightarrow> (Err err, dc_put p s)
           | (Panic, p) \<Rightarrow> (Panic, dc_put p s)
           | (Ok _, p) \<Rightarrow> (Ok (), (dc_put p s)\<lparr>dc_connected := True\<rparr>))"

definition dc_Disconnect ::
  "('cl, 'sess, 'w) gocql \<Rightarrow> ('cl, 'sess, 'w) durable_cas \<Rightarrow> unit res \<times> ('cl, 'sess, 'w) durable_cas" where
  "dc_Disconnect D s =
     (if \<not> dc_connected s then (Ok (), s)
      else case cas_Disconnect D (dc_pair s) of
             (Err err, p) \<Rightarrow> (Err err, dc_put p s)
           | (Panic, p) \<Rightarrow> (Panic, dc_put p s)
           | (Ok _, p) \<Rightarrow> (Ok (), (dc_put p s)\<lparr>dc_connected := False\<rparr>))"

definition dc_Ping ::
  "('cl, 'sess, 'w) gocql \<Rightarrow> ('cl, 'sess, 'w) durable_cas \<Rightarrow> unit res \<times> ('cl, 'sess, 'w) durable_cas" where
  "dc_Ping D s = (if \<not> dc_connected s then dc_Connect D s else (Ok (), s))"

definition dc_WriteState ::
  "('t, 'm) protolib \<Rightarrow> ('cl, 'sess, 'w) gocql \<Rightarrow> durable_state option \<Rightarrow> ('cl, 'sess, 'w) durable_cas \<Rightarrow>
   unit res \<times> ('cl, 'sess, 'w) durable_cas" where
  "dc_WriteState L D state s =
     (let st = or_zero zero_durable_state state in
      case marshal L (ds_ResultingState st) of
        (_, Some err) \<Rightarrow> (Err err, s)
      | (bytea, None) \<Rightarrow>
          let manifest = full_name L (ds_ResultingState st);
              (r, p) = cas_WriteState D (ds_PersistenceId st) (ds_VersionNumber st) bytea manifest
                         (ds_Timestamp st) (ds_Shard st) (dc_pair s)
          in (r, dc_put p s))"

definition dc_GetLatestState ::
  "('t, 'm) protolib \<Rightarrow> ('cl, 'sess, 'w) gocql \<Rightarrow> string \<Rightarrow> ('cl, 'sess, 'w) durable_cas \<Rightarrow>
   durable_state option res" where
  "dc_GetLatestState L D persistenceID s =
     (case cas_GetLatestState D persistenceID (dc_pair s) of
        Err err \<Rightarrow> Err err
      | Panic \<Rightarrow> Panic
      | Ok None \<Rightarrow> Ok None
      | Ok (Some result) \<Rightarrow> bind_res (cas_ToDurableState L result) (\<lambda>d. Ok (Some d)))"

section \<open>Lifecycle\<close>

lemma dc_connected_put [simp]: "dc_connected (dc_put p s) = dc_connected s"
  by (simp add: dc_put_def)

lemma dc_pair_put [simp]: "dc_pair (dc_put p s) = p"
  by (simp add: dc_pair_def dc_put_def)

interpretation dc_life: lifecycle "\<lambda>_. True" dc_connected dc_Connect dc_Disconnect dc_Ping
proof unfold_locales
  fix D :: "('cl, 'sess, 'w) gocql" and s :: "('cl, 'sess, 'w) durable_cas" and r s'
  obtain r1 p1 where c: "cas_Connect D (dc_pair s) = (r1, p1)" by (cases "cas_Connect D (dc_pair s)")
  show "dc_connected s'" if "dc_Connect D s = (Ok (), s')"
    using that c by (cases r1) (auto simp: dc_Connect_def split: if_splits)
  show "\<not> dc_connected s'" if "dc_Connect D s = (r, s')" "r \<noteq> Ok ()"
    using that c by (cases r1) (auto simp: dc_Connect_def split: if_splits)
  obtain r2 p2 where d: "cas_Disconnect D (dc_pair s) = (r2, p2)" by (cases "cas_Disconnect D (dc_pair s)")
  show "\<not> dc_connected s'" if "dc_Disconnect D s = (Ok (), s')"
    using that d by (cases r2) (auto simp: dc_Disconnect_def split: if_splits)
  show "dc_connected s'" if "dc_connected s" "dc_Ping D s = (r, s')"
    using that by (simp add: dc_Ping_def)
qed (simp_all add: dc_Connect_def dc_Disconnect_def dc_Ping_def)

text \<open>
  A connected store has a session, in every history of lifecycle calls: the panic of
  \<open>cas_Disconnect\<close> is out of reach.
\<close>

definition dc_session_inv :: "('cl, 'sess, 'w) durable_cas \<Rightarrow> bool" where
  "dc_session_inv s \<longleftrightarrow> (dc_connected s \<longrightarrow> cas_session (dc_cluster s) \<noteq> None)"

lemma dc_session_inv_New: "dc_session_inv (cas_NewDurableStore D config w)"
  by (simp add: dc_session_inv_def cas_NewDurableStore_def)

lemma dc_session_inv_Connect: "dc_session_inv s \<Longrightarrow> dc_session_inv (snd (dc_Connect D s))"
  by (auto simp: dc_session_inv_def dc_Connect_def cas_Connect_def dc_put_def dc_pair_def
      split: prod.splits res.splits if_splits)

lemma dc_session_inv_Disconnect: "dc_session_inv s \<Longrightarrow> dc_session_inv (snd (dc_Disconnect D s))"
  by (auto simp: dc_session_inv_def dc_Disconnect_def cas_Disconnect_def dc_put_def dc_pair_def
      split: option.splits if_splits)

lemma dc_session_inv_Ping: "dc_session_inv s \<Longrightarrow> dc_session_inv (snd (dc_Ping D s))"
  by (simp add: dc_Ping_def dc_session_inv_Connect)

lemma dc_Disconnect_Ok: "dc_session_inv s \<Longrightarrow> fst (dc_Disconnect D s) = Ok ()"
  by (auto simp: dc_session_inv_def dc_Disconnect_def cas_Disconnect_def dc_pair_def split: option.splits)

section \<open>The StateStore contract\<close>

text \<open>
  What the contract speaks of: the rows of \<open>states_store\<close>, keyed by the persistence id as in
  \<open>resources/states_store.sql\<close>, and the worlds in which a read at the configured consistency
  sees the latest write. An INSERT of CQL replaces the row of its key. The contract says
  nothing of the other statements.
\<close>

record 'w casghost =
  cg_rows :: "'w \<Rightarrow> row multiset"
  cg_fresh :: "'w \<Rightarrow> bool"
  cg_valid :: "'w \<Rightarrow> bool"

definition cas_apply :: "sqlval list \<Rightarrow> row multiset \<Rightarrow> row multiset" where
  "cas_apply vs = insert_row (Some ([''persistence_id''], state_updated)) (row_of state_columns vs)"

definition cas_contract :: "('cl, 'sess, 'w) gocql \<Rightarrow> 'w casghost \<Rightarrow> bool" where
  "cas_contract D G \<longleftrightarrow>
     (\<forall>w. cg_valid G w \<longrightarrow> keyed [''persistence_id''] (cg_rows G w)) \<and>
     (\<forall>se cl vs w r w'. cg_valid G w \<and> length vs = 6 \<and> query_exec D se cl cas_insert_cql vs w = (r, w') \<longrightarrow>
        r \<noteq> Panic \<and> cg_valid G w' \<and>
        (r = Ok () \<longrightarrow> cg_rows G w' = cas_apply vs (cg_rows G w)) \<and>
        (r \<noteq> Ok () \<longrightarrow> cg_rows G w' = cg_rows G w \<or> cg_rows G w' = cas_apply vs (cg_rows G w))) \<and>
     (\<forall>se cl p w. cg_valid G w \<longrightarrow>
        query_scan D se cl cas_select_cql [SText p] w \<noteq> Panic \<and>
        (cg_fresh G w \<longrightarrow>
          (\<forall>r. query_scan D se cl cas_select_cql [SText p] w = Ok r \<longrightarrow>
             map_option (project state_columns) (find_row [''persistence_id''] [SText p] (cg_rows G w)) = Some r) \<and>
          (\<forall>e. query_scan D se cl cas_select_cql [SText p] w = Err e \<and> is_ErrNotFound D e \<longrightarrow>
             find_row [''persistence_id''] [SText p] (cg_rows G w) = None))) \<and>
     \<not> is_ErrNotFound D scan_error"

declare cas_contract_def [contract_defs]

type_synonym ('t, 'm, 'cl, 'sess, 'w) dcenv =
  "('t, 'm) protolib \<times> ('cl, 'sess, 'w) gocql \<times> 'w casghost"

definition dc_rely :: "('t, 'm, 'cl, 'sess, 'w) dcenv \<Rightarrow> bool" where
  "dc_rely env \<longleftrightarrow> proto_contract (fst env) \<and> cas_contract (fst (snd env)) (snd (snd env))"

definition dc_inv :: "('t, 'm, 'cl, 'sess, 'w) dcenv \<Rightarrow> ('cl, 'sess, 'w) durable_cas \<Rightarrow> bool" where
  "dc_inv env s \<longleftrightarrow> cg_valid (snd (snd env)) (dc_world s)"

definition dc_fresh :: "('t, 'm, 'cl, 'sess, 'w) dcenv \<Rightarrow> ('cl, 'sess, 'w) durable_cas \<Rightarrow> bool" where
  "dc_fresh env s \<longleftrightarrow> cg_fresh (snd (snd env)) (dc_world s)"

definition dc_view ::
  "('t, 'm, 'cl, 'sess, 'w) dcenv \<Rightarrow> ('cl, 'sess, 'w) durable_cas \<Rightarrow> string \<Rightarrow> durable_state option" where
  "dc_view env s = state_view scan_cql_row (fst env) (cg_rows (snd (snd env)) (dc_world s))"

lemma null_to_bind [simp]:
  "null_to z f (bind_u64 n) = f (bind_u64 n)" "null_to z f (bind_i64 n) = f (bind_i64 n)"
  "null_to z f (SText t) = f (SText t)"
  by (simp_all add: null_to_def bind_u64_def bind_i64_def)

lemma scan_cql_row_good: "good_scan scan_cql_row"
proof -
  have "scan_cql_row r = scan_cql_row r'" if "\<forall>c \<in> set state_columns. r c = r' c" for r r'
    using that by (simp add: scan_cql_row_def state_columns_def)
  then show ?thesis unfolding good_scan_def
    by (simp add: scan_cql_row_def row_of_def state_columns_def)
qed

lemma scan_cql_row_project: "scan_cql_row (project state_columns r) = scan_cql_row r"
  using scan_cql_row_good by (simp add: good_scan_def project_def)

lemma scan_Err:
  "scan_u64 v = Err e \<Longrightarrow> e = scan_error" "scan_i64 v = Err e \<Longrightarrow> e = scan_error"
  "scan_string v = Err e \<Longrightarrow> e = scan_error" "scan_bytes v = Err e \<Longrightarrow> e = scan_error"
  by (cases v; auto split: if_splits)+

lemma null_to_Err: "null_to z f v = Err e \<Longrightarrow> f v = Err e"
  by (simp add: null_to_def split: if_splits)

lemma scan_cql_row_Err: "scan_cql_row r = Err e \<Longrightarrow> e = scan_error"
  unfolding scan_cql_row_def bind_res_Err_iff
  by (elim disjE exE conjE) (blast dest: null_to_Err scan_Err | simp)+

lemma dc_WriteState_all:
  assumes "dc_rely env" "dc_inv env s" "sql_storable (fst env) d"
    and "dc_WriteState (fst env) (fst (snd env)) (Some d) s = (r, s')"
  shows "dc_inv env s'" and "r = Ok () \<Longrightarrow> dc_view env s' = (dc_view env s)(ds_PersistenceId d \<mapsto> d)"
    and "dc_view env s' = dc_view env s \<or> dc_view env s' = (dc_view env s)(ds_PersistenceId d \<mapsto> d)"
proof -
  obtain L D G where env: "env = (L, D, G)" by (cases env)
  obtain c w where s: "dc_pair s = (c, w)" by (cases "dc_pair s")
  then have w: "dc_world s = w" by (simp add: dc_pair_def)
  let ?vs = "state_values L d"
  have m: "marshal L (ds_ResultingState d) = (marshal_bytes L (ds_ResultingState d), None)"
    using assms(3) by (metis env fst_conv sql_storable_def marshals_def marshal_bytes_def prod.collapse)
  have upd: "state_view scan_cql_row L (cas_apply ?vs (cg_rows G w)) =
      (state_view scan_cql_row L (cg_rows G w))(ds_PersistenceId d \<mapsto> d)"
    unfolding cas_apply_def
    by (rule state_view_insert_row [OF scan_cql_row_good])
      (use assms(1-3) in \<open>auto simp: env w dc_rely_def dc_inv_def contract_defs\<close>)
  have "dc_inv env s' \<and> (r = Ok () \<longrightarrow> dc_view env s' = (dc_view env s)(ds_PersistenceId d \<mapsto> d)) \<and>
      (dc_view env s' = dc_view env s \<or> dc_view env s' = (dc_view env s)(ds_PersistenceId d \<mapsto> d))"
  proof (cases "cas_session c")
    case None
    then show ?thesis using assms(2,4) m
      by (auto simp: env s w dc_WriteState_def cas_WriteState_def Let_def dc_view_def dc_inv_def dc_put_def)
  next
    case (Some se)
    obtain r1 w1 where q: "query_exec D se (cl_Consistency (cas_cluster c)) cas_insert_cql ?vs w = (r1, w1)"
      by (cases "query_exec D se (cl_Consistency (cas_cluster c)) cas_insert_cql ?vs w")
    then have s': "dc_world s' = w1" and r: "r = Ok () \<longleftrightarrow> r1 = Ok ()"
      using assms(4) m Some
      by (auto simp: env s dc_WriteState_def cas_WriteState_def Let_def dc_put_def state_values_def split: res.splits)
    have len: "length ?vs = 6" by (simp add: state_values_def)
    have "cas_contract D G" "cg_valid G w" using assms(1,2) by (simp_all add: env w dc_rely_def dc_inv_def)
    then have "cg_valid G w1"
      and "r1 = Ok () \<longrightarrow> cg_rows G w1 = cas_apply ?vs (cg_rows G w)"
      and "cg_rows G w1 = cg_rows G w \<or> cg_rows G w1 = cas_apply ?vs (cg_rows G w)"
      using q len unfolding cas_contract_def by blast+
    then show ?thesis using s' r upd by (auto simp: env w dc_view_def dc_inv_def)
  qed
  then show "dc_inv env s'" and "r = Ok () \<Longrightarrow> dc_view env s' = (dc_view env s)(ds_PersistenceId d \<mapsto> d)"
    and "dc_view env s' = dc_view env s \<or> dc_view env s' = (dc_view env s)(ds_PersistenceId d \<mapsto> d)"
    by blast+
qed

lemma dc_get_view:
  assumes "dc_rely env" "dc_inv env s" "dc_fresh env s"
    and "dc_GetLatestState (fst env) (fst (snd env)) p s = Ok x"
  shows "x = dc_view env s p"
proof -
  obtain L D G where env: "env = (L, D, G)" by (cases env)
  obtain c w where s: "dc_pair s = (c, w)" by (cases "dc_pair s")
  then have w: "dc_world s = w" by (simp add: dc_pair_def)
  obtain se where se: "cas_session c = Some se"
    using assms(4) by (cases "cas_session c") (auto simp: env s dc_GetLatestState_def cas_GetLatestState_def)
  let ?q = "query_scan D se (cl_Consistency (cas_cluster c)) cas_select_cql [SText p] w"
  let ?f = "find_row [''persistence_id''] [SText p] (cg_rows G w)"
  have C: "cas_contract D G" "cg_valid G w" "cg_fresh G w"
    using assms(1-3) by (simp_all add: env w dc_rely_def dc_inv_def dc_fresh_def)
  have q1: "map_option (project state_columns) ?f = Some r" if "?q = Ok r" for r
    using C that unfolding cas_contract_def by blast
  have q2: "?f = None" if "?q = Err e" "is_ErrNotFound D e" for e
    using C that unfolding cas_contract_def by blast
  have q3: "\<not> is_ErrNotFound D scan_error" using C(1) by (simp add: cas_contract_def)
  show ?thesis
  proof (cases ?q)
    case (Ok r)
    then obtain r0 where r0: "?f = Some r0" "r = project state_columns r0" using q1 by auto
    then obtain z where z: "scan_cql_row r0 = Ok z"
      using assms(4) se Ok q3 scan_cql_row_Err
      by (cases "scan_cql_row r0")
        (auto simp: env s dc_GetLatestState_def cas_GetLatestState_def scan_cql_row_project split: if_splits)
    then show ?thesis using assms(4) se Ok r0
      by (cases "ToDurableState L z")
        (auto simp: env s w dc_GetLatestState_def cas_GetLatestState_def scan_cql_row_project dc_view_def
          state_view_def decode_state_def)
  next
    case (Err e)
    then show ?thesis using assms(4) se q2 [OF Err]
      by (auto simp: env s w dc_GetLatestState_def cas_GetLatestState_def dc_view_def state_view_def split: if_splits)
  next
    case Panic
    then show ?thesis using assms(4) se by (simp add: env s dc_GetLatestState_def cas_GetLatestState_def)
  qed
qed

interpretation dc: state_store dc_rely dc_inv dc_fresh "\<lambda>env. sql_storable (fst env)" "\<lambda>d. d" dc_view
  "\<lambda>env. dc_WriteState (fst env) (fst (snd env))" "\<lambda>env. dc_GetLatestState (fst env) (fst (snd env))"
  by unfold_locales (blast intro: dc_WriteState_all(1,2) dc_get_view dest: dc_WriteState_all(3))+

end
