(* ===== verification/DurableDynamo.thy ===== *)
theory DurableDynamo
  imports StateStore Strconv
begin

text \<open>
  \<open>durablestore/dynamodb\<close>: the layer of \<open>dynamodb.go\<close> over the AWS client, the struct
  \<open>item\<close> with \<open>ToDurableState\<close> of \<open>item.go\<close>, and the store of \<open>durable_store.go\<close>.
  Integers are kept as decimal strings in number attributes. The client is third-party code:
  a record of its two calls with the contract the store relies on.
\<close>

section \<open>The client\<close>

text \<open>An attribute value: a string, a number (its decimal text), a binary, or another kind.\<close>

datatype attr_value = AttrS string | AttrN string | AttrB go_bytes | AttrOther

type_synonym attributes = "string \<rightharpoonup> attr_value"

text \<open>
  \<open>GetItem\<close> returns a pointer to an output whose \<open>Item\<close> may be nil: the outer option is
  the pointer, the inner one the map.
\<close>

record 'w ddb_client =
  PutItem :: "string \<Rightarrow> attributes \<Rightarrow> 'w \<Rightarrow> unit res \<times> 'w"
  GetItem :: "string \<Rightarrow> attributes \<Rightarrow> 'w \<Rightarrow> attributes option option res"

section \<open>item.go\<close>

record item =
  it_PersistenceID :: string
  it_VersionNumber :: u64
  it_StatePayload :: go_bytes
  it_StateManifest :: string
  it_Timestamp :: i64
  it_ShardNumber :: u64

definition dy_toProto :: "('t, 'm) protolib \<Rightarrow> string \<Rightarrow> go_bytes \<Rightarrow> any res" where
  "dy_toProto L manifest bytea =
     (case find_message L manifest of
        Err err \<Rightarrow> Err err
      | Panic \<Rightarrow> Panic
      | Ok mt \<Rightarrow>
          (case unmarshal L mt bytea of
             Err err \<Rightarrow> Err err
           | Panic \<Rightarrow> Panic
           | Ok pm \<Rightarrow>
               (case pm of
                  MsgAny cast \<Rightarrow> Ok cast
                | MsgOther _ \<Rightarrow> Err (ErrNew (''failed to unpack message='' @ manifest)))))"

lemma dy_toProto_eq [simp]: "dy_toProto = toProto"
  by (intro ext) (simp add: dy_toProto_def toProto_def)

text \<open>The version number and the shard number of the item are not copied.\<close>

definition item_ToDurableState :: "('t, 'm) protolib \<Rightarrow> item \<Rightarrow> durable_state res" where
  "item_ToDurableState L x =
     (case dy_toProto L (it_StateManifest x) (it_StatePayload x) of
        Err err \<Rightarrow> Err (ErrWrap ''failed to unmarshal the durable state'' err)
      | Panic \<Rightarrow> Panic
      | Ok state \<Rightarrow>
          Ok (zero_durable_state\<lparr>ds_PersistenceId := it_PersistenceID x, ds_ResultingState := Some state,
                ds_Timestamp := it_Timestamp x\<rparr>))"

section \<open>dynamodb.go\<close>

text \<open>The assertions \<open>element.(*types.AttributeValueMemberN)\<close> and so on: a failed one panics.\<close>

fun as_N :: "attr_value option \<Rightarrow> string res" where
  "as_N (Some (AttrN v)) = Ok v"
| "as_N _ = Panic"

fun as_B :: "attr_value option \<Rightarrow> go_bytes res" where
  "as_B (Some (AttrB v)) = Ok v"
| "as_B _ = Panic"

fun as_S :: "attr_value option \<Rightarrow> string res" where
  "as_S (Some (AttrS v)) = Ok v"
| "as_S _ = Panic"

definition parseDynamoUint64 :: "attr_value option \<Rightarrow> u64 res" where
  "parseDynamoUint64 element = bind_res (as_N element) (\<lambda>v. Ok (fst (ParseUint v)))"

definition parseDynamoInt64 :: "attr_value option \<Rightarrow> i64 res" where
  "parseDynamoInt64 element = bind_res (as_N element) (\<lambda>v. Ok (fst (ParseInt v)))"

definition item_of_attributes :: "string \<Rightarrow> attributes \<Rightarrow> item res" where
  "item_of_attributes persistenceID m =
     bind_res (parseDynamoUint64 (m ''VersionNumber'')) (\<lambda>ver.
     bind_res (as_B (m ''StatePayload'')) (\<lambda>payload.
     bind_res (as_S (m ''StateManifest'')) (\<lambda>manifest.
     bind_res (parseDynamoInt64 (m ''Timestamp'')) (\<lambda>ts.
     bind_res (parseDynamoUint64 (m ''ShardNumber'')) (\<lambda>shard.
       Ok \<lparr>it_PersistenceID = persistenceID, it_VersionNumber = ver, it_StatePayload = payload,
           it_StateManifest = manifest, it_Timestamp = ts, it_ShardNumber = shard\<rparr>)))))"

definition attributes_of_item :: "item \<Rightarrow> attributes" where
  "attributes_of_item x =
     [''PersistenceID'' \<mapsto> AttrS (it_PersistenceID x),
      ''VersionNumber'' \<mapsto> AttrN (fmt_u64 (it_VersionNumber x)),
      ''StatePayload'' \<mapsto> AttrB (it_StatePayload x),
      ''StateManifest'' \<mapsto> AttrS (it_StateManifest x),
      ''Timestamp'' \<mapsto> AttrN (fmt_i64 (it_Timestamp x)),
      ''ShardNumber'' \<mapsto> AttrN (fmt_u64 (it_ShardNumber x))]"

definition ddb_GetItem :: "'w ddb_client \<Rightarrow> string \<Rightarrow> string \<Rightarrow> 'w \<Rightarrow> item option res" where
  "ddb_GetItem client tableName persistenceID w =
     (case GetItem client tableName [''PersistenceID'' \<mapsto> AttrS persistenceID] w of
        Err err \<Rightarrow> Err (ErrWrap ''failed to fetch the state from the dynamodb'' err)
      | Panic \<Rightarrow> Panic
      | Ok None \<Rightarrow> Err (ErrNew ''failed to fetch the state from the dynamodb'')
      | Ok (Some None) \<Rightarrow> Ok None
      | Ok (Some (Some m)) \<Rightarrow> bind_res (item_of_attributes persistenceID m) (\<lambda>x. Ok (Some x)))"

definition ddb_UpsertItem :: "'w ddb_client \<Rightarrow> string \<Rightarrow> item \<Rightarrow> 'w \<Rightarrow> unit res \<times> 'w" where
  "ddb_UpsertItem client tableName x w =
     (case PutItem client tableName (attributes_of_item x) w of
        (Err err, w') \<Rightarrow> (Err (ErrWrap ''failed to upsert state into the dynamodb'' err), w')
      | (Panic, w') \<Rightarrow> (Panic, w')
      | (Ok _, w') \<Rightarrow> (Ok (), w'))"

section \<open>durable_store.go\<close>

record 'w dynamo_store =
  dy_tableName :: string
  dy_world :: 'w

definition dy_NewDurableStore :: "string \<Rightarrow> 'w \<Rightarrow> 'w dynamo_store" where
  "dy_NewDurableStore tableName w = \<lparr>dy_tableName = tableName, dy_world = w\<rparr>"

definition dy_Connect :: "'w dynamo_store \<Rightarrow> unit res \<times> 'w dynamo_store" where
  "dy_Connect s = (Ok (), s)"

definition dy_Disconnect :: "'w dynamo_store \<Rightarrow> unit res \<times> 'w dynamo_store" where
  "dy_Disconnect s = (Ok (), s)"

definition dy_Ping :: "'w dynamo_store \<Rightarrow> unit res \<times> 'w dynamo_store" where
  "dy_Ping s = (Ok (), s)"

definition dy_WriteState ::
  "('t, 'm) protolib \<Rightarrow> 'w ddb_client \<Rightarrow> durable_state option \<Rightarrow> 'w dynamo_store \<Rightarrow>
   unit res \<times> 'w dynamo_store" where
  "dy_WriteState L client state s =
     (let st = or_zero zero_durable_state state;
          bytea = marshal_bytes L (ds_ResultingState st);
          manifest = full_name L (ds_ResultingState st);
          (r, w') = ddb_UpsertItem client (dy_tableName s)
            \<lparr>it_PersistenceID = ds_PersistenceId st, it_VersionNumber = ds_VersionNumber st,
             it_StatePayload = bytea, it_StateManifest = manifest,
             it_Timestamp = ds_Timestamp st, it_ShardNumber = ds_Shard st\<rparr> (dy_world s)
      in (r, s\<lparr>dy_world := w'\<rparr>))"

definition dy_GetLatestState ::
  "('t, 'm) protolib \<Rightarrow> 'w ddb_client \<Rightarrow> string \<Rightarrow> 'w dynamo_store \<Rightarrow> durable_state option res" where
  "dy_GetLatestState L client persistenceID s =
     (case ddb_GetItem client (dy_tableName s) persistenceID (dy_world s) of
        Err err \<Rightarrow> Err err
      | Panic \<Rightarrow> Panic
      | Ok None \<Rightarrow> Ok None
      | Ok (Some result) \<Rightarrow> bind_res (item_ToDurableState L result) (\<lambda>d. Ok (Some d)))"

section \<open>Items round trip\<close>

lemma item_roundtrip:
  "item_of_attributes (it_PersistenceID x) (attributes_of_item x) = Ok x"
  by (simp add: item_of_attributes_def attributes_of_item_def parseDynamoUint64_def
      parseDynamoInt64_def ParseUint_fmt_u64 ParseInt_fmt_i64)

section \<open>The StateStore contract\<close>

text \<open>
  What the contract speaks of: the item of each table and partition key, and the worlds in
  which an eventually consistent read (which \<open>GetItem\<close> is, by default) sees the latest
  write. A put of an item whose numbers are in decimal form without superfluous zeros and
  whose binaries are not nil stores that item, whole.
\<close>

record 'w ddb_ghost =
  dg_items :: "'w \<Rightarrow> string \<Rightarrow> string \<rightharpoonup> attributes"
  dg_fresh :: "'w \<Rightarrow> bool"
  dg_valid :: "'w \<Rightarrow> bool"

definition plain_attribute :: "attr_value \<Rightarrow> bool" where
  "plain_attribute a =
     (case a of AttrS s \<Rightarrow> True
      | AttrN v \<Rightarrow> (\<exists>i. v = fmt_int i \<and> \<bar>i\<bar> < 2 ^ 64)
      | AttrB b \<Rightarrow> b \<noteq> None
      | AttrOther \<Rightarrow> False)"

definition dg_put :: "'w ddb_ghost \<Rightarrow> 'w \<Rightarrow> string \<Rightarrow> string \<Rightarrow> attributes \<Rightarrow> string \<Rightarrow> string \<rightharpoonup> attributes" where
  "dg_put G w t k m = (dg_items G w)(t := (dg_items G w t)(k \<mapsto> m))"

definition ddb_contract :: "'w ddb_client \<Rightarrow> 'w ddb_ghost \<Rightarrow> bool" where
  "ddb_contract C G \<longleftrightarrow>
     (\<forall>t m k w r w'. dg_valid G w \<and> m ''PersistenceID'' = Some (AttrS k) \<and>
        (\<forall>a \<in> ran m. plain_attribute a) \<and> PutItem C t m w = (r, w') \<longrightarrow>
        r \<noteq> Panic \<and> dg_valid G w' \<and>
        (r = Ok () \<longrightarrow> dg_items G w' = dg_put G w t k m) \<and>
        (r \<noteq> Ok () \<longrightarrow> dg_items G w' = dg_items G w \<or> dg_items G w' = dg_put G w t k m)) \<and>
     (\<forall>t k w. dg_valid G w \<longrightarrow>
        GetItem C t [''PersistenceID'' \<mapsto> AttrS k] w \<noteq> Panic \<and>
        (\<forall>x. dg_fresh G w \<and> GetItem C t [''PersistenceID'' \<mapsto> AttrS k] w = Ok (Some x) \<longrightarrow>
           x = dg_items G w t k))"

declare ddb_contract_def [contract_defs]

type_synonym ('t, 'm, 'w) dyenv = "('t, 'm) protolib \<times> 'w ddb_client \<times> 'w ddb_ghost"

definition dy_rely :: "('t, 'm, 'w) dyenv \<Rightarrow> bool" where
  "dy_rely env \<longleftrightarrow> proto_contract (fst env) \<and> ddb_contract (fst (snd env)) (snd (snd env))"

definition dy_inv :: "('t, 'm, 'w) dyenv \<Rightarrow> 'w dynamo_store \<Rightarrow> bool" where
  "dy_inv env s \<longleftrightarrow> dg_valid (snd (snd env)) (dy_world s)"

definition dy_fresh :: "('t, 'm, 'w) dyenv \<Rightarrow> 'w dynamo_store \<Rightarrow> bool" where
  "dy_fresh env s \<longleftrightarrow> dg_fresh (snd (snd env)) (dy_world s)"

definition dy_decode :: "('t, 'm) protolib \<Rightarrow> string \<Rightarrow> attributes \<Rightarrow> durable_state res" where
  "dy_decode L p m = bind_res (item_of_attributes p m) (item_ToDurableState L)"

definition dy_view :: "('t, 'm, 'w) dyenv \<Rightarrow> 'w dynamo_store \<Rightarrow> string \<Rightarrow> durable_state option" where
  "dy_view env s p =
     (case dg_items (snd (snd env)) (dy_world s) (dy_tableName s) p of
        None \<Rightarrow> None
      | Some m \<Rightarrow> (case dy_decode (fst env) p m of Ok d \<Rightarrow> Some d | _ \<Rightarrow> None))"

definition dy_storable :: "('t, 'm) protolib \<Rightarrow> durable_state \<Rightarrow> bool" where
  "dy_storable L d \<longleftrightarrow> ds_ResultingState d \<noteq> None \<and> marshals L (ds_ResultingState d)"

text \<open>What comes back of a message: the version number and the shard are lost.\<close>

definition dy_obs :: "durable_state \<Rightarrow> durable_state" where
  "dy_obs d = d\<lparr>ds_VersionNumber := 0, ds_Shard := 0\<rparr>"

definition dy_item :: "('t, 'm) protolib \<Rightarrow> durable_state \<Rightarrow> item" where
  "dy_item L st =
     \<lparr>it_PersistenceID = ds_PersistenceId st, it_VersionNumber = ds_VersionNumber st,
      it_StatePayload = marshal_bytes L (ds_ResultingState st),
      it_StateManifest = full_name L (ds_ResultingState st),
      it_Timestamp = ds_Timestamp st, it_ShardNumber = ds_Shard st\<rparr>"

lemma dy_WriteState_Some:
  "dy_WriteState L client (Some d) s =
     (case ddb_UpsertItem client (dy_tableName s) (dy_item L d) (dy_world s) of
        (r, w') \<Rightarrow> (r, s\<lparr>dy_world := w'\<rparr>))"
  by (simp add: dy_WriteState_def dy_item_def)

lemma dy_decode_item:
  assumes "proto_contract L" "dy_storable L d"
  shows "dy_decode L (ds_PersistenceId d) (attributes_of_item (dy_item L d)) = Ok (dy_obs d)"
proof -
  from assms(2) obtain a where a: "ds_ResultingState d = Some a" by (auto simp: dy_storable_def)
  have "toProto L (full_name L (Some a)) (marshal_bytes L (Some a)) = Ok a"
    using toProto_roundtrip [OF assms(1), of "Some a"] assms(2) a by (simp add: dy_storable_def)
  moreover have "item_of_attributes (ds_PersistenceId d) (attributes_of_item (dy_item L d)) = Ok (dy_item L d)"
    using item_roundtrip [of "dy_item L d"] by (simp add: dy_item_def)
  ultimately show ?thesis
    using a by (simp add: dy_decode_def item_ToDurableState_def dy_item_def dy_obs_def zero_durable_state_def)
qed

lemma plain_attributes_of_item:
  assumes "it_StatePayload x \<noteq> None" "a \<in> ran (attributes_of_item x)"
  shows "plain_attribute a"
proof -
  have u: "\<exists>i. fmt_u64 n = fmt_int i \<and> \<bar>i\<bar> < 2 ^ 64" for n
    using uint_lt2p [of n] by (intro exI [of _ "uint n"]) (simp add: fmt_u64_def fmt_int_def)
  have i: "\<exists>i. fmt_i64 n = fmt_int i \<and> \<bar>i\<bar> < 2 ^ 64" for n
    using sint_ge [of n] sint_lt [of n] by (intro exI [of _ "sint n"]) (auto simp: fmt_i64_def)
  from assms u i show ?thesis
    by (auto simp: attributes_of_item_def plain_attribute_def ran_def split: if_splits)
qed

lemma dy_WriteState_all:
  assumes "dy_rely env" "dy_inv env s" "dy_storable (fst env) d"
    and "dy_WriteState (fst env) (fst (snd env)) (Some d) s = (r, s')"
  shows "dy_inv env s'" and "r = Ok () \<Longrightarrow> dy_view env s' = (dy_view env s)(ds_PersistenceId d \<mapsto> dy_obs d)"
    and "dy_view env s' = dy_view env s \<or> dy_view env s' = (dy_view env s)(ds_PersistenceId d \<mapsto> dy_obs d)"
proof -
  obtain L C G where env: "env = (L, C, G)" by (cases env)
  let ?w = "dy_world s" and ?t = "dy_tableName s" and ?m = "attributes_of_item (dy_item L d)"
  let ?v = "(dy_view env s)(ds_PersistenceId d \<mapsto> dy_obs d)"
  obtain r1 w1 where put: "PutItem C ?t ?m ?w = (r1, w1)" by (cases "PutItem C ?t ?m ?w")
  then have s': "s' = s\<lparr>dy_world := w1\<rparr>" and r: "r = Ok () \<longleftrightarrow> r1 = Ok ()"
    using assms(4) by (cases r1; auto simp: env dy_WriteState_Some ddb_UpsertItem_def)+
  have C: "proto_contract L" "ddb_contract C G" "dg_valid G ?w"
    using assms(1,2) by (simp_all add: env dy_rely_def dy_inv_def)
  have pay: "it_StatePayload (dy_item L d) \<noteq> None"
    using assms(3) marshal_bytes_not_nil [OF C(1)] by (auto simp: env dy_storable_def dy_item_def)
  have "?m ''PersistenceID'' = Some (AttrS (ds_PersistenceId d))"
    by (simp add: attributes_of_item_def dy_item_def)
  with C(2,3) put plain_attributes_of_item [OF pay] have facts: "dg_valid G w1"
    "r1 = Ok () \<longrightarrow> dg_items G w1 = dg_put G ?w ?t (ds_PersistenceId d) ?m"
    "dg_items G w1 = dg_items G ?w \<or> dg_items G w1 = dg_put G ?w ?t (ds_PersistenceId d) ?m"
    unfolding ddb_contract_def by blast+
  have upd: "dy_view env s' = ?v" if "dg_items G w1 = dg_put G ?w ?t (ds_PersistenceId d) ?m"
    using that dy_decode_item [OF C(1), of d] assms(3)
    by (auto simp: fun_eq_iff s' env dy_view_def dg_put_def)
  have same: "dy_view env s' = dy_view env s" if "dg_items G w1 = dg_items G ?w"
    using that by (simp add: fun_eq_iff s' env dy_view_def)
  show "dy_inv env s'" using facts(1) by (simp add: env s' dy_inv_def)
  show "r = Ok () \<Longrightarrow> dy_view env s' = ?v" using facts(2) upd r by blast
  show "dy_view env s' = dy_view env s \<or> dy_view env s' = ?v" using facts(3) upd same by blast
qed

lemma dy_get_view:
  assumes "dy_rely env" "dy_inv env s" "dy_fresh env s"
    and "dy_GetLatestState (fst env) (fst (snd env)) p s = Ok x"
  shows "x = dy_view env s p"
proof -
  obtain L C G where env: "env = (L, C, G)" by (cases env)
  let ?w = "dy_world s" and ?t = "dy_tableName s"
  let ?g = "GetItem C ?t [''PersistenceID'' \<mapsto> AttrS p] ?w"
  have "y = dg_items G ?w ?t p" if "?g = Ok (Some y)" for y
    using assms(1-3) that unfolding env dy_rely_def dy_inv_def dy_fresh_def ddb_contract_def by auto
  moreover obtain y where "?g = Ok (Some y)"
    using assms(4) by (auto simp: env dy_GetLatestState_def ddb_GetItem_def split: res.splits option.splits)
  ultimately show ?thesis
    using assms(4)
    by (cases "case y of None \<Rightarrow> Panic | Some m \<Rightarrow> item_of_attributes p m";
        cases "case y of None \<Rightarrow> Panic | Some m \<Rightarrow> dy_decode L p m")
      (auto simp: env dy_GetLatestState_def ddb_GetItem_def dy_view_def dy_decode_def split: option.splits)
qed

interpretation dy: state_store dy_rely dy_inv dy_fresh "\<lambda>env. dy_storable (fst env)" dy_obs dy_view
  "\<lambda>env. dy_WriteState (fst env) (fst (snd env))" "\<lambda>env. dy_GetLatestState (fst env) (fst (snd env))"
  by unfold_locales (blast intro: dy_WriteState_all(1,2) dy_get_view dest: dy_WriteState_all(3))+

end
