(* ===== verification/GoSort.thy ===== *)
theory GoSort
  imports Prelude
begin

text \<open>
  Go's \<open>sort.SliceStable\<close>, which the memory event store calls with a \<open>less\<close> function (\<open>lt\<close> below).
  The model is the insertion sort that the standard library runs on a block: for each
  element in turn, \<open>for j := i; j > a && less(j, j-1); j--\<close> swaps it to the left. For a
  \<open>less\<close> that is a strict order on a key the result of a stable sort is unique, so the
  model equals the library's result on slices of every length (\<open>slice_stable_less\<close>).
  Called with a non-strict comparison (\<open>\<le>\<close>) the order among equal keys is not
  documented, and only the facts that do not depend on it are used
  (\<open>slice_stable_sorted_le\<close>, \<open>mset_slice_stable\<close>).
\<close>

section \<open>Insertion into the sorted prefix, from its right end\<close>

text \<open>The prefix is kept reversed: its head is the element at \<open>j-1\<close>.\<close>

fun insert_back :: "('a \<Rightarrow> 'a \<Rightarrow> bool) \<Rightarrow> 'a \<Rightarrow> 'a list \<Rightarrow> 'a list" where
  "insert_back lt x [] = [x]"
| "insert_back lt x (y # ys) = (if lt x y then y # insert_back lt x ys else x # y # ys)"

fun insertion_sort_rev :: "('a \<Rightarrow> 'a \<Rightarrow> bool) \<Rightarrow> 'a list \<Rightarrow> 'a list \<Rightarrow> 'a list" where
  "insertion_sort_rev lt acc [] = acc"
| "insertion_sort_rev lt acc (x # xs) = insertion_sort_rev lt (insert_back lt x acc) xs"

definition slice_stable :: "('a \<Rightarrow> 'a \<Rightarrow> bool) \<Rightarrow> 'a list \<Rightarrow> 'a list" where
  "slice_stable lt xs = rev (insertion_sort_rev lt [] xs)"

section \<open>Permutation\<close>

lemma mset_insert_back [simp]: "mset (insert_back lt x ys) = add_mset x (mset ys)"
  by (induction ys) auto

lemma mset_insertion_sort_rev [simp]: "mset (insertion_sort_rev lt acc xs) = mset acc + mset xs"
  by (induction xs arbitrary: acc) auto

lemma mset_slice_stable [simp]: "mset (slice_stable lt xs) = mset xs"
  by (simp add: slice_stable_def)

lemma set_slice_stable [simp]: "set (slice_stable lt xs) = set xs"
  by (rule mset_eq_setD) simp

lemma length_slice_stable [simp]: "length (slice_stable lt xs) = length xs"
  by (metis mset_slice_stable size_mset)

lemma slice_stable_Nil [simp]: "slice_stable lt [] = []"
  by (simp add: slice_stable_def)

lemma slice_stable_eq_Nil_iff [simp]: "slice_stable lt xs = [] \<longleftrightarrow> xs = []"
  by (metis length_0_conv length_slice_stable)

section \<open>Sortedness, for a strict and for a non-strict comparison of keys\<close>

text \<open>Both comparisons the stores use decide the order of two different keys.\<close>

definition by_key :: "('a \<Rightarrow> 'k::linorder) \<Rightarrow> ('a \<Rightarrow> 'a \<Rightarrow> bool) \<Rightarrow> bool" where
  "by_key f lt \<longleftrightarrow> (\<forall>x y. (f x < f y \<longrightarrow> lt x y) \<and> (f y < f x \<longrightarrow> \<not> lt x y))"

lemma by_key_less [simp]: "by_key f (\<lambda>x y. f x < f y)"
  by (auto simp: by_key_def)

lemma by_key_le [simp]: "by_key f (\<lambda>x y. f x \<le> f y)"
  by (auto simp: by_key_def)

lemma sorted_insert_back:
  "by_key f lt \<Longrightarrow> sorted_wrt (\<lambda>x y. f y \<le> f x) ys \<Longrightarrow>
     sorted_wrt (\<lambda>x y. f y \<le> f x) (insert_back lt x ys)"
proof (induction ys)
  case Nil
  then show ?case by simp
next
  case (Cons y ys)
  have set: "set (insert_back lt x ys) = insert x (set ys)"
    using mset_eq_setD [of "insert_back lt x ys" "x # ys"] by simp
  show ?case
  proof (cases "lt x y")
    case True
    with Cons.prems(1) have "f x \<le> f y" by (auto simp: by_key_def not_less [symmetric])
    with True Cons set show ?thesis by auto
  next
    case False
    with Cons.prems(1) have "f y \<le> f x" by (auto simp: by_key_def not_less [symmetric])
    with False Cons.prems(2) show ?thesis by fastforce
  qed
qed

lemma sorted_insertion_sort_rev:
  "by_key f lt \<Longrightarrow> sorted_wrt (\<lambda>x y. f y \<le> f x) acc \<Longrightarrow>
     sorted_wrt (\<lambda>x y. f y \<le> f x) (insertion_sort_rev lt acc xs)"
  by (induction xs arbitrary: acc) (auto intro: sorted_insert_back)

lemma slice_stable_sorted: "by_key f lt \<Longrightarrow> sorted (map f (slice_stable lt xs))"
  by (simp add: slice_stable_def sorted_map sorted_wrt_rev sorted_insertion_sort_rev)

lemma slice_stable_sorted_le: "sorted (map f (slice_stable (\<lambda>x y. f x \<le> f y) xs))"
  by (rule slice_stable_sorted) simp

section \<open>Stability, for a strict comparison\<close>

lemma slice_stable_le_sorted: "sorted xs \<Longrightarrow> slice_stable (\<lambda>x y. x \<le> y) xs = xs"
proof -
  assume "sorted xs"
  moreover have "sorted (slice_stable (\<lambda>x y. x \<le> y) xs)"
    using slice_stable_sorted_le [of "\<lambda>x. x" xs] by simp
  then have "sort xs = slice_stable (\<lambda>x y. x \<le> y) xs" by (intro properties_for_sort) simp_all
  ultimately show "slice_stable (\<lambda>x y. x \<le> y) xs = xs" by (simp add: sorted_sort_id)
qed

lemma filter_insert_back:
  fixes f :: "'a \<Rightarrow> 'k::linorder"
  shows "sorted_wrt (\<lambda>x y. f y \<le> f x) ys \<Longrightarrow>
     filter (\<lambda>z. f z = k) (insert_back (\<lambda>x y. f x < f y) x ys) =
       (if f x = k then x # filter (\<lambda>z. f z = k) ys else filter (\<lambda>z. f z = k) ys)"
  by (induction ys) auto

lemma filter_insertion_sort_rev:
  fixes f :: "'a \<Rightarrow> 'k::linorder"
  shows "sorted_wrt (\<lambda>x y. f y \<le> f x) acc \<Longrightarrow>
     filter (\<lambda>z. f z = k) (insertion_sort_rev (\<lambda>x y. f x < f y) acc xs) =
       rev (filter (\<lambda>z. f z = k) xs) @ filter (\<lambda>z. f z = k) acc"
proof (induction xs arbitrary: acc)
  case Nil
  then show ?case by simp
next
  case (Cons x xs)
  have "sorted_wrt (\<lambda>x y. f y \<le> f x) (insert_back (\<lambda>x y. f x < f y) x acc)"
    by (rule sorted_insert_back) (use Cons.prems in auto)
  then show ?case by (simp add: Cons.IH filter_insert_back [OF Cons.prems])
qed

lemma slice_stable_less: "slice_stable (\<lambda>x y. f x < f y) xs = sort_key f xs"
proof (rule properties_for_sort_key [symmetric])
  show "mset (slice_stable (\<lambda>x y. f x < f y) xs) = mset xs" by simp
  show "filter (\<lambda>x. f k = f x) (slice_stable (\<lambda>x y. f x < f y) xs) = filter (\<lambda>x. f k = f x) xs"
    for k
    by (simp add: slice_stable_def rev_filter [symmetric] filter_insertion_sort_rev eq_commute [of "f k"])
  show "sorted (map f (slice_stable (\<lambda>x y. f x < f y) xs))" by (rule slice_stable_sorted) simp
qed

end
