(* ===== verification/RefEngine.thy ===== *)
theory RefEngine
  imports SqlDatabase GoSort
begin

text \<open>
  A small relational engine that satisfies the driver's contract: the tables are lists of
  rows, a statement is executed on them and refused when it would break a primary key. It
  shows that the contract can hold, and it makes the witnesses of the Postgres stores
  computable; no theorem about a store depends on it. The primary keys are those of the
  schemas under \<open>resources/\<close> of each store.
\<close>

section \<open>The schemas\<close>

definition schema_pk :: "string \<Rightarrow> string list" where
  "schema_pk t =
     (if t = ''states_store'' then [''persistence_id'']
      else if t = ''events_store'' then [''persistence_id'', ''sequence_number'']
      else if t = ''snapshots_store'' then [''persistence_id'', ''sequence_number'']
      else if t = ''offsets_store'' then [''projection_name'', ''shard_number'']
      else [])"

section \<open>Execution on lists of rows\<close>

record ref_world =
  rw_tabs :: "string \<Rightarrow> row list"
  rw_stage :: "string \<Rightarrow> row list"
  rw_open :: nat

definition ref_coll :: "string \<Rightarrow> string \<Rightarrow> bool" where
  "ref_coll a b \<longleftrightarrow> a \<le> b"

definition ref_insert :: "(string list \<times> string list) option \<Rightarrow> row \<Rightarrow> row list \<Rightarrow> row list" where
  "ref_insert oc n rs =
     (case oc of
        None \<Rightarrow> n # rs
      | Some (ks, us) \<Rightarrow>
          if list_ex (\<lambda>r. map r ks = map n ks) rs
          then map (\<lambda>r. if map r ks = map n ks then overwrite us n r else r) rs
          else n # rs)"

fun ref_apply :: "stmt \<Rightarrow> (string \<Rightarrow> row list) \<Rightarrow> string \<times> row list" where
  "ref_apply (Select q) ts = (sel_from q, ts (sel_from q))"
| "ref_apply (Insert i) ts =
     (ins_into i, fold (ref_insert (ins_conflict i)) (map (row_of (ins_columns i)) (ins_values i)) (ts (ins_into i)))"
| "ref_apply (Delete d) ts =
     (del_from d, filter (\<lambda>r. \<not> matches ref_coll (del_where d) r) (ts (del_from d)))"
| "ref_apply (Update u) ts =
     (upd_table u, map (\<lambda>r. if matches ref_coll (upd_where u) r
          then (\<lambda>c. case map_of (upd_set u) c of Some v \<Rightarrow> v | None \<Rightarrow> r c) else r) (ts (upd_table u)))"

definition keys_ok :: "string \<Rightarrow> row list \<Rightarrow> bool" where
  "keys_ok t rs \<longleftrightarrow> schema_pk t = [] \<or> distinct (map (\<lambda>r. map r (schema_pk t)) rs)"

definition ref_exec :: "stmt \<Rightarrow> (string \<Rightarrow> row list) \<Rightarrow> (string \<Rightarrow> row list) res" where
  "ref_exec st ts =
     (let (t, rs) = ref_apply st ts
      in if keys_ok t rs then Ok (ts(t := rs)) else Err (ErrExt ''unique_violation''))"

definition ref_distinct :: "string list \<Rightarrow> row list \<Rightarrow> row list" where
  "ref_distinct cols rs = map (row_of cols) (remdups (map (\<lambda>r. map r cols) rs))"

definition ref_sort :: "(string \<times> bool) option \<Rightarrow> row list \<Rightarrow> row list" where
  "ref_sort ord rs =
     (case ord of None \<Rightarrow> rs
      | Some (c, asc) \<Rightarrow>
          slice_stable (\<lambda>r r'. if asc then sql_le ref_coll (r c) (r' c) else sql_le ref_coll (r' c) (r c)) rs)"

definition ref_query :: "select_stmt \<Rightarrow> row list \<Rightarrow> row list res" where
  "ref_query q rows =
     (let base = map (project (sel_columns q)) (filter (matches ref_coll (sel_where q)) rows);
          base = (if sel_distinct q then ref_distinct (sel_columns q) base else base);
          xs = ref_sort (sel_order q) base
      in if ordered_by ref_coll (sel_order q) xs then Ok (limited (sel_limit q) xs)
         else Err (ErrExt ''cannot order''))"

definition ref_not_found :: goerr where
  "ref_not_found = ErrExt ''no rows in result set''"

definition ref_drv :: "(stmt, unit, unit, unit, ref_world) pgdrv" where
  "ref_drv =
     \<lparr>to_sql = (\<lambda>st. Ok st), parse_config = (\<lambda>_. Ok ()), set_config = (\<lambda>_ c. c),
      new_pool = (\<lambda>_ w. (Ok (), w)), pool_ping = (\<lambda>_ w. (Ok (), w)),
      pool_exec = (\<lambda>_ st w. case ref_exec st (rw_tabs w) of
          Ok ts \<Rightarrow> (Ok (), w\<lparr>rw_tabs := ts\<rparr>) | Err e \<Rightarrow> (Err e, w) | Panic \<Rightarrow> (Panic, w)),
      pool_begin = (\<lambda>_ w. (Ok (), w\<lparr>rw_stage := rw_tabs w, rw_open := Suc (rw_open w)\<rparr>)),
      pool_close = (\<lambda>_ w. w),
      tx_exec = (\<lambda>_ st w. case ref_exec st (rw_stage w) of
          Ok ts \<Rightarrow> (Ok (), w\<lparr>rw_stage := ts\<rparr>) | Err e \<Rightarrow> (Err e, w) | Panic \<Rightarrow> (Panic, w)),
      tx_rollback = (\<lambda>_ w. (Ok (), w\<lparr>rw_open := rw_open w - 1\<rparr>)),
      tx_commit = (\<lambda>_ w. (Ok (), w\<lparr>rw_tabs := rw_stage w, rw_open := rw_open w - 1\<rparr>)),
      scan_all = (\<lambda>_ st w. case st of Select q \<Rightarrow> ref_query q (rw_tabs w (sel_from q))
          | _ \<Rightarrow> Err (ErrExt ''not a query'')),
      scan_one = (\<lambda>_ st w. case st of
          Select q \<Rightarrow> bind_res (ref_query q (rw_tabs w (sel_from q)))
            (\<lambda>rs. case rs of [] \<Rightarrow> Err ref_not_found | [r] \<Rightarrow> Ok r | _ \<Rightarrow> Err (ErrExt ''expected 1 row''))
          | _ \<Rightarrow> Err (ErrExt ''not a query'')),
      not_found = (\<lambda>e. e = ref_not_found)\<rparr>"

definition ref_ghost :: "(unit, ref_world) pgghost" where
  "ref_ghost =
     \<lparr>gh_tables = (\<lambda>w t. mset (rw_tabs w t)), gh_staged = (\<lambda>w _ t. mset (rw_stage w t)),
      gh_open = rw_open, gh_live = (\<lambda>w _. 0 < rw_open w),
      gh_valid = (\<lambda>w. \<forall>t. keys_ok t (rw_tabs w t) \<and> keys_ok t (rw_stage w t)),
      gh_coll = ref_coll, gh_pk = schema_pk\<rparr>"

definition ref_world0 :: ref_world where
  "ref_world0 = \<lparr>rw_tabs = (\<lambda>_. []), rw_stage = (\<lambda>_. []), rw_open = 0\<rparr>"

section \<open>The contract holds\<close>

lemma mset_ref_insert [simp]: "mset (ref_insert oc n rs) = insert_row oc n (mset rs)"
proof (cases oc)
  case None
  then show ?thesis by (simp add: ref_insert_def insert_row_def)
next
  case (Some p)
  obtain ks us where p: "p = (ks, us)" by (cases p)
  have "list_ex (\<lambda>r. map r ks = map n ks) rs \<longleftrightarrow> (\<exists>r \<in># mset rs. map r ks = map n ks)"
    by (simp only: list_ex_iff set_mset_mset)
  then show ?thesis using Some p
    by (simp only: ref_insert_def insert_row_def option.case prod.case) (simp split del: if_split add: if_distrib cong: if_cong)
qed

lemma mset_fold_ref_insert:
  "mset (fold (ref_insert oc) ns rs) = fold (insert_row oc) ns (mset rs)"
  by (induction ns arbitrary: rs) auto

lemma ref_apply_exec:
  "ref_apply st ts = (t, rs) \<Longrightarrow>
     (\<lambda>u. mset ((ts(t := rs)) u)) = exec_stmt ref_coll st (\<lambda>u. mset (ts u))"
  by (cases st) (auto simp: fun_eq_iff mset_fold_ref_insert)

lemma ref_exec_Ok:
  assumes "ref_exec st ts = Ok ts'" and "\<forall>t. keys_ok t (ts t)"
  shows "(\<lambda>u. mset (ts' u)) = exec_stmt ref_coll st (\<lambda>u. mset (ts u))" and "\<forall>t. keys_ok t (ts' t)"
proof -
  obtain t rs where a: "ref_apply st ts = (t, rs)" by fastforce
  with assms(1) have ts': "ts' = ts(t := rs)" and k: "keys_ok t rs"
    by (auto simp: ref_exec_def split: if_splits)
  show "(\<lambda>u. mset (ts' u)) = exec_stmt ref_coll st (\<lambda>u. mset (ts u))"
    unfolding ts' by (rule ref_apply_exec [OF a])
  show "\<forall>t. keys_ok t (ts' t)" using ts' k assms(2) by simp
qed

lemma ref_exec_not_Panic: "ref_exec st ts \<noteq> Panic"
  by (simp add: ref_exec_def split: prod.split)

lemma size_filter_distinct: "distinct (map f rs) \<Longrightarrow> size (filter_mset (\<lambda>r. f r = v) (mset rs)) \<le> 1"
proof (induction rs)
  case (Cons a rs)
  then show ?case by (cases "f a = v") (auto simp: image_iff filter_empty_conv)
qed simp

lemma keys_ok_keyed: "keys_ok t rs \<Longrightarrow> schema_pk t \<noteq> [] \<Longrightarrow> keyed (schema_pk t) (mset rs)"
  unfolding keyed_def keys_ok_def
  by (elim disjE, simp, intro allI) (rule size_filter_distinct)

lemma row_of_map: "row_of cols (map r cols) = project cols r"
  by (auto simp: row_of_def project_def map_of_zip_map fun_eq_iff)

lemma project_idem: "project cols (project cols r) = project cols r"
  by (auto simp: project_def fun_eq_iff)

lemma mset_ref_distinct:
  assumes "\<forall>r \<in> set rs. project cols r = r"
  shows "mset (ref_distinct cols rs) = mset_set (set rs)"
proof -
  have eqr: "row_of cols (map r cols) = r" if "r \<in> set rs" for r using that assms by (simp only: row_of_map)
  have "set (ref_distinct cols rs) = (\<lambda>r. row_of cols (map r cols)) ` set rs"
    by (simp add: ref_distinct_def image_image)
  also have "\<dots> = set rs" using eqr by force
  finally have s: "set (ref_distinct cols rs) = set rs" .
  have "inj_on (row_of cols) ((\<lambda>r. map r cols) ` set rs)"
    using eqr by (intro inj_onI) (metis imageE)
  then have "distinct (ref_distinct cols rs)"
    by (simp add: ref_distinct_def distinct_map)
  then show ?thesis using s by (metis mset_set_set)
qed

lemma ref_query_Ok:
  assumes "ref_query q rows = Ok rs"
  shows "sel_result ref_coll q (mset rows) rs"
proof -
  define base where "base = map (project (sel_columns q)) (filter (matches ref_coll (sel_where q)) rows)"
  define base' where "base' = (if sel_distinct q then ref_distinct (sel_columns q) base else base)"
  define xs where "xs = ref_sort (sel_order q) base'"
  have ord: "ordered_by ref_coll (sel_order q) xs" and rs: "rs = limited (sel_limit q) xs"
    using assms by (auto simp: ref_query_def Let_def xs_def base'_def base_def split: if_splits)
  have M: "mset base = image_mset (project (sel_columns q)) (filter_mset (matches ref_coll (sel_where q)) (mset rows))"
    by (simp add: base_def)
  have "mset xs = mset base'"
    by (simp add: xs_def ref_sort_def split: option.split)
  also have "\<dots> = (if sel_distinct q then mset_set (set_mset (mset base)) else mset base)"
  proof -
    have "\<forall>r \<in> set base. project (sel_columns q) r = r"
      by (auto simp: base_def project_idem)
    then show ?thesis by (simp add: base'_def mset_ref_distinct)
  qed
  finally show ?thesis using ord rs unfolding sel_result_def Let_def M by blast
qed

lemma ref_query_not_Panic: "ref_query q rows \<noteq> Panic"
  by (simp add: ref_query_def Let_def)

lemma ref_exec_contract: "exec_contract ref_drv ref_ghost"
  unfolding exec_contract_def
proof (intro allI impI)
  fix st q p w r w'
  assume "to_sql ref_drv st = Ok q \<and> gh_valid ref_ghost w \<and> pool_exec ref_drv p q w = (r, w')"
  then have "q = st" and v: "gh_valid ref_ghost w" and e: "pool_exec ref_drv p st w = (r, w')"
    by (auto simp: ref_drv_def)
  then show "r \<noteq> Panic \<and> gh_valid ref_ghost w' \<and> gh_open ref_ghost w' = gh_open ref_ghost w \<and>
      (r = Ok () \<longrightarrow> gh_tables ref_ghost w' = exec_stmt (gh_coll ref_ghost) st (gh_tables ref_ghost w)) \<and>
      (r \<noteq> Ok () \<longrightarrow> gh_tables ref_ghost w' = gh_tables ref_ghost w \<or>
         gh_tables ref_ghost w' = exec_stmt (gh_coll ref_ghost) st (gh_tables ref_ghost w))"
    using ref_exec_Ok [of st "rw_tabs w"] ref_exec_not_Panic [of st "rw_tabs w"]
    by (cases "ref_exec st (rw_tabs w)") (auto simp: ref_drv_def ref_ghost_def)
qed

lemma ref_query_contract: "query_contract ref_drv ref_ghost"
  unfolding query_contract_def
proof (intro allI impI, elim conjE)
  fix s q p and w :: ref_world
  assume "to_sql ref_drv (Select s) = Ok q"
  then have q: "q = Select s" by (simp add: ref_drv_def)
  let ?rows = "rw_tabs w (sel_from s)"
  let ?res = "sel_result (gh_coll ref_ghost) s (gh_tables ref_ghost w (sel_from s))"
  have res: "ref_query s ?rows = Ok rs \<Longrightarrow> ?res rs" for rs
    using ref_query_Ok [of s ?rows rs] by (simp add: ref_ghost_def)
  have err: "ref_query s ?rows = Err e \<Longrightarrow> e \<noteq> ref_not_found" for e
    by (auto simp: ref_query_def Let_def ref_not_found_def split: if_splits)
  show "scan_one ref_drv p q w \<noteq> Panic \<and> scan_all ref_drv p q w \<noteq> Panic \<and>
      (\<forall>r. scan_one ref_drv p q w = Ok r \<longrightarrow> ?res [r]) \<and>
      (\<forall>e. scan_one ref_drv p q w = Err e \<and> not_found ref_drv e \<longrightarrow> ?res []) \<and>
      (\<forall>rs. scan_all ref_drv p q w = Ok rs \<longrightarrow> ?res rs) \<and>
      (\<forall>e. scan_all ref_drv p q w = Err e \<and> not_found ref_drv e \<longrightarrow> ?res [])"
  proof (cases "ref_query s ?rows")
    case (Ok rs)
    consider "rs = []" | r where "rs = [r]" | a b cs where "rs = a # b # cs"
      by (metis neq_Nil_conv)
    then show ?thesis using res [OF Ok] Ok
      by cases (simp_all add: ref_drv_def q ref_not_found_def)
  next
    case (Err e)
    then show ?thesis using err by (simp add: ref_drv_def q)
  next
    case Panic
    then show ?thesis using ref_query_not_Panic by blast
  qed
qed

lemma ref_pool_contract: "pool_contract ref_drv ref_ghost"
  by (simp add: pool_contract_def ref_drv_def)

lemma ref_tx_exec:
  assumes "gh_valid ref_ghost w" and "tx_exec ref_drv tx st w = (r, w')"
  shows "r \<noteq> Panic \<and> gh_valid ref_ghost w' \<and> gh_tables ref_ghost w' = gh_tables ref_ghost w \<and>
      gh_open ref_ghost w' = gh_open ref_ghost w \<and> gh_live ref_ghost w' tx = gh_live ref_ghost w tx \<and>
      (r = Ok () \<longrightarrow> gh_staged ref_ghost w' tx = exec_stmt (gh_coll ref_ghost) st (gh_staged ref_ghost w tx))"
  using assms ref_exec_Ok [of st "rw_stage w"] ref_exec_not_Panic [of st "rw_stage w"]
  by (cases "ref_exec st (rw_stage w)") (auto simp: ref_drv_def ref_ghost_def)

lemma ref_tx_contract: "tx_contract ref_drv ref_ghost"
  unfolding tx_contract_def
proof (intro conjI)
  show "\<forall>st q tx w r w'. to_sql ref_drv st = Ok q \<and> gh_valid ref_ghost w \<and> tx_exec ref_drv tx q w = (r, w') \<longrightarrow>
        r \<noteq> Panic \<and> gh_valid ref_ghost w' \<and> gh_tables ref_ghost w' = gh_tables ref_ghost w \<and>
        gh_open ref_ghost w' = gh_open ref_ghost w \<and> gh_live ref_ghost w' tx = gh_live ref_ghost w tx \<and>
        (r = Ok () \<longrightarrow> gh_staged ref_ghost w' tx = exec_stmt (gh_coll ref_ghost) st (gh_staged ref_ghost w tx))"
  proof (intro allI impI, elim conjE)
    fix st q tx w r w'
    assume "to_sql ref_drv st = Ok q" "gh_valid ref_ghost w" "tx_exec ref_drv tx q w = (r, w')"
    then show "r \<noteq> Panic \<and> gh_valid ref_ghost w' \<and> gh_tables ref_ghost w' = gh_tables ref_ghost w \<and>
        gh_open ref_ghost w' = gh_open ref_ghost w \<and> gh_live ref_ghost w' tx = gh_live ref_ghost w tx \<and>
        (r = Ok () \<longrightarrow> gh_staged ref_ghost w' tx = exec_stmt (gh_coll ref_ghost) st (gh_staged ref_ghost w tx))"
      using ref_tx_exec [of w tx st r w'] by (simp add: ref_drv_def)
  qed
qed (auto simp: ref_drv_def ref_ghost_def)

lemma ref_schema_contract: "schema_contract ref_ghost"
  by (auto simp: schema_contract_def ref_ghost_def ref_coll_def intro: keys_ok_keyed)

lemma ref_pg_contract: "pg_contract ref_drv ref_ghost"
  by (simp add: pg_contract_def ref_exec_contract ref_query_contract ref_pool_contract
      ref_tx_contract ref_schema_contract)

lemma ref_env_ok [simp]: "pgenv_ok (ref_drv, ref_ghost)"
  by (simp add: pgenv_ok_def ref_pg_contract)

lemma ref_world0_valid [simp]: "gh_valid ref_ghost ref_world0"
  by (simp add: ref_ghost_def ref_world0_def keys_ok_def)

lemma ref_gh_pk [simp]: "gh_pk ref_ghost = schema_pk"
  by (simp add: ref_ghost_def)

lemma ref_gh_open [simp]: "gh_open ref_ghost = rw_open"
  by (simp add: ref_ghost_def)

end
