(* ===== verification/RefClients.thy ===== *)
theory RefClients
  imports DurableCassandra DurableDynamo RefEngine
begin

text \<open>
  Two small clients that satisfy the contracts of the gocql session and of the AWS client: a
  list of rows, and a map of items. They show that the contracts can hold and make the
  witnesses of the two stores computable; no theorem about a store depends on them.
\<close>

section \<open>Cassandra\<close>

definition ref_gocql :: "(unit, unit, row list) gocql" where
  "ref_gocql =
     \<lparr>NewCluster = (\<lambda>_. ()), CreateSession = (\<lambda>_ w. (Ok (), w)), CloseSession = (\<lambda>_ w. w),
      query_exec = (\<lambda>_ _ text vs w.
        if text = cas_insert_cql
        then (Ok (), ref_insert (Some ([''persistence_id''], state_updated)) (row_of state_columns vs) w)
        else (Err (ErrExt ''syntax''), w)),
      query_scan = (\<lambda>_ _ text vs w.
        if text = cas_select_cql
        then case filter (\<lambda>r. [r ''persistence_id''] = vs) w of
               [] \<Rightarrow> Err (ErrExt ''not found'') | r # _ \<Rightarrow> Ok (project state_columns r)
        else Err (ErrExt ''syntax'')),
      is_ErrNotFound = (\<lambda>e. e = ErrExt ''not found'')\<rparr>"

definition ref_casghost :: "row list casghost" where
  "ref_casghost = \<lparr>cg_rows = mset, cg_fresh = (\<lambda>_. True), cg_valid = (\<lambda>w. keyed [''persistence_id''] (mset w))\<rparr>"

lemma ref_cas_contract: "cas_contract ref_gocql ref_casghost"
proof -
  have keyed: "keyed [''persistence_id''] (cas_apply vs T)" if "keyed [''persistence_id''] T" for vs T
    unfolding cas_apply_def using that by (intro keyed_insert_row) (auto simp: state_updated_def)
  have find: "find_row [''persistence_id''] [SText p] (mset w) =
      (case filter (\<lambda>r. [r ''persistence_id''] = [SText p]) w of [] \<Rightarrow> None | r # _ \<Rightarrow> Some r)"
    if "keyed [''persistence_id''] (mset w)" for p w
  proof (cases "filter (\<lambda>r. [r ''persistence_id''] = [SText p]) w")
    case Nil
    then show ?thesis by (auto simp: find_row_None_iff filter_empty_conv)
  next
    case (Cons r rs)
    then have "r \<in> set w" "r ''persistence_id'' = SText p" by (auto dest: filter_eq_ConsD)
    then show ?thesis using Cons find_row_Some_iff [OF that] by simp
  qed
  show ?thesis
    unfolding cas_contract_def
    by (auto simp: ref_gocql_def ref_casghost_def scan_error_def find keyed cas_apply_def [symmetric]
        split: list.splits)
qed

section \<open>DynamoDB\<close>

type_synonym ref_items = "string \<Rightarrow> string \<rightharpoonup> attributes"

definition ref_ddb :: "ref_items ddb_client" where
  "ref_ddb =
     \<lparr>PutItem = (\<lambda>t m w. case m ''PersistenceID'' of
          Some (AttrS k) \<Rightarrow> (Ok (), w(t := (w t)(k \<mapsto> m))) | _ \<Rightarrow> (Err (ErrExt ''validation''), w)),
      GetItem = (\<lambda>t key w. case key ''PersistenceID'' of
          Some (AttrS k) \<Rightarrow> Ok (Some (w t k)) | _ \<Rightarrow> Err (ErrExt ''validation''))\<rparr>"

definition ref_ddb_ghost :: "ref_items ddb_ghost" where
  "ref_ddb_ghost = \<lparr>dg_items = (\<lambda>w. w), dg_fresh = (\<lambda>_. True), dg_valid = (\<lambda>_. True)\<rparr>"

lemma ref_ddb_contract: "ddb_contract ref_ddb ref_ddb_ghost"
  by (auto simp: ddb_contract_def ref_ddb_def ref_ddb_ghost_def dg_put_def)

end
