(* ===== verification/DurableProps.thy ===== *)
theory DurableProps
  imports DurableMemory DurablePg DurableCassandra DurableDynamo RefClients
begin

text \<open>
  The properties of the four durable stores, of the configuration and of the connection
  string, each with a witness on the small engines of \<open>RefEngine\<close> and \<open>RefClients\<close>.
\<close>

section \<open>Sample values\<close>

definition wit_config :: config where
  "wit_config = \<lparr>cf_DBHost = ''localhost'', cf_DBPort = 5432, cf_DBName = ''ego'', cf_DBUser = ''ego'',
     cf_DBPassword = ''secret'', cf_DBSchema = ''public'', cf_DBSSLMode = '''', cf_MaxConnections = 0,
     cf_MinConnections = 0, cf_MaxConnectionLifetime = 0, cf_MaxConnIdleTime = 0, cf_HealthCheckPeriod = 0\<rparr>"

definition wit_any :: "byte \<Rightarrow> any" where
  "wit_any b = \<lparr>any_TypeUrl = ''t/A'', any_Value = [b, 0, 255]\<rparr>"

definition wit_state :: "u64 \<Rightarrow> durable_state" where
  "wit_state n = \<lparr>ds_PersistenceId = ''p-1'', ds_VersionNumber = n,
     ds_ResultingState = Some (wit_any (ucast n)), ds_Timestamp = - 5, ds_Shard = 3\<rparr>"

definition wit_other :: durable_state where
  "wit_other = \<lparr>ds_PersistenceId = ''p-2'', ds_VersionNumber = 1,
     ds_ResultingState = Some (wit_any 9), ds_Timestamp = 8, ds_Shard = 3\<rparr>"

definition dp_wit :: "(unit, ref_world) pg_store" where
  "dp_wit = snd (dp_Connect ref_drv (NewDurableStore wit_config ref_world0))"

lemma dp_rely_ref: "dp_rely (ref_protolib, ref_drv, ref_ghost)"
  by (simp add: dp_rely_def ref_protolib_contract schema_pk_def)

lemma dp_inv_wit: "dp_inv (ref_protolib, ref_drv, ref_ghost) dp_wit"
proof -
  have "st_world dp_wit = ref_world0"
    by (simp add: dp_wit_def dp_Connect_def NewDurableStore_def pg_Connect_def ref_drv_def st_pair_def st_put_def)
  then show ?thesis by (simp add: dp_inv_def pg_ready_def st_pair_def)
qed

lemma sql_storable_wit: "sql_storable ref_protolib (wit_state n)" "sql_storable ref_protolib wit_other"
  by (simp_all add: sql_storable_def wit_state_def wit_other_def)

text \<open>A run that code simplification has shown to end well.\<close>

lemma run_of_fst: "fst p = Ok () \<Longrightarrow> p = (Ok (), snd p)"
  by (cases p) simp

lemma res_of_ok: "is_ok r \<Longrightarrow> \<exists>x. r = Ok x"
  by (simp add: is_ok_iff)

section \<open>The Postgres durable store\<close>

text \<open>
  C4. After any sequence of successful writes, a read of an id returns the message of the last
  write to that id, field for field, whatever was stored before.
\<close>

theorem pg_last_write_wins:
  assumes "dp_rely (L, D, G)" "dp_inv (L, D, G) s" "\<forall>d \<in> set (ds @ d # es). sql_storable L d"
    and "\<forall>e \<in> set es. ds_PersistenceId e \<noteq> ds_PersistenceId d"
    and "run_writes (\<lambda>d. dp_WriteState L D (Some d)) (ds @ d # es) s = (Ok (), s')"
    and "dp_GetLatestState L D (ds_PersistenceId d) s' = Ok x"
  shows "x = Some d"
proof -
  have "ds_PersistenceId d \<noteq> []" using assms(3) by (simp add: sql_storable_def)
  then show ?thesis using dp.last_write_wins [of "(L, D, G)" s ds d es s' x] assms by simp
qed

theorem pg_last_write_wins_witness:
  "dp_GetLatestState ref_protolib ref_drv ''p-1'' (snd (run_writes (\<lambda>d. dp_WriteState ref_protolib ref_drv (Some d))
     ([wit_state 1] @ wit_state 18446744073709551615 # [wit_other]) dp_wit)) =
   Ok (Some (wit_state 18446744073709551615))"
proof -
  let ?wr = "\<lambda>d. dp_WriteState ref_protolib ref_drv (Some d)"
    and ?d = "wit_state 18446744073709551615"
  let ?run = "run_writes ?wr ([wit_state 1] @ ?d # [wit_other]) dp_wit"
  have pid: "ds_PersistenceId ?d = ''p-1''" by (simp add: wit_state_def)
  have "fst ?run = Ok ()" by code_simp
  then have run: "?run = (Ok (), snd ?run)" by (rule run_of_fst)
  have "is_ok (dp_GetLatestState ref_protolib ref_drv ''p-1'' (snd ?run))" by code_simp
  then obtain x where x: "dp_GetLatestState ref_protolib ref_drv ''p-1'' (snd ?run) = Ok x"
    using res_of_ok by blast
  have "\<forall>d \<in> set ([wit_state 1] @ ?d # [wit_other]). sql_storable ref_protolib d"
    by (simp add: sql_storable_wit)
  moreover have "\<forall>e \<in> set [wit_other]. ds_PersistenceId e \<noteq> ds_PersistenceId ?d"
    by (simp add: wit_state_def wit_other_def)
  ultimately have "x = Some ?d"
    using pg_last_write_wins [OF dp_rely_ref dp_inv_wit _ _ run] x pid by simp
  then show ?thesis using x by simp
qed

text \<open>
  A write, whether it succeeds, fails or leaves its outcome open, never changes what is
  stored under another id, and what it leaves under its own is the old entry or the new one.
\<close>

theorem pg_write_frame:
  assumes "dp_rely (L, D, G)" "dp_inv (L, D, G) s" "sql_storable L d"
    and "dp_WriteState L D (Some d) s = (r, s')"
  shows "(dp_view (L, D, G) s' = dp_view (L, D, G) s \<or>
          dp_view (L, D, G) s' = (dp_view (L, D, G) s)(ds_PersistenceId d \<mapsto> d)) \<and>
    (r = Ok () \<longrightarrow> dp_view (L, D, G) s' (ds_PersistenceId d) = Some d) \<and> dp_inv (L, D, G) s'"
  using dp.write_ok [of "(L, D, G)" s d s'] dp.write_fail [of "(L, D, G)" s d r s']
    dp.write_inv [of "(L, D, G)" s d r s'] assms
  by (cases "r = Ok ()") auto

theorem pg_write_frame_witness:
  "dp_view (ref_protolib, ref_drv, ref_ghost) (snd (dp_WriteState ref_protolib ref_drv (Some (wit_state 4)) dp_wit)) ''p-1''
     = Some (wit_state 4)"
proof -
  let ?run = "dp_WriteState ref_protolib ref_drv (Some (wit_state 4)) dp_wit"
  have "fst ?run = Ok ()" by code_simp
  from pg_write_frame [OF dp_rely_ref dp_inv_wit sql_storable_wit(1) run_of_fst [OF this]]
  show ?thesis by (simp add: wit_state_def)
qed

text \<open>
  A store that is not connected refuses every write and every read with the documented
  error, and a batch of writes stops at the first without changing anything.
\<close>

theorem pg_not_connected:
  assumes "\<not> st_connected s"
  shows "run_writes (dp_WriteState L D) (m # ms) s = (Err durable_not_connected, s) \<and>
    dp_GetLatestState L D p s = Err durable_not_connected"
  using assms dp.run_writes_dead [of s "(L, D, G)" for G] dp.get_dead [of s "(L, D, G)" for G] by simp

theorem pg_not_connected_witness:
  "dp_GetLatestState ref_protolib ref_drv ''p-1'' (NewDurableStore wit_config ref_world0) = Err durable_not_connected"
proof -
  have "\<not> st_connected (NewDurableStore wit_config ref_world0)" by (simp add: NewDurableStore_def)
  then show ?thesis using pg_not_connected by blast
qed

lemma store_Ping_tables:
  assumes "pgenv_ok env" "pg_ready env (st_pair s)" "st_pool_inv s" "store_Ping (fst env) s = (r, s')"
  shows "pg_ready env (st_pair s') \<and> pg_tables env (st_pair s') = pg_tables env (st_pair s) \<and>
    st_pool_inv s' \<and> r \<noteq> Panic"
proof (cases "st_connected s")
  case False
  then show ?thesis using store_Connect_tables [OF assms(1-3), of r s'] assms(4) by (simp add: store_defs)
next
  case True
  then obtain p where "pg_pool (st_db s) = Some p" using assms(3) by (auto simp: st_pool_inv_def)
  then show ?thesis using assms True pg_pool_facts(2) [OF assms(1), of "st_world s" p]
    by (auto simp: store_defs pg_Ping_def st_pair_def st_put_def pgenv_defs st_pool_inv_def split: prod.splits)
qed

lemma run_calls_tables:
  assumes "pgenv_ok env"
    and "run_calls (dp_Connect (fst env)) (dp_Disconnect (fst env)) (dp_Ping (fst env)) cs s = (r, s')"
    and "pg_ready env (st_pair s)" "st_pool_inv s"
  shows "pg_ready env (st_pair s') \<and> pg_tables env (st_pair s') = pg_tables env (st_pair s) \<and>
    st_pool_inv s' \<and> r \<noteq> Panic"
  using assms(2-4)
proof (induction cs arbitrary: s)
  case (Cons c cs)
  let ?step = "case c of CallConnect \<Rightarrow> dp_Connect (fst env) s | CallDisconnect \<Rightarrow> dp_Disconnect (fst env) s
    | CallPing \<Rightarrow> dp_Ping (fst env) s"
  obtain r1 s1 where step: "?step = (r1, s1)" by (cases ?step)
  have one: "pg_ready env (st_pair s1) \<and> pg_tables env (st_pair s1) = pg_tables env (st_pair s) \<and>
      st_pool_inv s1 \<and> r1 \<noteq> Panic"
    using step store_Connect_tables [OF assms(1) Cons.prems(2,3)] store_Disconnect_tables [OF assms(1) Cons.prems(2,3)]
      store_Ping_tables [OF assms(1) Cons.prems(2,3)]
    by (cases c) (auto simp: dp_store)
  then show ?case using Cons.IH [of s1] Cons.prems(1) step by (cases r1) auto
qed auto

text \<open>
  C28. Connecting, disconnecting and pinging, in any order and for any outcome of the driver,
  never panic and never change a table; after a run that ends well the store is connected
  exactly if the last call was not \<open>Disconnect\<close>.
\<close>

theorem pg_lifecycle:
  assumes "pgenv_ok (D, G)" "pg_ready (D, G) (st_pair s)" "st_pool_inv s"
    and "run_calls (dp_Connect D) (dp_Disconnect D) (dp_Ping D) cs s = (r, s')"
  shows "r \<noteq> Panic \<and> pg_tables (D, G) (st_pair s') = pg_tables (D, G) (st_pair s) \<and>
    (r = Ok () \<longrightarrow> st_connected s' = (if cs = [] then st_connected s else last cs \<noteq> CallDisconnect))"
  using run_calls_tables [of "(D, G)" cs s r s'] dp_life.run_calls_live [of D cs s s'] assms by auto

theorem pg_lifecycle_witness:
  "let s = snd (run_calls (dp_Connect ref_drv) (dp_Disconnect ref_drv) (dp_Ping ref_drv)
                  [CallPing, CallConnect, CallDisconnect, CallPing] (NewDurableStore wit_config ref_world0))
   in st_connected s \<and> pg_tables (ref_drv, ref_ghost) (st_pair s) = (\<lambda>_. {#})"
proof -
  let ?s = "NewDurableStore wit_config ref_world0 :: (unit, ref_world) pg_store"
  let ?run = "run_calls (dp_Connect ref_drv) (dp_Disconnect ref_drv) (dp_Ping ref_drv)
                  [CallPing, CallConnect, CallDisconnect, CallPing] ?s"
  have "fst ?run = Ok ()" by code_simp
  then have run: "?run = (Ok (), snd ?run)" by (rule run_of_fst)
  have "pg_ready (ref_drv, ref_ghost) (st_pair ?s)" "st_pool_inv ?s"
    and "pg_tables (ref_drv, ref_ghost) (st_pair ?s) = (\<lambda>_. {#})"
    by (simp_all add: NewDurableStore_def pg_ready_def st_pair_def st_pool_inv_def pg_tables_def ref_ghost_def
        ref_world0_def keys_ok_def)
  with pg_lifecycle [OF ref_env_ok _ _ run] show ?thesis by (simp add: Let_def del: run_calls.simps)
qed

section \<open>The memory durable store\<close>

text \<open>
  C5. The memory store and the Postgres store agree: after the same successful writes, from
  stores that agreed on an id, reads of that id return the same message.
\<close>

theorem memory_refines_pg:
  assumes "dp_rely (L, D, G)" "dp_inv (L, D, G) s" "mss_inv m" "\<forall>d \<in> set ds. sql_storable L d"
    and "mss_view m p = dp_view (L, D, G) s p" "p \<noteq> []"
    and "run_writes (\<lambda>d. dp_WriteState L D (Some d)) ds s = (Ok (), s')"
    and "run_writes (\<lambda>d. mss_WriteState (Some d)) ds m = (Ok (), m')"
    and "dp_GetLatestState L D p s' = Ok x" "mss_GetLatestState p m' = Ok y"
  shows "x = y"
proof -
  let ?w = "map_of (rev (map (\<lambda>d. (ds_PersistenceId d, d)) ds))"
  have "dp_inv (L, D, G) s'" using dp.run_writes_inv [of "(L, D, G)" s ds s'] assms by simp
  then have "x = dp_view (L, D, G) s' p" using dp.get_ok [of "(L, D, G)" s' p x] assms by simp
  also have "dp_view (L, D, G) s' = dp_view (L, D, G) s ++ ?w"
    using dp.run_writes_view [of "(L, D, G)" s ds s'] assms by simp
  finally have x: "x = (dp_view (L, D, G) s ++ ?w) p" .
  have "mss_inv m'" using mss.run_writes_inv [of m ds m'] assms by simp
  then have "y = mss_view m' p" using mss.get_ok [of m' p y] assms by simp
  also have "mss_view m' = mss_view m ++ ?w"
    using mss.run_writes_view [of m ds m'] assms by simp
  finally show ?thesis using x assms(5) by (simp add: map_add_def split: option.split)
qed

definition mss_wit :: mem_state_store where
  "mss_wit = snd (mss_Connect NewStateStore)"

theorem memory_refines_pg_witness:
  "\<exists>x. dp_GetLatestState ref_protolib ref_drv ''p-1''
        (snd (run_writes (\<lambda>d. dp_WriteState ref_protolib ref_drv (Some d)) [wit_state 1, wit_other, wit_state 2] dp_wit)) = Ok x \<and>
     mss_GetLatestState ''p-1''
        (snd (run_writes (\<lambda>d. mss_WriteState (Some d)) [wit_state 1, wit_other, wit_state 2] mss_wit)) = Ok x"
proof -
  let ?ds = "[wit_state 1, wit_other, wit_state 2]"
  let ?run = "run_writes (\<lambda>d. dp_WriteState ref_protolib ref_drv (Some d)) ?ds dp_wit"
    and ?mem = "run_writes (\<lambda>d. mss_WriteState (Some d)) ?ds mss_wit"
  have "fst ?run = Ok ()" "fst ?mem = Ok ()" by code_simp+
  then have run: "?run = (Ok (), snd ?run)" "?mem = (Ok (), snd ?mem)" by (auto intro: run_of_fst)
  have "is_ok (dp_GetLatestState ref_protolib ref_drv ''p-1'' (snd ?run))"
    "is_ok (mss_GetLatestState ''p-1'' (snd ?mem))" by code_simp+
  then obtain x y where xy: "dp_GetLatestState ref_protolib ref_drv ''p-1'' (snd ?run) = Ok x"
    "mss_GetLatestState ''p-1'' (snd ?mem) = Ok y" using res_of_ok by metis
  have st: "\<forall>d \<in> set ?ds. sql_storable ref_protolib d" by (simp add: sql_storable_wit)
  have m: "mss_inv mss_wit" by (simp add: mss_wit_def mss_inv_Connect mss_inv_NewStateStore)
  have no_row: "find_row ks v {#} = None" for ks v by (simp add: find_row_None_iff)
  have "st_world dp_wit = ref_world0"
    by (simp add: dp_wit_def dp_Connect_def NewDurableStore_def pg_Connect_def ref_drv_def st_pair_def st_put_def)
  then have "dp_view (ref_protolib, ref_drv, ref_ghost) dp_wit ''p-1'' = None"
    by (simp add: dp_view_def state_view_def pg_tables_def st_pair_def ref_ghost_def ref_world0_def no_row)
  then have "mss_view mss_wit ''p-1'' = dp_view (ref_protolib, ref_drv, ref_ghost) dp_wit ''p-1''"
    by (simp add: mss_wit_def store_defs mss_view_def)
  from memory_refines_pg [OF dp_rely_ref dp_inv_wit m st this _ run xy] have "x = y" by simp
  then show ?thesis using xy by blast
qed

text \<open>
  Disconnecting the memory store removes every record: after the next connect each read
  finds nothing, and the store can be used again.
\<close>

theorem memory_disconnect_clears:
  assumes "mss_inv d" "mss_connected d"
  shows "mss_GetLatestState p (snd (mss_Connect (snd (mss_Disconnect d)))) = Ok None \<and>
    mss_inv (snd (mss_Connect (snd (mss_Disconnect d))))"
  using assms mss_inv_Connect [OF mss_inv_Disconnect [OF assms(1)]]
  by (simp add: store_defs range_delete_all)

theorem memory_disconnect_clears_witness:
  "mss_GetLatestState ''p-1'' (snd (mss_WriteState (Some (wit_state 2)) mss_wit)) = Ok (Some (wit_state 2)) \<and>
   mss_GetLatestState ''p-1'' (snd (mss_Connect (snd (mss_Disconnect (snd (mss_WriteState (Some (wit_state 2)) mss_wit)))))) = Ok None"
proof -
  let ?d = "snd (mss_WriteState (Some (wit_state 2)) mss_wit)"
  have "mss_inv ?d" by (simp add: mss_wit_def mss_inv_WriteState mss_inv_Connect mss_inv_NewStateStore)
  moreover have "mss_connected ?d" by code_simp
  ultimately have "mss_GetLatestState ''p-1'' (snd (mss_Connect (snd (mss_Disconnect ?d)))) = Ok None"
    using memory_disconnect_clears by blast
  moreover have "mss_GetLatestState ''p-1'' ?d = Ok (Some (wit_state 2))" by code_simp
  ultimately show ?thesis by blast
qed

section \<open>The Cassandra durable store\<close>

text \<open>
  C25. Where reads are fresh, a read after any sequence of successful writes to the Cassandra
  store returns the message of the last write to its id.
\<close>

theorem cassandra_last_write_wins:
  assumes "dc_rely (L, D, G)" "dc_inv (L, D, G) s" "\<forall>d \<in> set (ds @ d # es). sql_storable L d"
    and "\<forall>e \<in> set es. ds_PersistenceId e \<noteq> ds_PersistenceId d"
    and "run_writes (\<lambda>d. dc_WriteState L D (Some d)) (ds @ d # es) s = (Ok (), s')"
    and "dc_fresh (L, D, G) s'"
    and "dc_GetLatestState L D (ds_PersistenceId d) s' = Ok x"
  shows "x = Some d"
proof -
  have "ds_PersistenceId d \<noteq> []" using assms(3) by (simp add: sql_storable_def)
  then show ?thesis using dc.last_write_wins [of "(L, D, G)" s ds d es s' x] assms by simp
qed

definition wit_cas_config :: cas_config where
  "wit_cas_config = \<lparr>cc_Cluster = ''127.0.0.1'', cc_Keyspace = ''ego'', cc_Consistency = 4\<rparr>"

definition dc_wit :: "(unit, unit, row list) durable_cas" where
  "dc_wit = snd (dc_Connect ref_gocql (cas_NewDurableStore ref_gocql wit_cas_config []))"

theorem cassandra_last_write_wins_witness:
  "dc_GetLatestState ref_protolib ref_gocql ''p-1'' (snd (run_writes (\<lambda>d. dc_WriteState ref_protolib ref_gocql (Some d))
     ([wit_state 1] @ wit_state 7 # [wit_other]) dc_wit)) = Ok (Some (wit_state 7))"
proof -
  let ?run = "run_writes (\<lambda>d. dc_WriteState ref_protolib ref_gocql (Some d)) ([wit_state 1] @ wit_state 7 # [wit_other]) dc_wit"
  let ?env = "(ref_protolib, ref_gocql, ref_casghost)"
  have pid: "ds_PersistenceId (wit_state 7) = ''p-1''" by (simp add: wit_state_def)
  have "fst ?run = Ok ()" by code_simp
  then have run: "?run = (Ok (), snd ?run)" by (rule run_of_fst)
  have "is_ok (dc_GetLatestState ref_protolib ref_gocql ''p-1'' (snd ?run))" by code_simp
  then obtain x where x: "dc_GetLatestState ref_protolib ref_gocql ''p-1'' (snd ?run) = Ok x"
    using res_of_ok by blast
  have rely: "dc_rely ?env" by (simp add: dc_rely_def ref_protolib_contract ref_cas_contract)
  have inv: "dc_inv ?env dc_wit"
    by (simp add: dc_inv_def ref_casghost_def dc_wit_def dc_Connect_def cas_Connect_def ref_gocql_def
        cas_NewDurableStore_def dc_pair_def dc_put_def newCassandra_def keyed_def)
  have st: "\<forall>d \<in> set ([wit_state 1] @ wit_state 7 # [wit_other]). sql_storable ref_protolib d"
    by (simp add: sql_storable_wit)
  have other: "\<forall>e \<in> set [wit_other]. ds_PersistenceId e \<noteq> ds_PersistenceId (wit_state 7)"
    by (simp add: wit_state_def wit_other_def)
  have "dc_fresh ?env (snd ?run)" by (simp add: dc_fresh_def ref_casghost_def)
  from cassandra_last_write_wins [OF rely inv st other run this] x pid have "x = Some (wit_state 7)" by simp
  then show ?thesis using x by simp
qed

lemma dc_session_inv_run:
  "dc_session_inv s \<Longrightarrow> dc_session_inv (snd (run_calls (dc_Connect D) (dc_Disconnect D) (dc_Ping D) cs s))"
proof (induction cs arbitrary: s)
  case (Cons c cs)
  let ?step = "case c of CallConnect \<Rightarrow> dc_Connect D s | CallDisconnect \<Rightarrow> dc_Disconnect D s | CallPing \<Rightarrow> dc_Ping D s"
  obtain r1 s1 where step: "?step = (r1, s1)" by (cases ?step)
  have "dc_session_inv (snd ?step)"
    using dc_session_inv_Connect [OF Cons.prems] dc_session_inv_Disconnect [OF Cons.prems]
      dc_session_inv_Ping [OF Cons.prems] by (cases c) auto
  then have "dc_session_inv s1" by (simp add: step)
  then show ?case using Cons.IH [of s1] step by (cases r1) auto
qed simp

text \<open>
  In every history of lifecycle calls, whatever the driver answers, a Cassandra store that
  is connected has a session: \<open>Disconnect\<close> then never panics, and succeeds.
\<close>

theorem cassandra_session_safe:
  "let s = snd (run_calls (dc_Connect D) (dc_Disconnect D) (dc_Ping D) cs (cas_NewDurableStore D config w))
   in dc_session_inv s \<and> fst (dc_Disconnect D s) = Ok ()"
proof -
  note inv = dc_session_inv_run [OF dc_session_inv_New, of D cs D config w]
  then show ?thesis using dc_Disconnect_Ok [OF inv, of D] by (simp add: Let_def)
qed

text \<open>
  C39. Unlike the other connected stores, the Cassandra store does not look at its connection
  flag: before the first \<open>Connect\<close> a write of a valid message and every read panic on the nil
  session, where the other stores return an error.
\<close>

theorem cassandra_unconnected_panics:
  assumes "marshals L (ds_ResultingState d)"
  shows "fst (dc_WriteState L D (Some d) (cas_NewDurableStore D config w)) = Panic \<and>
    dc_GetLatestState L D p (cas_NewDurableStore D config w) = Panic"
proof -
  obtain bs where "marshal L (ds_ResultingState d) = (bs, None)"
    using assms by (metis marshals_def prod.collapse)
  then show ?thesis
    by (simp add: dc_WriteState_def dc_GetLatestState_def cas_WriteState_def cas_GetLatestState_def
        cas_NewDurableStore_def newCassandra_def dc_pair_def Let_def)
qed

theorem cassandra_unconnected_panics_witness:
  "fst (dc_WriteState ref_protolib ref_gocql (Some (wit_state 1)) (cas_NewDurableStore ref_gocql wit_cas_config [])) = Panic"
  by (rule conjunct1 [OF cassandra_unconnected_panics [OF ref_protolib_marshals]])

section \<open>The DynamoDB durable store\<close>

text \<open>
  C23. An item put into the table is read back field for field: every \<open>uint64\<close> and every
  \<open>int64\<close> survives its decimal text.
\<close>

theorem dynamo_item_roundtrip:
  "item_of_attributes (it_PersistenceID x) (attributes_of_item x) = Ok x"
  by (rule item_roundtrip)

text \<open>
  C24. Where reads are fresh, a read after successful writes to the DynamoDB store returns the
  last message written to its id, but with version number 0 and shard 0: \<open>ToDurableState\<close>
  of \<open>item.go\<close> does not copy them.
\<close>

theorem dynamo_last_write_wins:
  assumes "dy_rely (L, C, G)" "dy_inv (L, C, G) s" "\<forall>d \<in> set (ds @ d # es). dy_storable L d"
    and "ds_PersistenceId d \<noteq> []" "\<forall>e \<in> set es. ds_PersistenceId e \<noteq> ds_PersistenceId d"
    and "run_writes (\<lambda>d. dy_WriteState L C (Some d)) (ds @ d # es) s = (Ok (), s')"
    and "dy_fresh (L, C, G) s'"
    and "dy_GetLatestState L C (ds_PersistenceId d) s' = Ok x"
  shows "x = Some (d\<lparr>ds_VersionNumber := 0, ds_Shard := 0\<rparr>)"
  using dy.last_write_wins [of "(L, C, G)" s ds d es s' x] assms by (simp add: dy_obs_def)

theorem dynamo_last_write_wins_witness:
  "dy_GetLatestState ref_protolib ref_ddb ''p-1'' (snd (run_writes (\<lambda>d. dy_WriteState ref_protolib ref_ddb (Some d))
     ([wit_state 1] @ wit_state 7 # [wit_other]) (dy_NewDurableStore ''states'' (\<lambda>_ _. None)))) =
   Ok (Some ((wit_state 7)\<lparr>ds_VersionNumber := 0, ds_Shard := 0\<rparr>))"
proof -
  let ?s = "dy_NewDurableStore ''states'' (\<lambda>_ _. None)"
  let ?run = "run_writes (\<lambda>d. dy_WriteState ref_protolib ref_ddb (Some d)) ([wit_state 1] @ wit_state 7 # [wit_other]) ?s"
  let ?env = "(ref_protolib, ref_ddb, ref_ddb_ghost)"
  have pid: "ds_PersistenceId (wit_state 7) = ''p-1''" by (simp add: wit_state_def)
  have "fst ?run = Ok ()" by code_simp
  then have run: "?run = (Ok (), snd ?run)" by (rule run_of_fst)
  have "is_ok (dy_GetLatestState ref_protolib ref_ddb ''p-1'' (snd ?run))" by code_simp
  then obtain x where x: "dy_GetLatestState ref_protolib ref_ddb ''p-1'' (snd ?run) = Ok x"
    using res_of_ok by blast
  have rely: "dy_rely ?env" by (simp add: dy_rely_def ref_protolib_contract ref_ddb_contract)
  have inv: "dy_inv ?env s" "dy_fresh ?env s" for s by (simp_all add: dy_inv_def dy_fresh_def ref_ddb_ghost_def)
  have st: "\<forall>d \<in> set ([wit_state 1] @ wit_state 7 # [wit_other]). dy_storable ref_protolib d"
    by (simp add: dy_storable_def wit_state_def wit_other_def)
  have other: "ds_PersistenceId (wit_state 7) \<noteq> []" "\<forall>e \<in> set [wit_other]. ds_PersistenceId e \<noteq> ds_PersistenceId (wit_state 7)"
    by (simp_all add: wit_state_def wit_other_def)
  from dynamo_last_write_wins [OF rely inv(1) st other run inv(2)] x pid
  have "x = Some ((wit_state 7)\<lparr>ds_VersionNumber := 0, ds_Shard := 0\<rparr>)" by simp
  then show ?thesis using x by simp
qed

section \<open>Configuration\<close>

lemma sanitize_fields:
  "dc_DBSSLMode (sanitize c) = (if dc_DBSSLMode c = '''' then ''disable'' else dc_DBSSLMode c)"
  "dc_MaxConnections (sanitize c) = (if dc_MaxConnections c = 0 then 4 else dc_MaxConnections c)"
  "dc_MinConnections (sanitize c) = dc_MinConnections c"
  "dc_MaxConnectionLifetime (sanitize c) = (if dc_MaxConnectionLifetime c = 0 then Hour else dc_MaxConnectionLifetime c)"
  "dc_MaxConnIdleTime (sanitize c) = (if dc_MaxConnIdleTime c = 0 then 30 * Minute else dc_MaxConnIdleTime c)"
  "dc_HealthCheckPeriod (sanitize c) = (if dc_HealthCheckPeriod c = 0 then Minute else dc_HealthCheckPeriod c)"
  "dc_DBPassword (sanitize c) = dc_DBPassword c"
  by (simp_all add: sanitize_def Let_def)

lemma uint_of_positive:
  assumes "0 < sint (n :: i64)"
  shows "uint n = sint n"
proof -
  have "sint n < 2 ^ 63" using sint_lt [of n] by simp
  then show ?thesis using assms by (simp add: uint_sint take_bit_eq_mod)
qed

lemma sanitize_idem:
  "sanitize (sanitize c) = sanitize c"
proof -
  have "sanitize d = d" if "dc_DBSSLMode d \<noteq> ''''" "dc_MaxConnections d \<noteq> 0" "dc_MaxConnectionLifetime d \<noteq> 0"
    "dc_MaxConnIdleTime d \<noteq> 0" "dc_HealthCheckPeriod d \<noteq> 0" for d
    using that by (simp add: sanitize_def)
  then show ?thesis by (simp add: sanitize_fields Hour_def Minute_def)
qed

text \<open>
  The configuration of a Postgres store after its defaults are filled in: no setting with a
  default is left empty, a setting that was given is kept, and filling in again changes nothing.
\<close>

theorem config_defaults:
  "let c = newConfig config in
     dc_DBSSLMode c = (if cf_DBSSLMode config = '''' then ''disable'' else cf_DBSSLMode config) \<and>
     dc_MaxConnections c = (if cf_MaxConnections config = 0 then 4 else cf_MaxConnections config) \<and>
     dc_MinConnections c = cf_MinConnections config \<and>
     dc_MaxConnectionLifetime c \<noteq> 0 \<and> dc_MaxConnIdleTime c \<noteq> 0 \<and> dc_HealthCheckPeriod c \<noteq> 0 \<and>
     dc_DBPassword c = cf_DBPassword config \<and> sanitize c = c"
  by (simp add: newConfig_def sanitize_idem sanitize_fields Hour_def Minute_def)

text \<open>
  The pool is limited to the configured number of connections as long as that number fits
  the \<open>int32\<close> it is converted to; beyond, the conversion keeps its low 32 bits only.
\<close>

theorem pool_size_bounds:
  assumes "0 < sint (cf_MaxConnections config)"
  shows "uint (po_MaxConns (pg_settings (newConfig config))) = sint (cf_MaxConnections config) mod 2 ^ 32 \<and>
    (sint (cf_MaxConnections config) < 2 ^ 31 \<longrightarrow>
       sint (po_MaxConns (pg_settings (newConfig config))) = sint (cf_MaxConnections config))"
proof -
  let ?n = "cf_MaxConnections config"
  have "?n \<noteq> 0" using assms by auto
  then have po: "po_MaxConns (pg_settings (newConfig config)) = ucast ?n"
    by (simp add: pg_settings_def newConfig_def sanitize_fields)
  have u: "uint ?n = sint ?n" by (rule uint_of_positive [OF assms])
  have low: "uint (ucast ?n :: 32 word) = uint ?n mod 2 ^ 32" by (simp add: unsigned_ucast_eq take_bit_eq_mod)
  have "sint (ucast ?n :: 32 word) = uint ?n" if "uint ?n < 2 ^ 31"
  proof -
    have "uint (ucast ?n :: 32 word) = uint ?n" using that uint_ge_0 [of ?n] by (simp add: low)
    moreover have "- (2 ^ 31) \<le> uint ?n" by (rule order.trans [OF _ uint_ge_0]) simp
    then have "signed_take_bit 31 (uint ?n) = uint ?n" using that by (rule signed_take_bit_int_eq_self)
    ultimately show ?thesis by (simp add: sint_uint)
  qed
  then show ?thesis unfolding po u [symmetric] by (simp only: low) simp
qed

theorem pool_size_bounds_witness:
  "sint (po_MaxConns (pg_settings (newConfig (wit_config\<lparr>cf_MaxConnections := 20\<rparr>)))) = 20 \<and>
   uint (po_MaxConns (pg_settings (newConfig (wit_config\<lparr>cf_MaxConnections := 4294967296\<rparr>)))) = 0"
  using pool_size_bounds [of "wit_config\<lparr>cf_MaxConnections := 20\<rparr>"]
    pool_size_bounds [of "wit_config\<lparr>cf_MaxConnections := 4294967296\<rparr>"] by simp

text \<open>
  The values of the connection string are not quoted: a password that contains a space and a
  keyword sets the keyword. Two different configurations have the same connection string, so a
  password can move the store to another schema.
\<close>

theorem connection_string_injection:
  assumes "p \<noteq> ''''" "schema \<noteq> ''''"
  shows "createConnectionString (c\<lparr>dc_DBPassword := p @ '' search_path='' @ schema, dc_DBSchema := ''''\<rparr>) =
    createConnectionString (c\<lparr>dc_DBPassword := p, dc_DBSchema := schema\<rparr>)"
  using assms by (simp add: createConnectionString_def Let_def)

theorem connection_string_injection_witness:
  "createConnectionString ((newConfig wit_config)\<lparr>dc_DBPassword := ''pw search_path=other'', dc_DBSchema := ''''\<rparr>) =
   createConnectionString ((newConfig wit_config)\<lparr>dc_DBPassword := ''pw'', dc_DBSchema := ''other''\<rparr>)"
  using connection_string_injection [of "''pw''" "''other''" "newConfig wit_config"] by simp

end
