(* ===== verification/DurableMemoryRace.thy ===== *)
theory DurableMemoryRace
  imports DurableMemory
begin

text \<open>
  Goroutines that call one memory durable store at the same time, one access per step: loading
  and storing the flag, \<open>Store\<close>, \<open>Load\<close> and \<open>Delete\<close> of the \<open>sync.Map\<close>. The \<open>Range\<close> of
  \<open>Disconnect\<close> is not one step: it works on no snapshot. It visits every key that is there from
  its start until the visit, may visit a key that is stored meanwhile, and visits none twice.
\<close>

section \<open>The steps\<close>

datatype dr_call = DConnect | DDisconnect | DPing | DWrite "durable_state option" | DRead string

datatype dr_result = DUnit "unit res" | DState "durable_state option res"

text \<open>
  Where a goroutine stands: the call was entered, the flag let it pass, it is in \<open>Range\<close> with the
  keys visited and those it has yet to visit, the range is over.
\<close>

datatype dr_pc = DIdle | DEntered dr_call | DChecked dr_call | DRange "string list" "string list" | DCleared

datatype dr_event = DCall dr_call | DGo | DVisit string

record dr_state =
  dr_store :: mem_state_store
  dr_pc :: "nat \<Rightarrow> dr_pc"
  dr_done :: "(nat \<times> dr_call \<times> dr_result) list"

definition dr_init :: "mem_state_store \<Rightarrow> dr_state" where
  "dr_init d = \<lparr>dr_store = d, dr_pc = (\<lambda>_. DIdle), dr_done = []\<rparr>"

definition dr_goto :: "nat \<Rightarrow> dr_pc \<Rightarrow> dr_state \<Rightarrow> dr_state" where
  "dr_goto i pc s = s\<lparr>dr_pc := (dr_pc s)(i := pc)\<rparr>"

definition dr_return :: "nat \<Rightarrow> dr_call \<Rightarrow> dr_result \<Rightarrow> dr_state \<Rightarrow> dr_state" where
  "dr_return i c r s = (dr_goto i DIdle s)\<lparr>dr_done := dr_done s @ [(i, c, r)]\<rparr>"

definition dr_keys :: "dr_state \<Rightarrow> string list" where
  "dr_keys s = remdups (map fst (mss_db (dr_store s)))"

text \<open>Loading the flag. A \<open>Ping\<close> that has to connect is a call of \<open>Connect\<close> from then on.\<close>

definition dr_check :: "nat \<Rightarrow> dr_call \<Rightarrow> dr_state \<Rightarrow> dr_state" where
  "dr_check i c s =
     (let connected = mss_connected (dr_store s);
          err = ErrNew ''durable store is not connected''
      in case c of
           DConnect \<Rightarrow> if connected then dr_return i c (DUnit (Ok ())) s else dr_goto i (DChecked c) s
         | DDisconnect \<Rightarrow> if \<not> connected then dr_return i c (DUnit (Ok ())) s else dr_goto i (DChecked c) s
         | DPing \<Rightarrow> if \<not> connected then dr_goto i (DEntered DConnect) s else dr_return i c (DUnit (Ok ())) s
         | DWrite _ \<Rightarrow> if \<not> connected then dr_return i c (DUnit (Err err)) s else dr_goto i (DChecked c) s
         | DRead _ \<Rightarrow> if \<not> connected then dr_return i c (DState (Err err)) s else dr_goto i (DChecked c) s)"

text \<open>The access after it: storing the flag, the start of \<open>Range\<close>, \<open>Store\<close> or \<open>Load\<close>.\<close>

definition dr_act :: "nat \<Rightarrow> dr_call \<Rightarrow> dr_state \<Rightarrow> dr_state option" where
  "dr_act i c s =
     (let d = dr_store s in
      case c of
        DConnect \<Rightarrow> Some (dr_return i c (DUnit (Ok ())) (s\<lparr>dr_store := d\<lparr>mss_connected := True\<rparr>\<rparr>))
      | DDisconnect \<Rightarrow> Some (dr_goto i (DRange [] (dr_keys s)) s)
      | DPing \<Rightarrow> None
      | DWrite state \<Rightarrow>
          Some (dr_return i c (DUnit (Ok ()))
            (s\<lparr>dr_store := d\<lparr>mss_db := AList.update (ds_PersistenceId (or_zero zero_durable_state state))
                                  (Boxed state) (mss_db d)\<rparr>\<rparr>))
      | DRead persistenceID \<Rightarrow>
          Some (dr_return i c
            (DState (case map_of (mss_db d) persistenceID of
                       None \<Rightarrow> Ok None
                     | Some v \<Rightarrow> (case v of Boxed state \<Rightarrow> Ok state | Foreign \<Rightarrow> Panic))) s))"

text \<open>
  A visit deletes the key. Whoever ranges over the map need not visit it any more: the key has
  not been there all the time.
\<close>

definition dr_forget :: "string \<Rightarrow> dr_pc \<Rightarrow> dr_pc" where
  "dr_forget k pc = (case pc of DRange visited pending \<Rightarrow> DRange visited (removeAll k pending) | _ \<Rightarrow> pc)"

definition dr_visit :: "nat \<Rightarrow> string \<Rightarrow> string list \<Rightarrow> string list \<Rightarrow> dr_state \<Rightarrow> dr_state option" where
  "dr_visit i k visited pending s =
     (if k \<in> set visited \<or> k \<notin> set (dr_keys s) then None
      else let s1 = dr_goto i (DRange (k # visited) pending) s;
               d = dr_store s
           in Some (s1\<lparr>dr_store := d\<lparr>mss_db := AList.delete k (mss_db d)\<rparr>, dr_pc := (\<lambda>j. dr_forget k (dr_pc s1 j))\<rparr>))"

text \<open>One step of goroutine \<open>i\<close>, \<open>None\<close> where it cannot take it. \<open>Range\<close> ends when nothing is left to visit.\<close>

definition dr_exec :: "nat \<Rightarrow> dr_event \<Rightarrow> dr_state \<Rightarrow> dr_state option" where
  "dr_exec i x s =
     (case x of
        DCall c \<Rightarrow> (case dr_pc s i of DIdle \<Rightarrow> Some (dr_goto i (DEntered c) s) | _ \<Rightarrow> None)
      | DVisit k \<Rightarrow> (case dr_pc s i of DRange visited pending \<Rightarrow> dr_visit i k visited pending s | _ \<Rightarrow> None)
      | DGo \<Rightarrow>
          (case dr_pc s i of
             DIdle \<Rightarrow> None
           | DEntered c \<Rightarrow> Some (dr_check i c s)
           | DChecked c \<Rightarrow> dr_act i c s
           | DRange visited pending \<Rightarrow> if pending = [] then Some (dr_goto i DCleared s) else None
           | DCleared \<Rightarrow>
               Some (dr_return i DDisconnect (DUnit (Ok ())) (s\<lparr>dr_store := (dr_store s)\<lparr>mss_connected := False\<rparr>\<rparr>))))"

fun dr_run :: "(nat \<times> dr_event) list \<Rightarrow> dr_state \<Rightarrow> dr_state option" where
  "dr_run [] s = Some s"
| "dr_run ((i, x) # es) s = (case dr_exec i x s of None \<Rightarrow> None | Some s' \<Rightarrow> dr_run es s')"

text \<open>A call of the store by itself, and calls with their results one after the other.\<close>

definition mss_run :: "dr_call \<Rightarrow> mem_state_store \<Rightarrow> dr_result \<times> mem_state_store" where
  "mss_run c d =
     (case c of
        DConnect \<Rightarrow> apfst DUnit (mss_Connect d)
      | DDisconnect \<Rightarrow> apfst DUnit (mss_Disconnect d)
      | DPing \<Rightarrow> apfst DUnit (mss_Ping d)
      | DWrite state \<Rightarrow> apfst DUnit (mss_WriteState state d)
      | DRead p \<Rightarrow> (DState (mss_GetLatestState p d), d))"

fun mss_trace :: "(nat \<times> dr_call \<times> dr_result) list \<Rightarrow> mem_state_store \<Rightarrow> mem_state_store option" where
  "mss_trace [] d = Some d"
| "mss_trace ((i, c, r) # cs) d = (case mss_run c d of (r', d') \<Rightarrow> if r' = r then mss_trace cs d' else None)"

lemma mss_trace_append:
  "mss_trace (cs @ ds) d = (case mss_trace cs d of None \<Rightarrow> None | Some d' \<Rightarrow> mss_trace ds d')"
  by (induction cs d rule: mss_trace.induct) (auto split: prod.splits)

lemma dr_simps [simp]:
  "dr_store (dr_goto i pc s) = dr_store s" "dr_pc (dr_goto i pc s) = (dr_pc s)(i := pc)" "dr_done (dr_goto i pc s) = dr_done s"
  "dr_store (dr_return i c r s) = dr_store s" "dr_pc (dr_return i c r s) = (dr_pc s)(i := DIdle)"
  "dr_done (dr_return i c r s) = dr_done s @ [(i, c, r)]"
  "dr_store (dr_init d) = d" "dr_pc (dr_init d) = (\<lambda>_. DIdle)" "dr_done (dr_init d) = []"
  by (simp_all add: dr_goto_def dr_return_def dr_init_def)

section \<open>Without a disconnect\<close>

text \<open>
  The store is the one the returned calls leave, and who has passed the flag relies on it: it
  is only ever set.
\<close>

fun dr_pc_inv :: "dr_pc \<Rightarrow> dr_state \<Rightarrow> bool" where
  "dr_pc_inv DIdle s \<longleftrightarrow> True"
| "dr_pc_inv (DEntered c) s \<longleftrightarrow> c \<noteq> DDisconnect"
| "dr_pc_inv (DChecked c) s \<longleftrightarrow> c \<noteq> DDisconnect \<and> c \<noteq> DPing \<and> (c \<noteq> DConnect \<longrightarrow> mss_connected (dr_store s))"
| "dr_pc_inv (DRange visited pending) s \<longleftrightarrow> False"
| "dr_pc_inv DCleared s \<longleftrightarrow> False"

definition dr_inv :: "mem_state_store \<Rightarrow> dr_state \<Rightarrow> bool" where
  "dr_inv d0 s \<longleftrightarrow> mss_trace (dr_done s) d0 = Some (dr_store s) \<and> (\<forall>i. dr_pc_inv (dr_pc s i) s)"

lemma dr_inv_init: "dr_inv d (dr_init d)"
  by (simp add: dr_inv_def)

lemma dr_pc_inv_mono:
  "dr_pc_inv pc s \<Longrightarrow> mss_connected (dr_store s) \<longrightarrow> mss_connected (dr_store s') \<Longrightarrow> dr_pc_inv pc s'"
  by (cases pc) auto

text \<open>A step moves one goroutine and may make one call, which acts on the store as it is.\<close>

lemma dr_inv_step:
  assumes "dr_inv d0 s" "dr_pc s' = (dr_pc s)(i := pc)" "dr_pc_inv pc s'"
    and "dr_done s' = dr_done s \<and> dr_store s' = dr_store s \<or>
      (\<exists>c r. dr_done s' = dr_done s @ [(i, c, r)] \<and> mss_run c (dr_store s) = (r, dr_store s'))"
    and "mss_connected (dr_store s) \<longrightarrow> mss_connected (dr_store s')"
  shows "dr_inv d0 s'"
proof -
  have "dr_pc_inv (dr_pc s' j) s'" for j
    using assms(1-3,5) dr_pc_inv_mono by (cases "j = i") (auto simp: dr_inv_def)
  moreover have "mss_trace (dr_done s') d0 = Some (dr_store s')"
    using assms(1,4) by (auto simp: dr_inv_def mss_trace_append)
  ultimately show ?thesis by (simp add: dr_inv_def)
qed

lemma dr_goto_inv:
  assumes "dr_inv d0 s" "dr_pc_inv pc (dr_goto i pc s)"
  shows "dr_inv d0 (dr_goto i pc s)"
  by (rule dr_inv_step [OF assms(1) dr_simps(2) assms(2)]) simp_all

lemma dr_return_inv:
  assumes "dr_inv d0 s" "mss_run c (dr_store s) = (r, d)" "mss_connected (dr_store s) \<longrightarrow> mss_connected d"
  shows "dr_inv d0 (dr_return i c r (s\<lparr>dr_store := d\<rparr>))"
  by (rule dr_inv_step [OF assms(1), of _ i DIdle]) (use assms(2,3) in simp_all)

lemma dr_check_inv:
  assumes "dr_inv d0 s" "c \<noteq> DDisconnect"
  shows "dr_inv d0 (dr_check i c s)"
proof -
  have ret: "dr_inv d0 (dr_return i c r s)" if "mss_run c (dr_store s) = (r, dr_store s)" for r
    using dr_return_inv [OF assms(1) that, of i] by simp
  show ?thesis
    using assms ret [of "DUnit (Ok ())"] ret [of "DUnit (Err (ErrNew ''durable store is not connected''))"]
      ret [of "DState (Err (ErrNew ''durable store is not connected''))"]
    by (cases c) (simp_all add: dr_check_def Let_def mss_run_def mss_defs dr_goto_inv)
qed

lemma dr_act_inv:
  assumes "dr_inv d0 s" "dr_act i c s = Some s'" "dr_pc_inv (DChecked c) s"
  shows "dr_inv d0 s'"
proof -
  have "\<exists>r d. s' = dr_return i c r (s\<lparr>dr_store := d\<rparr>) \<and> mss_run c (dr_store s) = (r, d) \<and>
      (mss_connected (dr_store s) \<longrightarrow> mss_connected d)"
  proof (cases c)
    case (DRead p)
    then show ?thesis using assms(2,3)
      by (intro exI [of _ "DState (mss_GetLatestState p (dr_store s))"] exI [of _ "dr_store s"])
        (auto simp: dr_act_def Let_def mss_run_def mss_GetLatestState_def)
  next
    case (DWrite state)
    then show ?thesis using assms(2,3) by (auto simp: dr_act_def Let_def mss_run_def mss_WriteState_def)
  next
    case DConnect
    have "mss_connected (dr_store s) \<Longrightarrow> (dr_store s)\<lparr>mss_connected := True\<rparr> = dr_store s" by simp
    then show ?thesis using assms(2) DConnect
      by (intro exI [of _ "DUnit (Ok ())"] exI [of _ "(dr_store s)\<lparr>mss_connected := True\<rparr>"])
        (auto simp: dr_act_def Let_def mss_run_def mss_Connect_def)
  qed (use assms(3) in simp_all)
  then show ?thesis using dr_return_inv [OF assms(1)] by blast
qed

lemma dr_exec_inv:
  assumes "dr_inv d0 s" "x \<noteq> DCall DDisconnect" "dr_exec i x s = Some s'"
  shows "dr_inv d0 s'"
proof -
  have inv: "dr_pc_inv (dr_pc s i) s" using assms(1) by (simp add: dr_inv_def)
  show ?thesis
  proof (cases x)
    case (DCall c)
    then have "s' = dr_goto i (DEntered c) s" using assms(3) by (auto simp: dr_exec_def split: dr_pc.splits)
    then show ?thesis using assms(2) DCall dr_goto_inv [OF assms(1)] by simp
  next
    case (DVisit k)
    then show ?thesis using assms(3) inv by (auto simp: dr_exec_def split: dr_pc.splits)
  next
    case DGo
    then show ?thesis using assms(3) inv dr_check_inv [OF assms(1)] dr_act_inv [OF assms(1)]
      by (cases "dr_pc s i") (auto simp: dr_exec_def)
  qed
qed

lemma dr_run_inv:
  "dr_inv d0 s \<Longrightarrow> \<forall>(i, x) \<in> set es. x \<noteq> DCall DDisconnect \<Longrightarrow> dr_run es s = Some s' \<Longrightarrow> dr_inv d0 s'"
proof (induction es arbitrary: s)
  case (Cons e es)
  obtain i x where e: "e = (i, x)" by (cases e)
  then obtain t where "dr_exec i x s = Some t" "dr_run es t = Some s'"
    using Cons.prems(3) by (auto split: option.splits)
  then show ?case using Cons.IH dr_exec_inv [OF Cons.prems(1)] Cons.prems(2) e by auto
qed simp

section \<open>With a disconnect\<close>

lemma dr_run_append:
  "dr_run (es @ fs) s = (case dr_run es s of None \<Rightarrow> None | Some s' \<Rightarrow> dr_run fs s')"
  by (induction es s rule: dr_run.induct) (auto split: option.splits)

lemma keys_delete: "remdups (map fst (AList.delete k db)) = filter (\<lambda>x. x \<noteq> k) (remdups (map fst db))"
proof -
  have "map fst (AList.delete k db) = filter (\<lambda>x. x \<noteq> k) (map fst db)" by (induction db) auto
  then show ?thesis by (simp add: remdups_filter)
qed

text \<open>The visits of an undisturbed \<open>Range\<close> empty the map.\<close>

lemma dr_run_visits:
  assumes "dr_pc s i = DRange visited ks" "dr_keys s = ks" "set visited \<inter> set ks = {}" "distinct ks"
    and "\<forall>j. j \<noteq> i \<longrightarrow> (\<forall>v p. dr_pc s j \<noteq> DRange v p)"
  shows "\<exists>s' v. dr_run (map (\<lambda>k. (i, DVisit k)) ks) s = Some s' \<and> dr_pc s' = (dr_pc s)(i := DRange v []) \<and>
    dr_store s' = (dr_store s)\<lparr>mss_db := []\<rparr> \<and> dr_done s' = dr_done s"
  using assms
proof (induction ks arbitrary: s visited)
  case Nil
  then have "mss_db (dr_store s) = []" by (simp add: dr_keys_def)
  then have "(dr_store s)\<lparr>mss_db := []\<rparr> = dr_store s" by simp
  then show ?case using Nil.prems(1) by (intro exI [of _ s] exI [of _ visited]) auto
next
  case (Cons k ks)
  let ?d = "(dr_store s)\<lparr>mss_db := AList.delete k (mss_db (dr_store s))\<rparr>"
  let ?t = "s\<lparr>dr_store := ?d, dr_pc := (dr_pc s)(i := DRange (k # visited) ks)\<rparr>"
  have "dr_forget k (dr_pc s j) = dr_pc s j" if "j \<noteq> i" for j
    using Cons.prems(5) that by (auto simp: dr_forget_def split: dr_pc.split)
  then have pcs: "(\<lambda>j. dr_forget k (((dr_pc s)(i := DRange (k # visited) (k # ks))) j)) =
      (dr_pc s)(i := DRange (k # visited) ks)"
    using Cons.prems(4) by (auto simp: fun_eq_iff dr_forget_def)
  have step: "dr_exec i (DVisit k) s = Some ?t"
    using Cons.prems(1-3) pcs by (simp add: dr_exec_def dr_visit_def Let_def dr_goto_def)
  have "dr_keys ?t = filter (\<lambda>x. x \<noteq> k) (dr_keys s)" by (simp add: dr_keys_def keys_delete)
  then have "dr_keys ?t = ks" using Cons.prems(2,4) by (auto simp: filter_id_conv)
  then have "\<exists>s' v. dr_run (map (\<lambda>k. (i, DVisit k)) ks) ?t = Some s' \<and> dr_pc s' = (dr_pc ?t)(i := DRange v []) \<and>
      dr_store s' = (dr_store ?t)\<lparr>mss_db := []\<rparr> \<and> dr_done s' = dr_done ?t"
    using Cons.prems(3-5) by (intro Cons.IH [of ?t "k # visited"]) auto
  then obtain s' v where "dr_run (map (\<lambda>k. (i, DVisit k)) ks) ?t = Some s'"
    "dr_pc s' = (dr_pc ?t)(i := DRange v [])" "dr_store s' = (dr_store ?t)\<lparr>mss_db := []\<rparr>" "dr_done s' = dr_done ?t"
    by blast
  then show ?case using step by (intro exI [of _ s'] exI [of _ v]) simp
qed

text \<open>
  A \<open>Disconnect\<close> that another goroutine's call comes into: \<open>pre\<close> are accesses of that goroutine
  before, \<open>post\<close> after it.
\<close>

definition range_schedule ::
  "nat \<Rightarrow> mem_state_store \<Rightarrow> (nat \<times> dr_event) list" where
  "range_schedule i d =
     [(i, DCall DDisconnect), (i, DGo), (i, DGo)] @ map (\<lambda>k. (i, DVisit k)) (remdups (map fst (mss_db d))) @ [(i, DGo), (i, DGo)]"

lemma dr_run_disconnect:
  assumes "dr_pc s i = DIdle" "mss_connected (dr_store s)" "\<forall>j. j \<noteq> i \<longrightarrow> (\<forall>v p. dr_pc s j \<noteq> DRange v p)"
  shows "\<exists>s'. dr_run (range_schedule i (dr_store s)) s = Some s' \<and> dr_pc s' = dr_pc s \<and>
    dr_store s' = snd (mss_Disconnect (dr_store s)) \<and> dr_done s' = dr_done s @ [(i, DDisconnect, DUnit (Ok ()))]"
proof -
  let ?ks = "dr_keys s"
  let ?t = "dr_goto i (DRange [] ?ks) (dr_goto i (DChecked DDisconnect) (dr_goto i (DEntered DDisconnect) s))"
  have start: "dr_run [(i, DCall DDisconnect), (i, DGo), (i, DGo)] s = Some ?t"
    using assms(1,2) by (simp add: dr_exec_def dr_check_def dr_act_def dr_keys_def)
  have "dr_keys ?t = ?ks" by (simp add: dr_keys_def)
  then obtain u v where u: "dr_run (map (\<lambda>k. (i, DVisit k)) ?ks) ?t = Some u"
    "dr_pc u = (dr_pc ?t)(i := DRange v [])" "dr_store u = (dr_store ?t)\<lparr>mss_db := []\<rparr>" "dr_done u = dr_done ?t"
    using dr_run_visits [of ?t i "[]" ?ks] assms(3) by (auto simp: dr_keys_def)
  let ?r = "dr_return i DDisconnect (DUnit (Ok ())) ((dr_goto i DCleared u)\<lparr>dr_store := (dr_store u)\<lparr>mss_connected := False\<rparr>\<rparr>)"
  have finish: "dr_run [(i, DGo), (i, DGo)] u = Some ?r" using u(2) by (simp add: dr_exec_def)
  have "dr_run (range_schedule i (dr_store s)) s = Some ?r"
    by (simp only: range_schedule_def dr_run_append start u(1) [unfolded dr_keys_def] dr_keys_def option.case finish)
  moreover have "snd (mss_Disconnect (dr_store s)) = (dr_store s)\<lparr>mss_db := [], mss_connected := False\<rparr>"
    using assms(2) by (simp add: mss_Disconnect_def range_delete_all)
  ultimately show ?thesis using u(2-4) assms(1)
    by (intro exI [of _ ?r]) (auto simp: fun_eq_iff)
qed

section \<open>Where states come from\<close>

text \<open>
  In every schedule, disconnects included: what the map holds, and what a read returned, was
  there at the start or was given to \<open>WriteState\<close> under its id.
\<close>

definition dr_known :: "mem_state_store \<Rightarrow> durable_state option set \<Rightarrow> string \<Rightarrow> durable_state option iface \<Rightarrow> bool" where
  "dr_known d0 W k v \<longleftrightarrow>
     (k, v) \<in> set (mss_db d0) \<or> (\<exists>m \<in> W. v = Boxed m \<and> k = ds_PersistenceId (or_zero zero_durable_state m))"

fun dr_writes :: "dr_pc \<Rightarrow> durable_state option set" where
  "dr_writes (DEntered (DWrite m)) = {m}"
| "dr_writes (DChecked (DWrite m)) = {m}"
| "dr_writes _ = {}"

definition dr_sourced :: "mem_state_store \<Rightarrow> durable_state option set \<Rightarrow> dr_state \<Rightarrow> bool" where
  "dr_sourced d0 W s \<longleftrightarrow>
     (\<forall>(k, v) \<in> set (mss_db (dr_store s)). dr_known d0 W k v) \<and> (\<forall>i. dr_writes (dr_pc s i) \<subseteq> W) \<and>
     (\<forall>(i, c, r) \<in> set (dr_done s). \<forall>p m. c = DRead p \<and> r = DState (Ok (Some m)) \<longrightarrow> dr_known d0 W p (Boxed (Some m)))"

lemma dr_sourced_init: "dr_sourced d W (dr_init d)"
  by (auto simp: dr_sourced_def dr_known_def)

lemma dr_writes_forget [simp]: "dr_writes (dr_forget k pc) = dr_writes pc"
  by (cases pc) (simp_all add: dr_forget_def)

lemma dr_sourced_goto:
  "dr_sourced d0 W s \<Longrightarrow> dr_writes pc \<subseteq> W \<Longrightarrow> dr_sourced d0 W (dr_goto i pc s)"
  by (simp add: dr_sourced_def)

lemma dr_sourced_return:
  assumes "dr_sourced d0 W s" "\<forall>(k, v) \<in> set (mss_db d). dr_known d0 W k v"
    and "\<forall>p m. c = DRead p \<and> r = DState (Ok (Some m)) \<longrightarrow> dr_known d0 W p (Boxed (Some m))"
  shows "dr_sourced d0 W (dr_return i c r (s\<lparr>dr_store := d\<rparr>))"
  using assms by (auto simp: dr_sourced_def)

lemma dr_sourced_check:
  assumes "dr_sourced d0 W s" "dr_pc s i = DEntered c"
  shows "dr_sourced d0 W (dr_check i c s)"
proof -
  have w: "dr_writes (DChecked c) \<subseteq> W"
  proof -
    have "dr_writes (dr_pc s i) \<subseteq> W" using assms(1) by (simp add: dr_sourced_def)
    then show ?thesis using assms(2) by (cases c) simp_all
  qed
  have ret: "dr_sourced d0 W (dr_return i c r s)" if "\<forall>m. r \<noteq> DState (Ok (Some m))" for r
    using dr_sourced_return [OF assms(1), of "dr_store s" c r i] assms(1) that by (simp add: dr_sourced_def)
  show ?thesis using w ret dr_sourced_goto [OF assms(1)] by (cases c) (simp_all add: dr_check_def Let_def)
qed

lemma dr_sourced_act:
  assumes "dr_sourced d0 W s" "dr_pc s i = DChecked c" "dr_act i c s = Some s'"
  shows "dr_sourced d0 W s'"
proof -
  have db: "\<forall>(k, v) \<in> set (mss_db (dr_store s)). dr_known d0 W k v" using assms(1) by (simp add: dr_sourced_def)
  have w: "dr_writes (dr_pc s i) \<subseteq> W" using assms(1) by (simp add: dr_sourced_def)
  show ?thesis
  proof (cases c)
    case DConnect
    then show ?thesis using assms(3) dr_sourced_return [OF assms(1)] db by (auto simp: dr_act_def Let_def)
  next
    case DDisconnect
    then show ?thesis using assms(3) dr_sourced_goto [OF assms(1)] by (auto simp: dr_act_def Let_def)
  next
    case (DWrite m)
    let ?k = "ds_PersistenceId (or_zero zero_durable_state m)"
    have "dr_known d0 W ?k (Boxed m)" using w DWrite assms(2) by (auto simp: dr_known_def)
    then have "\<forall>(k, v) \<in> set (AList.update ?k (Boxed m) (mss_db (dr_store s))). dr_known d0 W k v"
      using db set_alist_update [of ?k "Boxed m" "mss_db (dr_store s)"] by auto
    then show ?thesis using assms(3) DWrite dr_sourced_return [OF assms(1)] by (auto simp: dr_act_def Let_def)
  next
    case (DRead p)
    let ?r = "DState (case map_of (mss_db (dr_store s)) p of None \<Rightarrow> Ok None
      | Some v \<Rightarrow> (case v of Boxed state \<Rightarrow> Ok state | Foreign \<Rightarrow> Panic))"
    have "dr_known d0 W p (Boxed (Some m))" if "?r = DState (Ok (Some m))" for m
      using that db by (auto split: option.splits iface.splits dest!: map_of_SomeD)
    then have "dr_sourced d0 W (dr_return i c ?r (s\<lparr>dr_store := dr_store s\<rparr>))"
      using DRead db by (intro dr_sourced_return [OF assms(1)]) auto
    then show ?thesis using assms(3) DRead by (simp add: dr_act_def Let_def)
  qed (use assms(3) in \<open>simp add: dr_act_def\<close>)
qed

lemma dr_sourced_visit:
  assumes "dr_sourced d0 W s" "dr_visit i k visited pending s = Some s'"
  shows "dr_sourced d0 W s'"
proof -
  have s': "dr_pc s' = (\<lambda>j. dr_forget k (((dr_pc s)(i := DRange (k # visited) pending)) j))"
    "mss_db (dr_store s') = AList.delete k (mss_db (dr_store s))" "dr_done s' = dr_done s"
    using assms(2) by (auto simp: dr_visit_def Let_def split: if_splits)
  have "dr_writes (dr_pc s' j) \<subseteq> W" for j using assms(1) by (simp add: s'(1) dr_sourced_def)
  moreover have "\<forall>(k, v) \<in> set (mss_db (dr_store s')). dr_known d0 W k v"
    using assms(1) by (auto simp: s'(2) dr_sourced_def AList.delete_eq)
  ultimately show ?thesis using assms(1) by (simp add: dr_sourced_def s'(3))
qed

lemma dr_sourced_exec:
  assumes "dr_sourced d0 W s" "\<forall>m. x = DCall (DWrite m) \<longrightarrow> m \<in> W" "dr_exec i x s = Some s'"
  shows "dr_sourced d0 W s'"
proof (cases x)
  case (DCall c)
  then have "dr_writes (DEntered c) \<subseteq> W" using assms(2) by (cases c) simp_all
  then show ?thesis using assms(3) DCall dr_sourced_goto [OF assms(1)] by (auto simp: dr_exec_def split: dr_pc.splits)
next
  case (DVisit k)
  then show ?thesis using assms(3) dr_sourced_visit [OF assms(1)] by (auto simp: dr_exec_def split: dr_pc.splits)
next
  case DGo
  show ?thesis
  proof (cases "dr_pc s i")
    case DCleared
    have "dr_sourced d0 W (dr_return i DDisconnect (DUnit (Ok ())) (s\<lparr>dr_store := (dr_store s)\<lparr>mss_connected := False\<rparr>\<rparr>))"
      using assms(1) by (intro dr_sourced_return) (simp_all add: dr_sourced_def)
    then show ?thesis using assms(3) DGo DCleared by (simp add: dr_exec_def)
  qed (use assms(3) DGo dr_sourced_goto [OF assms(1)] dr_sourced_check [OF assms(1)] dr_sourced_act [OF assms(1)]
      in \<open>auto simp: dr_exec_def split: if_splits\<close>)
qed

lemma dr_sourced_run:
  "dr_sourced d0 W s \<Longrightarrow> \<forall>(i, x) \<in> set es. \<forall>m. x = DCall (DWrite m) \<longrightarrow> m \<in> W \<Longrightarrow> dr_run es s = Some s' \<Longrightarrow>
   dr_sourced d0 W s'"
proof (induction es arbitrary: s)
  case (Cons e es)
  obtain i x where e: "e = (i, x)" by (cases e)
  then obtain t where "dr_exec i x s = Some t" "dr_run es t = Some s'"
    using Cons.prems(3) by (auto split: option.splits)
  then show ?case using Cons.IH dr_sourced_exec [OF Cons.prems(1)] Cons.prems(2) e by auto
qed simp

end
