(* ===== verification/DurableRaceProps.thy ===== *)
theory DurableRaceProps
  imports DurableMemoryRace
begin

text \<open>The memory durable store under goroutines that call it at the same time.\<close>

text \<open>
  C7. Whatever the interleaving of any number of goroutines, disconnects included, a read of the
  memory durable store returns only a state that the store held at the start or that some call of
  WriteState was given under that id. As long as nobody disconnects, the calls act one after the
  other in the order in which they return, with the same results and the same map.
\<close>

theorem states_serialize:
  assumes "dr_run es (dr_init d) = Some R"
  shows "(\<forall>(i, c, r) \<in> set (dr_done R). \<forall>p m. c = DRead p \<and> r = DState (Ok (Some m)) \<longrightarrow>
      (p, Boxed (Some m)) \<in> set (mss_db d) \<or>
      ds_PersistenceId m = p \<and> (\<exists>j. (j, DCall (DWrite (Some m))) \<in> set es)) \<and>
    ((\<forall>(i, x) \<in> set es. x \<noteq> DCall DDisconnect) \<longrightarrow> mss_trace (dr_done R) d = Some (dr_store R))"
proof -
  let ?W = "{m. \<exists>j. (j, DCall (DWrite m)) \<in> set es}"
  have "dr_sourced d ?W R"
    using dr_sourced_run [OF dr_sourced_init [of d ?W], of es] assms by blast
  then have "\<forall>(i, c, r) \<in> set (dr_done R). \<forall>p m. c = DRead p \<and> r = DState (Ok (Some m)) \<longrightarrow>
      dr_known d ?W p (Boxed (Some m))" by (simp add: dr_sourced_def)
  moreover have "dr_known d ?W p (Boxed (Some m)) \<Longrightarrow> (p, Boxed (Some m)) \<in> set (mss_db d) \<or>
      ds_PersistenceId m = p \<and> (\<exists>j. (j, DCall (DWrite (Some m))) \<in> set es)" for p m
    by (auto simp: dr_known_def)
  moreover have "mss_trace (dr_done R) d = Some (dr_store R)" if "\<forall>(i, x) \<in> set es. x \<noteq> DCall DDisconnect"
    using dr_run_inv [OF dr_inv_init that assms] by (simp add: dr_inv_def)
  ultimately show ?thesis by fast
qed

definition wit_state :: "string \<Rightarrow> u64 \<Rightarrow> durable_state" where
  "wit_state p n = zero_durable_state\<lparr>ds_PersistenceId := p, ds_VersionNumber := n\<rparr>"

definition wit_states :: "(nat \<times> dr_event) list" where
  "wit_states = [(0, DCall DConnect), (0, DGo), (0, DGo), (0, DCall (DWrite (Some (wit_state ''p'' 1)))),
     (1, DCall (DWrite (Some (wit_state ''p'' 2)))), (2, DCall (DRead ''p'')), (0, DGo), (1, DGo), (1, DGo), (2, DGo),
     (2, DGo), (0, DGo)]"

theorem states_serialize_witness:
  "\<exists>R. dr_run wit_states (dr_init NewStateStore) = Some R \<and> map fst (dr_done R) = [0, 1, 2, 0] \<and>
     mss_trace (dr_done R) NewStateStore = Some (dr_store R)"
proof -
  have "case dr_run wit_states (dr_init NewStateStore) of
      None \<Rightarrow> False | Some R \<Rightarrow> map fst (dr_done R) = [0, 1, 2, 0]" by code_simp
  then obtain R where R: "dr_run wit_states (dr_init NewStateStore) = Some R" "map fst (dr_done R) = [0, 1, 2, 0]"
    by (auto split: option.splits)
  have "\<forall>(i, x) \<in> set wit_states. x \<noteq> DCall DDisconnect" by (simp add: wit_states_def)
  then have "mss_trace (dr_done R) NewStateStore = Some (dr_store R)" using states_serialize [OF R(1)] by simp
  then show ?thesis using R by simp
qed

text \<open>A write that has loaded the flag before a disconnect, and stores after it.\<close>

definition survive_schedule :: "durable_state \<Rightarrow> mem_state_store \<Rightarrow> (nat \<times> dr_event) list" where
  "survive_schedule m d =
     [(0, DCall (DWrite (Some m))), (0, DGo)] @ range_schedule 1 d @ [(0, DGo)]"

text \<open>
  C38. A write that overlaps a disconnect survives it: when WriteState has loaded the flag before
  Disconnect cleared the map, and stores after it, both calls succeed, and the store is
  disconnected but holds the state, although a disconnect on its own leaves it empty. The next
  connection reads it.
\<close>

theorem state_survives_disconnect:
  assumes "mss_connected d"
  shows "\<exists>R. dr_run (survive_schedule m d) (dr_init d) = Some R \<and>
    dr_done R = [(1, DDisconnect, DUnit (Ok ())), (0, DWrite (Some m), DUnit (Ok ()))] \<and>
    \<not> mss_connected (dr_store R) \<and> mss_db (snd (mss_Disconnect d)) = [] \<and>
    mss_GetLatestState (ds_PersistenceId m) (snd (mss_Connect (dr_store R))) = Ok (Some m)"
proof -
  let ?s = "dr_goto 0 (DChecked (DWrite (Some m))) (dr_goto 0 (DEntered (DWrite (Some m))) (dr_init d))"
  have start: "dr_run [(0, DCall (DWrite (Some m))), (0, DGo)] (dr_init d) = Some ?s"
    using assms by (simp add: dr_exec_def dr_check_def)
  obtain t where t: "dr_run (range_schedule 1 d) ?s = Some t" "dr_pc t = dr_pc ?s"
    "dr_store t = snd (mss_Disconnect d)" "dr_done t = [(1, DDisconnect, DUnit (Ok ()))]"
    using dr_run_disconnect [of ?s 1] assms by (force split: if_splits)
  have empty: "snd (mss_Disconnect d) = d\<lparr>mss_db := [], mss_connected := False\<rparr>"
    using assms by (simp add: mss_Disconnect_def range_delete_all)
  let ?R = "dr_return 0 (DWrite (Some m)) (DUnit (Ok ()))
    (t\<lparr>dr_store := d\<lparr>mss_db := [(ds_PersistenceId m, Boxed (Some m))], mss_connected := False\<rparr>\<rparr>)"
  have "dr_run [(0, DGo)] t = Some ?R"
    using t(2,3) empty by (simp add: dr_exec_def dr_act_def Let_def)
  then have "dr_run (survive_schedule m d) (dr_init d) = Some ?R"
    by (simp only: survive_schedule_def dr_run_append start t(1) option.case)
  then show ?thesis using t(4) empty
    by (intro exI [of _ ?R]) (simp add: mss_Connect_def mss_GetLatestState_def)
qed

theorem state_survives_disconnect_witness:
  "\<exists>R. dr_run (survive_schedule (wit_state ''p'' 1) (snd (mss_Connect NewStateStore)))
       (dr_init (snd (mss_Connect NewStateStore))) = Some R \<and>
     mss_GetLatestState ''p'' (snd (mss_Connect (dr_store R))) = Ok (Some (wit_state ''p'' 1))"
proof -
  have "mss_connected (snd (mss_Connect NewStateStore))" by code_simp
  from state_survives_disconnect [OF this, of "wit_state ''p'' 1"] show ?thesis
    by (auto simp: wit_state_def)
qed

end
