(* ===== verification/MemDb.thy ===== *)
theory MemDb
  imports Strconv "HOL-Library.Sublist"
begin

text \<open>
  The in-memory database go-memdb, which the memory event store and the memory offset store
  are built on. Its schema types are data that the stores' schemas are written in; its
  operations are third-party code, a record of functions, with a contract: each index of a
  table is a tree of entries sorted by key, a key is made of the indexed fields of an object
  (and of its id where the index is not unique), and an insert, a delete or a query acts on
  the entries. A small database that satisfies the contract is at the end.
\<close>

section \<open>Schemas\<close>

datatype indexer =
    StringFieldIndex string bool
  | UintFieldIndex string
  | IntFieldIndex string
  | CompoundIndex "indexer list" bool

record index_schema =
  ix_Name :: string
  ix_AllowMissing :: bool
  ix_Unique :: bool
  ix_Indexer :: indexer

record table_schema =
  tb_Name :: string
  tb_Indexes :: "(string \<times> index_schema) list"

type_synonym db_schema = "(string \<times> table_schema) list"

definition schema_ok :: "db_schema \<Rightarrow> bool" where
  "schema_ok S \<longleftrightarrow>
     list_all (\<lambda>(n, tb). n \<noteq> '''' \<and> tb_Name tb = n \<and>
       list_all (\<lambda>(m, ix). m \<noteq> '''' \<and> ix_Name ix = m) (tb_Indexes tb) \<and>
       (case map_of (tb_Indexes tb) ''id'' of None \<Rightarrow> False | Some ix \<Rightarrow> ix_Unique ix)) S"

section \<open>Keys\<close>

text \<open>
  The fields of an object as the indexers see them by reflection. \<open>reflect.Value.String\<close> of a
  field that is not a string is the name of its type between angle brackets.
\<close>

datatype field_val = FString string | FUint u64 | FInt i64 | FBool bool | FBytes go_bytes

type_synonym fields = "string \<rightharpoonup> field_val"

fun field_string :: "field_val \<Rightarrow> string" where
  "field_string (FString s) = s"
| "field_string (FUint _) = ''<uint64 Value>''"
| "field_string (FInt _) = ''<int64 Value>''"
| "field_string (FBool _) = ''<bool Value>''"
| "field_string (FBytes _) = ''<[]uint8 Value>''"

record memdb_enc =
  lower_of :: "string \<Rightarrow> string"
  uint_bytes :: "u64 \<Rightarrow> string"
  int_bytes :: "i64 \<Rightarrow> string"

definition nul :: string where
  "nul = [CHR 0x00]"

text \<open>The value of an index for an object: \<open>Ok None\<close> when the object has none.\<close>

fun concat_vals :: "bool \<Rightarrow> string option res list \<Rightarrow> string \<Rightarrow> string option res" where
  "concat_vals am [] out = Ok (Some out)"
| "concat_vals am (v # vs) out =
     (case v of Ok (Some s) \<Rightarrow> concat_vals am vs (out @ s)
      | Ok None \<Rightarrow> if am then Ok (Some out) else Ok None
      | Err e \<Rightarrow> Err e | Panic \<Rightarrow> Panic)"

fun index_val :: "memdb_enc \<Rightarrow> fields \<Rightarrow> indexer \<Rightarrow> string option res" where
  "index_val E fs (StringFieldIndex f lc) =
     (case fs f of
        None \<Rightarrow> Err (ErrExt ''field is invalid'')
      | Some v \<Rightarrow> (let s = field_string v in
          if s = '''' then Ok None else Ok (Some ((if lc then lower_of E s else s) @ nul))))"
| "index_val E fs (UintFieldIndex f) =
     (case fs f of Some (FUint u) \<Rightarrow> Ok (Some (uint_bytes E u)) | _ \<Rightarrow> Err (ErrExt ''field is not uint''))"
| "index_val E fs (IntFieldIndex f) =
     (case fs f of Some (FInt i) \<Rightarrow> Ok (Some (int_bytes E i)) | _ \<Rightarrow> Err (ErrExt ''field is not int''))"
| "index_val E fs (CompoundIndex ixs am) = concat_vals am (map (index_val E fs) ixs) []"

datatype arg = ArgString string | ArgUint u64

fun arg_val :: "memdb_enc \<Rightarrow> indexer \<Rightarrow> arg \<Rightarrow> string option" where
  "arg_val E (StringFieldIndex f lc) (ArgString s) = Some ((if lc then lower_of E s else s) @ nul)"
| "arg_val E (UintFieldIndex f) (ArgUint u) = Some (uint_bytes E u)"
| "arg_val E _ _ = None"

fun args_val :: "memdb_enc \<Rightarrow> indexer list \<Rightarrow> arg list \<Rightarrow> string option" where
  "args_val E [] [] = Some []"
| "args_val E (ix # ixs) (a # as) =
     (case (arg_val E ix a, args_val E ixs as) of (Some v, Some vs) \<Rightarrow> Some (v @ vs) | _ \<Rightarrow> None)"
| "args_val E _ _ = None"

definition query_val :: "memdb_enc \<Rightarrow> indexer \<Rightarrow> arg list \<Rightarrow> string option" where
  "query_val E ix as = (case ix of CompoundIndex ixs am \<Rightarrow> args_val E ixs as | _ \<Rightarrow> args_val E [ix] as)"

text \<open>The entries of an object: a key per index; \<open>None\<close> when a value is missing.\<close>

fun entry_keys :: "memdb_enc \<Rightarrow> string \<Rightarrow> fields \<Rightarrow> (string \<times> index_schema) list \<Rightarrow> (string \<times> string) list option" where
  "entry_keys E idk fs [] = Some []"
| "entry_keys E idk fs ((n, ix) # rest) =
     (case index_val E fs (ix_Indexer ix) of
        Ok (Some v) \<Rightarrow> map_option (Cons (n, if ix_Unique ix then v else v @ idk)) (entry_keys E idk fs rest)
      | Ok None \<Rightarrow> if ix_AllowMissing ix then entry_keys E idk fs rest else None
      | _ \<Rightarrow> None)"

definition object_keys :: "memdb_enc \<Rightarrow> table_schema \<Rightarrow> fields \<Rightarrow> (string \<times> (string \<times> string) list) option" where
  "object_keys E tb fs =
     (case map_of (tb_Indexes tb) ''id'' of
        None \<Rightarrow> None
      | Some ix \<Rightarrow> (case index_val E fs (ix_Indexer ix) of
            Ok (Some idk) \<Rightarrow> map_option (Pair idk) (entry_keys E idk fs (tb_Indexes tb))
          | _ \<Rightarrow> None))"

section \<open>Trees\<close>

type_synonym 'o tree = "(string \<times> 'o) list"
type_synonym 'o trees = "string \<Rightarrow> 'o tree"

definition tree_ok :: "'o tree \<Rightarrow> bool" where
  "tree_ok t \<longleftrightarrow> sorted_wrt (<) (map fst t)"

fun tree_put :: "string \<Rightarrow> 'o \<Rightarrow> 'o tree \<Rightarrow> 'o tree" where
  "tree_put k x [] = [(k, x)]"
| "tree_put k x ((k', x') # t) =
     (if k < k' then (k, x) # (k', x') # t
      else if k = k' then (k, x) # t
      else (k', x') # tree_put k x t)"

definition tree_del :: "string \<Rightarrow> 'o tree \<Rightarrow> 'o tree" where
  "tree_del k t = filter (\<lambda>e. fst e \<noteq> k) t"

definition put_keys :: "(string \<times> string) list \<Rightarrow> 'o \<Rightarrow> 'o trees \<Rightarrow> 'o trees" where
  "put_keys ks x T = (\<lambda>n. case map_of ks n of Some k \<Rightarrow> tree_put k x (T n) | None \<Rightarrow> T n)"

definition del_keys :: "(string \<times> string) list \<Rightarrow> 'o trees \<Rightarrow> 'o trees" where
  "del_keys ks T = (\<lambda>n. case map_of ks n of Some k \<Rightarrow> tree_del k (T n) | None \<Rightarrow> T n)"

text \<open>
  An insert: the entries of the object that has the same id, as its fields are now, give way
  to those of the new object. A delete needs an object with the id to be there.
\<close>

definition clear_id :: "memdb_enc \<Rightarrow> table_schema \<Rightarrow> ('o \<Rightarrow> fields) \<Rightarrow> string \<Rightarrow> 'o trees \<Rightarrow> 'o trees" where
  "clear_id E tb deref idk T =
     (case map_of (T ''id'') idk of
        None \<Rightarrow> T
      | Some old \<Rightarrow> (case object_keys E tb (deref old) of None \<Rightarrow> T | Some (_, ks) \<Rightarrow> del_keys ks T))"

definition insert_obj ::
  "memdb_enc \<Rightarrow> table_schema \<Rightarrow> ('o \<Rightarrow> fields) \<Rightarrow> 'o \<Rightarrow> 'o trees \<Rightarrow> 'o trees option" where
  "insert_obj E tb deref x T =
     (case object_keys E tb (deref x) of
        None \<Rightarrow> None
      | Some (idk, ks) \<Rightarrow> Some (put_keys ks x (clear_id E tb deref idk T)))"

definition delete_obj ::
  "memdb_enc \<Rightarrow> table_schema \<Rightarrow> ('o \<Rightarrow> fields) \<Rightarrow> 'o \<Rightarrow> 'o trees \<Rightarrow> 'o trees option" where
  "delete_obj E tb deref x T =
     (case object_keys E tb (deref x) of
        None \<Rightarrow> None
      | Some (idk, _) \<Rightarrow>
          (case map_of (T ''id'') idk of None \<Rightarrow> None | Some _ \<Rightarrow> Some (clear_id E tb deref idk T)))"

fun delete_objs ::
  "memdb_enc \<Rightarrow> table_schema \<Rightarrow> ('o \<Rightarrow> fields) \<Rightarrow> 'o list \<Rightarrow> 'o trees \<Rightarrow> 'o trees option" where
  "delete_objs E tb deref [] T = Some T"
| "delete_objs E tb deref (x # xs) T =
     (case delete_obj E tb deref x T of None \<Rightarrow> None | Some T' \<Rightarrow> delete_objs E tb deref xs T')"

text \<open>The entries whose key starts with a query's bytes, and those from a query's bytes on.\<close>

definition tree_prefix :: "string \<Rightarrow> 'o tree \<Rightarrow> 'o list" where
  "tree_prefix p t = map snd (filter (\<lambda>e. prefix p (fst e)) t)"

definition tree_from :: "string \<Rightarrow> 'o tree \<Rightarrow> 'o list" where
  "tree_from p t = map snd (filter (\<lambda>e. p \<le> fst e) t)"

definition tree_last :: "index_schema \<Rightarrow> string \<Rightarrow> 'o tree \<Rightarrow> 'o option" where
  "tree_last ix p t =
     (if ix_Unique ix then map_of t p
      else case tree_prefix p t of [] \<Rightarrow> None | xs \<Rightarrow> Some (last xs))"

section \<open>The operations and their contract\<close>

text \<open>
  \<open>md_new\<close> is \<open>NewMemDB\<close>, \<open>md_txn db write\<close> is \<open>db.Txn(write)\<close>; a commit gives the
  database that later transactions see, an abort gives up the transaction (the database is
  the one before). A query returns \<open>interface{}\<close> values.
\<close>

record ('db, 'txn, 'o) memdb =
  md_new :: "db_schema \<Rightarrow> 'db res"
  md_txn :: "'db \<Rightarrow> bool \<Rightarrow> 'txn"
  md_commit :: "'txn \<Rightarrow> 'db"
  md_insert :: "('o \<Rightarrow> fields) \<Rightarrow> string \<Rightarrow> 'o \<Rightarrow> 'txn \<Rightarrow> unit res \<times> 'txn"
  md_delete :: "('o \<Rightarrow> fields) \<Rightarrow> string \<Rightarrow> 'o \<Rightarrow> 'txn \<Rightarrow> unit res \<times> 'txn"
  md_delete_all :: "('o \<Rightarrow> fields) \<Rightarrow> string \<Rightarrow> string \<Rightarrow> 'txn \<Rightarrow> nat res \<times> 'txn"
  md_get :: "string \<Rightarrow> string \<Rightarrow> arg list \<Rightarrow> 'txn \<Rightarrow> 'o iface list res"
  md_lower_bound :: "string \<Rightarrow> string \<Rightarrow> arg list \<Rightarrow> 'txn \<Rightarrow> 'o iface list res"
  md_last :: "string \<Rightarrow> string \<Rightarrow> arg list \<Rightarrow> 'txn \<Rightarrow> 'o iface option res"
  md_not_found :: "goerr \<Rightarrow> bool"

type_synonym 'o dbstate = "db_schema \<times> (string \<Rightarrow> 'o trees)"

record ('db, 'txn, 'o) mdghost =
  mg_db :: "'db \<Rightarrow> 'o dbstate"
  mg_txn :: "'txn \<Rightarrow> 'o dbstate"
  mg_enc :: memdb_enc

text \<open>What a call that changes a table does, from the trees it should leave.\<close>

definition effect :: "('db, 'txn, 'o) mdghost \<Rightarrow> 'txn \<Rightarrow> string \<Rightarrow> 'o trees option \<Rightarrow> 'a res \<times> 'txn \<Rightarrow> bool" where
  "effect G t n target p \<longleftrightarrow>
     (case target of
        None \<Rightarrow> (\<exists>e. fst p = Err e)
      | Some T \<Rightarrow> is_ok (fst p) \<and>
          mg_txn G (snd p) = (fst (mg_txn G t), (snd (mg_txn G t))(n := T)))"

definition memdb_contract :: "('db, 'txn, 'o) memdb \<Rightarrow> ('db, 'txn, 'o) mdghost \<Rightarrow> bool" where
  "memdb_contract M G \<longleftrightarrow>
     inj (uint_bytes (mg_enc G)) \<and> inj (int_bytes (mg_enc G)) \<and>
     (\<forall>S. schema_ok S \<longrightarrow> (\<exists>db. md_new M S = Ok db \<and> mg_db G db = (S, \<lambda>_ _. []))) \<and>
     (\<forall>db wr. mg_txn G (md_txn M db wr) = mg_db G db) \<and>
     (\<forall>t. mg_db G (md_commit M t) = mg_txn G t) \<and>
     (\<forall>deref n tb x t. map_of (fst (mg_txn G t)) n = Some tb \<longrightarrow>
        effect G t n (insert_obj (mg_enc G) tb deref x (snd (mg_txn G t) n)) (md_insert M deref n x t) \<and>
        effect G t n (delete_obj (mg_enc G) tb deref x (snd (mg_txn G t) n)) (md_delete M deref n x t)) \<and>
     (\<forall>deref n tb i t. map_of (fst (mg_txn G t)) n = Some tb \<and> map_of (tb_Indexes tb) i \<noteq> None \<longrightarrow>
        effect G t n (delete_objs (mg_enc G) tb deref (map snd (snd (mg_txn G t) n i)) (snd (mg_txn G t) n))
          (md_delete_all M deref n i t)) \<and>
     (\<forall>n tb i ix as k t. map_of (fst (mg_txn G t)) n = Some tb \<and> map_of (tb_Indexes tb) i = Some ix \<and>
        query_val (mg_enc G) (ix_Indexer ix) as = Some k \<longrightarrow>
        md_get M n i as t = Ok (map Boxed (tree_prefix k (snd (mg_txn G t) n i))) \<and>
        md_lower_bound M n i as t = Ok (map Boxed (tree_from k (snd (mg_txn G t) n i))) \<and>
        md_last M n i as t = Ok (map_option Boxed (tree_last ix k (snd (mg_txn G t) n i)))) \<and>
     (\<forall>n tb i t. map_of (fst (mg_txn G t)) n = Some tb \<and> map_of (tb_Indexes tb) i \<noteq> None \<longrightarrow>
        md_get M n i [] t = Ok (map (\<lambda>e. Boxed (snd e)) (snd (mg_txn G t) n i)))"

declare memdb_contract_def [contract_defs]

lemma memdb_facts:
  assumes "memdb_contract M G"
  shows "schema_ok S \<Longrightarrow> \<exists>db. md_new M S = Ok db \<and> mg_db G db = (S, \<lambda>_ _. [])"
    and "mg_txn G (md_txn M db wr) = mg_db G db" and "mg_db G (md_commit M t) = mg_txn G t"
    and "map_of (fst (mg_txn G t)) n = Some tb \<Longrightarrow>
      effect G t n (insert_obj (mg_enc G) tb deref x (snd (mg_txn G t) n)) (md_insert M deref n x t)"
    and "map_of (fst (mg_txn G t)) n = Some tb \<Longrightarrow>
      effect G t n (delete_obj (mg_enc G) tb deref x (snd (mg_txn G t) n)) (md_delete M deref n x t)"
    and "map_of (fst (mg_txn G t)) n = Some tb \<Longrightarrow> map_of (tb_Indexes tb) i \<noteq> None \<Longrightarrow>
      effect G t n (delete_objs (mg_enc G) tb deref (map snd (snd (mg_txn G t) n i)) (snd (mg_txn G t) n))
        (md_delete_all M deref n i t)"
    and "inj (uint_bytes (mg_enc G))"
  using assms by (simp_all add: memdb_contract_def)

lemma memdb_queries:
  assumes "memdb_contract M G" "map_of (fst (mg_txn G t)) n = Some tb" "map_of (tb_Indexes tb) i = Some ix"
  shows "query_val (mg_enc G) (ix_Indexer ix) as = Some k \<Longrightarrow>
      md_get M n i as t = Ok (map Boxed (tree_prefix k (snd (mg_txn G t) n i)))"
    and "query_val (mg_enc G) (ix_Indexer ix) as = Some k \<Longrightarrow>
      md_lower_bound M n i as t = Ok (map Boxed (tree_from k (snd (mg_txn G t) n i)))"
    and "query_val (mg_enc G) (ix_Indexer ix) as = Some k \<Longrightarrow>
      md_last M n i as t = Ok (map_option Boxed (tree_last ix k (snd (mg_txn G t) n i)))"
    and "md_get M n i [] t = Ok (map Boxed (map snd (snd (mg_txn G t) n i)))"
proof -
  have q: "md_get M n i as t = Ok (map Boxed (tree_prefix k (snd (mg_txn G t) n i))) \<and>
      md_lower_bound M n i as t = Ok (map Boxed (tree_from k (snd (mg_txn G t) n i))) \<and>
      md_last M n i as t = Ok (map_option Boxed (tree_last ix k (snd (mg_txn G t) n i)))"
    if "query_val (mg_enc G) (ix_Indexer ix) as = Some k"
    using assms that unfolding memdb_contract_def by blast
  show "query_val (mg_enc G) (ix_Indexer ix) as = Some k \<Longrightarrow>
      md_get M n i as t = Ok (map Boxed (tree_prefix k (snd (mg_txn G t) n i)))"
    and "query_val (mg_enc G) (ix_Indexer ix) as = Some k \<Longrightarrow>
      md_lower_bound M n i as t = Ok (map Boxed (tree_from k (snd (mg_txn G t) n i)))"
    and "query_val (mg_enc G) (ix_Indexer ix) as = Some k \<Longrightarrow>
      md_last M n i as t = Ok (map_option Boxed (tree_last ix k (snd (mg_txn G t) n i)))"
    using q by blast+
  have "md_get M n i [] t = Ok (map (\<lambda>e. Boxed (snd e)) (snd (mg_txn G t) n i))"
    using assms unfolding memdb_contract_def by blast
  then show "md_get M n i [] t = Ok (map Boxed (map snd (snd (mg_txn G t) n i)))" by (simp add: comp_def)
qed

section \<open>Trees: lemmas\<close>

lemma tree_ok_Nil [simp]: "tree_ok []"
  by (simp add: tree_ok_def)

lemma tree_ok_Cons: "tree_ok ((k, x) # t) \<longleftrightarrow> (\<forall>e \<in> set t. k < fst e) \<and> tree_ok t"
  by (auto simp: tree_ok_def)

lemma tree_ok_distinct: "tree_ok t \<Longrightarrow> distinct (map fst t)"
  by (induction t) (auto simp: tree_ok_def)

lemma tree_ok_above: "tree_ok ((k, x) # t) \<Longrightarrow> k' \<le> k \<Longrightarrow> e \<in> set t \<Longrightarrow> k' < fst e"
  by (auto simp: tree_ok_Cons intro: order.strict_trans1)

lemma set_tree_put:
  "tree_ok t \<Longrightarrow> set (tree_put k x t) = insert (k, x) {e \<in> set t. fst e \<noteq> k}"
proof (induction t)
  case (Cons e t)
  obtain k' x' where e: "e = (k', x')" by (cases e)
  have "\<forall>a \<in> set t. k < fst a" if "k \<le> k'" using Cons.prems that e by (auto intro: tree_ok_above)
  with Cons e show ?case
    by (cases "k < k'"; cases "k = k'") (auto simp: tree_ok_Cons)
qed simp

lemma mset_tree_put: "k \<notin> fst ` set t \<Longrightarrow> mset (tree_put k x t) = add_mset (k, x) (mset t)"
  by (induction t) (auto simp: add_mset_commute)

lemma set_tree_put_fresh: "k \<notin> fst ` set t \<Longrightarrow> set (tree_put k x t) = insert (k, x) (set t)"
  by (drule mset_tree_put [of _ _ x]) (metis set_mset_add_mset_insert set_mset_mset)

lemma tree_ok_put [simp]: "tree_ok t \<Longrightarrow> tree_ok (tree_put k x t)"
proof (induction t)
  case (Cons e t)
  obtain k' x' where e: "e = (k', x')" by (cases e)
  have "\<forall>a \<in> set t. k < fst a" if "k \<le> k'" using Cons.prems that e by (auto intro: tree_ok_above)
  with Cons e show ?case
    by (cases "k < k'"; cases "k = k'") (auto simp: tree_ok_Cons set_tree_put)
qed (simp add: tree_ok_def)

lemma tree_ok_filter: "tree_ok t \<Longrightarrow> tree_ok (filter P t)"
  by (induction t) (auto simp: tree_ok_Cons)

lemma tree_ok_del [simp]: "tree_ok t \<Longrightarrow> tree_ok (tree_del k t)"
  by (simp add: tree_del_def tree_ok_filter)

lemma set_tree_del [simp]: "set (tree_del k t) = {e \<in> set t. fst e \<noteq> k}"
  by (simp add: tree_del_def)

lemma tree_lookup: "tree_ok t \<Longrightarrow> map_of t k = Some x \<longleftrightarrow> (k, x) \<in> set t"
  by (simp add: tree_ok_distinct)

lemma tree_lookup_put: "tree_ok t \<Longrightarrow> map_of (tree_put k x t) = (map_of t)(k \<mapsto> x)"
  by (induction t) (auto simp: tree_ok_Cons fun_eq_iff)

lemma effect_Some:
  "effect G t n (Some T) p \<Longrightarrow> \<exists>x t'. p = (Ok x, t') \<and> fst (mg_txn G t') = fst (mg_txn G t) \<and>
     snd (mg_txn G t') n = T"
  by (cases p) (auto simp: effect_def is_ok_iff)

lemma effect_None: "effect G t n None p \<Longrightarrow> \<exists>e t'. p = (Err e, t')"
  by (cases p) (auto simp: effect_def)

section \<open>Keys with a terminating NUL\<close>

lemma nul_less: "c \<noteq> CHR 0x00 \<Longrightarrow> CHR 0x00 < c"
proof -
  assume "c \<noteq> CHR 0x00"
  moreover have "CHR 0x00 \<le> c" by (simp add: less_eq_char_def)
  ultimately show ?thesis by simp
qed

lemma prefix_nul_iff: "nul_free p \<Longrightarrow> nul_free q \<Longrightarrow> prefix (p @ nul) (q @ nul @ r) \<longleftrightarrow> p = q"
  unfolding nul_free_def nul_def
proof (induction p arbitrary: q)
  case Nil
  then show ?case by (cases q) auto
next
  case (Cons c p)
  then show ?case by (cases q) auto
qed

lemma append_nul_eq_iff:
  "nul_free p \<Longrightarrow> nul_free q \<Longrightarrow> p @ nul @ r = q @ nul @ r' \<longleftrightarrow> p = q \<and> r = r'"
  unfolding nul_free_def nul_def
proof (induction p arbitrary: q)
  case Nil
  then show ?case by (cases q) auto
next
  case (Cons c p)
  then show ?case by (cases q) auto
qed

lemma append_nul_le_iff: "nul_free p \<Longrightarrow> nul_free q \<Longrightarrow> p @ nul \<le> q @ nul @ r \<longleftrightarrow> p \<le> q"
  unfolding nul_free_def nul_def
proof (induction p arbitrary: q)
  case Nil
  then show ?case by (cases q) (auto intro: nul_less)
next
  case (Cons c p)
  then show ?case using nul_less [of c] by (cases q) (auto intro: nul_less dest: order.asym)
qed

lemma append_nul_mono:
  "nul_free p \<Longrightarrow> nul_free q \<Longrightarrow> p @ nul @ r < q @ nul @ r' \<Longrightarrow> p \<le> q"
  unfolding nul_free_def nul_def
proof (induction p arbitrary: q)
  case (Cons c p)
  then show ?case using nul_less [of c] by (cases q) (auto dest: order.asym)
qed simp

text \<open>The UUIDs drawn for the ids of records: not empty and no two the same.\<close>

definition uuid_ok :: "(nat \<Rightarrow> string) \<Rightarrow> bool" where
  "uuid_ok uuid \<longleftrightarrow> inj uuid \<and> (\<forall>i. uuid i \<noteq> [])"

section \<open>A small database\<close>

definition ref_enc :: memdb_enc where
  "ref_enc = \<lparr>lower_of = (\<lambda>s. s), uint_bytes = fmt_u64, int_bytes = fmt_i64\<rparr>"

definition ref_effect :: "'o dbstate \<Rightarrow> string \<Rightarrow> 'a \<Rightarrow> 'o trees option \<Rightarrow> 'a res \<times> 'o dbstate" where
  "ref_effect t n y target =
     (case target of None \<Rightarrow> (Err (ErrExt ''memdb''), t)
      | Some T \<Rightarrow> (Ok y, (fst t, (snd t)(n := T))))"

definition ref_table :: "'o dbstate \<Rightarrow> string \<Rightarrow> table_schema" where
  "ref_table t n = (case map_of (fst t) n of Some tb \<Rightarrow> tb | None \<Rightarrow> \<lparr>tb_Name = n, tb_Indexes = []\<rparr>)"

definition ref_query :: "('o tree \<Rightarrow> string \<Rightarrow> index_schema \<Rightarrow> 'b) \<Rightarrow> string \<Rightarrow> string \<Rightarrow> arg list \<Rightarrow> 'o dbstate \<Rightarrow> 'b res" where
  "ref_query f n i as t =
     (case map_of (tb_Indexes (ref_table t n)) i of
        None \<Rightarrow> Err (ErrExt ''invalid index'')
      | Some ix \<Rightarrow> (case query_val ref_enc (ix_Indexer ix) as of
            None \<Rightarrow> Err (ErrExt ''invalid argument'')
          | Some k \<Rightarrow> Ok (f (snd t n i) k ix)))"

definition ref_memdb :: "('o dbstate, 'o dbstate, 'o) memdb" where
  "ref_memdb =
     \<lparr>md_new = (\<lambda>S. if schema_ok S then Ok (S, \<lambda>_ _. []) else Err (ErrExt ''invalid schema'')),
      md_txn = (\<lambda>db _. db), md_commit = (\<lambda>t. t),
      md_insert = (\<lambda>deref n x t. ref_effect t n () (insert_obj ref_enc (ref_table t n) deref x (snd t n))),
      md_delete = (\<lambda>deref n x t. ref_effect t n () (delete_obj ref_enc (ref_table t n) deref x (snd t n))),
      md_delete_all = (\<lambda>deref n i t. ref_effect t n (length (snd t n i))
         (delete_objs ref_enc (ref_table t n) deref (map snd (snd t n i)) (snd t n))),
      md_get = (\<lambda>n i as t. if as = [] then Ok (map (\<lambda>e. Boxed (snd e)) (snd t n i))
         else MemDb.ref_query (\<lambda>tr k ix. map Boxed (tree_prefix k tr)) n i as t),
      md_lower_bound = MemDb.ref_query (\<lambda>tr k ix. map Boxed (tree_from k tr)),
      md_last = MemDb.ref_query (\<lambda>tr k ix. map_option Boxed (tree_last ix k tr)),
      md_not_found = (\<lambda>_. False)\<rparr>"

definition ref_mdghost :: "('o dbstate, 'o dbstate, 'o) mdghost" where
  "ref_mdghost = \<lparr>mg_db = (\<lambda>db. db), mg_txn = (\<lambda>t. t), mg_enc = ref_enc\<rparr>"

lemma inj_fmt_u64: "inj fmt_u64"
  by (rule injI) (metis ParseUint_fmt_u64 prod.inject)

lemma inj_fmt_i64: "inj fmt_i64"
  by (rule injI) (metis ParseInt_fmt_i64 prod.inject)

lemma ref_effect_ok: "effect ref_mdghost t n target (ref_effect t n y target)"
  by (auto simp: effect_def ref_effect_def ref_mdghost_def split: option.splits)

lemma query_val_Nil: "query_val E ix [] = Some k \<Longrightarrow> k = []"
  by (cases ix) (auto simp: query_val_def elim: args_val.elims)

lemma ref_memdb_contract: "memdb_contract ref_memdb ref_mdghost"
proof -
  have tb: "ref_table t n = tb" if "map_of (fst t) n = Some tb" for t :: "'o dbstate" and n tb
    using that by (simp add: ref_table_def)
  have nil: "tree_prefix [] t = map snd t" for t :: "'o tree"
    by (simp add: tree_prefix_def)
  show ?thesis unfolding memdb_contract_def
  proof (intro conjI)
    show "inj (uint_bytes (mg_enc ref_mdghost))" "inj (int_bytes (mg_enc ref_mdghost))"
      by (simp_all add: ref_mdghost_def ref_enc_def inj_fmt_u64 inj_fmt_i64)
  qed (auto simp: ref_memdb_def tb ref_query_def ref_mdghost_def
      intro!: ref_effect_ok [unfolded ref_mdghost_def] dest: query_val_Nil simp: nil comp_def)
qed

end
