(* ===== verification/EventsMemory.thy ===== *)
theory EventsMemory
  imports Proto GoSort MemDb
begin

text \<open>
  \<open>eventstore/memory\<close>: the event store over go-memdb, with its schema (\<open>schemas.go\<close>) and its
  operations (\<open>events_store.go\<close>). The state is the struct and the number of UUIDs drawn;
  \<open>uuid n\<close> is the \<open>n\<close>-th of them. A transaction works on the database it was opened on, and
  a commit puts its result in place; an abort leaves the database as it was.
\<close>

section \<open>schemas.go\<close>

record journal =
  jr_Ordering :: string
  jr_PersistenceID :: string
  jr_SequenceNumber :: u64
  jr_IsDeleted :: bool
  jr_EventPayload :: go_bytes
  jr_EventManifest :: string
  jr_Timestamp :: i64
  jr_ShardNumber :: u64

definition journal_fields :: "journal \<Rightarrow> fields" where
  "journal_fields j =
     [''Ordering'' \<mapsto> FString (jr_Ordering j), ''PersistenceID'' \<mapsto> FString (jr_PersistenceID j),
      ''SequenceNumber'' \<mapsto> FUint (jr_SequenceNumber j), ''IsDeleted'' \<mapsto> FBool (jr_IsDeleted j),
      ''EventPayload'' \<mapsto> FBytes (jr_EventPayload j), ''EventManifest'' \<mapsto> FString (jr_EventManifest j),
      ''Timestamp'' \<mapsto> FInt (jr_Timestamp j), ''ShardNumber'' \<mapsto> FUint (jr_ShardNumber j)]"

definition journalTableName :: string where "journalTableName = ''event_store''"
definition journalPK :: string where "journalPK = ''id''"
definition isDeletedIndex :: string where "isDeletedIndex = ''deletion''"
definition persistenceIDIndex :: string where "persistenceIDIndex = ''persistenceId''"
definition sequenceNumberIndex :: string where "sequenceNumberIndex = ''sequenceNumber''"
definition shardNumberIndex :: string where "shardNumberIndex = ''shardNumber''"
definition timestampIndex :: string where "timestampIndex = ''timestamp''"

lemmas journal_names = journalTableName_def journalPK_def isDeletedIndex_def persistenceIDIndex_def
  sequenceNumberIndex_def shardNumberIndex_def timestampIndex_def

definition journalTable :: table_schema where
  "journalTable =
     \<lparr>tb_Name = journalTableName,
      tb_Indexes =
        [(journalPK, \<lparr>ix_Name = journalPK, ix_AllowMissing = False, ix_Unique = True,
            ix_Indexer = StringFieldIndex ''Ordering'' False\<rparr>),
         (isDeletedIndex, \<lparr>ix_Name = isDeletedIndex, ix_AllowMissing = False, ix_Unique = False,
            ix_Indexer = StringFieldIndex ''IsDeleted'' False\<rparr>),
         (persistenceIDIndex, \<lparr>ix_Name = persistenceIDIndex, ix_AllowMissing = False, ix_Unique = False,
            ix_Indexer = StringFieldIndex ''PersistenceID'' False\<rparr>),
         (sequenceNumberIndex, \<lparr>ix_Name = sequenceNumberIndex, ix_AllowMissing = False, ix_Unique = False,
            ix_Indexer = UintFieldIndex ''SequenceNumber''\<rparr>),
         (shardNumberIndex, \<lparr>ix_Name = shardNumberIndex, ix_AllowMissing = False, ix_Unique = False,
            ix_Indexer = UintFieldIndex ''ShardNumber''\<rparr>),
         (timestampIndex, \<lparr>ix_Name = timestampIndex, ix_AllowMissing = False, ix_Unique = False,
            ix_Indexer = IntFieldIndex ''Timestamp''\<rparr>)]\<rparr>"

definition journalSchema :: db_schema where
  "journalSchema = [(journalTableName, journalTable)]"

section \<open>events\_store.go\<close>

text \<open>The package's own \<open>toProto\<close>.\<close>

definition me_toProto :: "('t, 'm) protolib \<Rightarrow> string \<Rightarrow> go_bytes \<Rightarrow> any res" where
  "me_toProto L manifest bytea =
     (case find_message L manifest of
        Err err \<Rightarrow> Err err
      | Panic \<Rightarrow> Panic
      | Ok mt \<Rightarrow>
          (case unmarshal L mt bytea of
             Err err \<Rightarrow> Err err
           | Panic \<Rightarrow> Panic
           | Ok pm \<Rightarrow>
               (case pm of
                  MsgAny cast \<Rightarrow> Ok cast
                | MsgOther _ \<Rightarrow> Err (ErrNew (''failed to unpack message='' @ manifest)))))"

lemma me_toProto_eq [simp]: "me_toProto = toProto"
  by (intro ext) (simp add: me_toProto_def toProto_def)

record 'db mem_events =
  me_db :: "'db option"
  me_KeepRecordsAfterDisconnect :: bool
  me_connected :: bool
  me_drawn :: nat

definition NewEventsStore :: "'db mem_events" where
  "NewEventsStore = \<lparr>me_db = None, me_KeepRecordsAfterDisconnect = False, me_connected = False, me_drawn = 0\<rparr>"

definition me_Connect :: "('db, 'txn, journal) memdb \<Rightarrow> 'db mem_events \<Rightarrow> unit res \<times> 'db mem_events" where
  "me_Connect M s =
     (if me_connected s then (Ok (), s)
      else case md_new M journalSchema of
             Err err \<Rightarrow> (Err err, s)
           | Panic \<Rightarrow> (Panic, s)
           | Ok db \<Rightarrow> (Ok (), s\<lparr>me_db := Some db, me_connected := True\<rparr>))"

definition me_Disconnect :: "('db, 'txn, journal) memdb \<Rightarrow> 'db mem_events \<Rightarrow> unit res \<times> 'db mem_events" where
  "me_Disconnect M s =
     (if \<not> me_connected s then (Ok (), s)
      else if me_KeepRecordsAfterDisconnect s then (Ok (), s\<lparr>me_connected := False\<rparr>)
      else case me_db s of
        None \<Rightarrow> (Panic, s)
      | Some db \<Rightarrow>
          (case md_delete_all M journal_fields journalTableName journalPK (md_txn M db True) of
             (Err err, _) \<Rightarrow> (Err (ErrWrap ''failed to free memory resource'' err), s)
           | (Panic, _) \<Rightarrow> (Panic, s)
           | (Ok _, txn) \<Rightarrow> (Ok (), s\<lparr>me_db := Some (md_commit M txn), me_connected := False\<rparr>)))"

definition me_Ping :: "('db, 'txn, journal) memdb \<Rightarrow> 'db mem_events \<Rightarrow> unit res \<times> 'db mem_events" where
  "me_Ping M s = (if \<not> me_connected s then me_Connect M s else (Ok (), s))"

definition journal_not_connected :: goerr where
  "journal_not_connected = ErrNew ''journal store is not connected''"

text \<open>The fetch loop of \<open>PersistenceIDs\<close>: it stops when \<open>len(journals) == int(pageSize)\<close>.\<close>

fun me_page :: "u64 \<Rightarrow> journal iface list \<Rightarrow> journal list \<Rightarrow> journal list" where
  "me_page pageSize [] journals = journals"
| "me_page pageSize (row # rows) journals =
     (if int (length journals) = sint pageSize then journals
      else case as_row row of
             Some journal \<Rightarrow> me_page pageSize rows (journals @ [journal])
           | None \<Rightarrow> me_page pageSize rows journals)"

definition me_PersistenceIDs ::
  "('db, 'txn, journal) memdb \<Rightarrow> u64 \<Rightarrow> string \<Rightarrow> 'db mem_events \<Rightarrow> (string list \<times> string) res" where
  "me_PersistenceIDs M pageSize pageToken s =
     (if \<not> me_connected s then Err journal_not_connected
      else case me_db s of
        None \<Rightarrow> Panic
      | Some db \<Rightarrow>
          (let txn = md_txn M db False in
           case (if pageToken \<noteq> ''''
                 then md_lower_bound M journalTableName persistenceIDIndex [ArgString pageToken] txn
                 else md_get M journalTableName persistenceIDIndex [] txn) of
             Err err \<Rightarrow> Err (ErrWrap ''failed to get the persistence Ids'' err)
           | Panic \<Rightarrow> Panic
           | Ok rows \<Rightarrow>
               let journals = me_page pageSize rows [];
                   persistenceIDs = filter (\<lambda>id. id \<noteq> pageToken) (map jr_PersistenceID journals)
               in if persistenceIDs = [] then Ok ([], '''')
                  else let persistenceIDs = slice_stable (\<lambda>a b. a \<le> b) persistenceIDs
                       in Ok (persistenceIDs, last persistenceIDs)))"

definition journal_of :: "('t, 'm) protolib \<Rightarrow> string \<Rightarrow> event option \<Rightarrow> journal" where
  "journal_of L uid event =
     (let e = or_zero zero_event event in
      \<lparr>jr_Ordering = uid, jr_PersistenceID = ev_PersistenceId e,
       jr_SequenceNumber = ev_SequenceNumber e, jr_IsDeleted = ev_IsDeleted e,
       jr_EventPayload = marshal_bytes L (ev_Event e), jr_EventManifest = full_name L (ev_Event e),
       jr_Timestamp = ev_Timestamp e, jr_ShardNumber = ev_Shard e\<rparr>)"

fun me_write_loop ::
  "('t, 'm) protolib \<Rightarrow> ('db, 'txn, journal) memdb \<Rightarrow> (nat \<Rightarrow> string) \<Rightarrow> event option list \<Rightarrow>
   nat \<Rightarrow> 'txn \<Rightarrow> unit res \<times> nat \<times> 'txn" where
  "me_write_loop L M uuid [] n txn = (Ok (), n, txn)"
| "me_write_loop L M uuid (event # events) n txn =
     (case md_insert M journal_fields journalTableName (journal_of L (uuid n) event) txn of
        (Err err, txn') \<Rightarrow>
          (Err (ErrWrap ''failed to persist event on to the journal store'' err), Suc n, txn')
      | (Panic, txn') \<Rightarrow> (Panic, Suc n, txn')
      | (Ok _, txn') \<Rightarrow> me_write_loop L M uuid events (Suc n) txn')"

definition me_WriteEvents ::
  "('t, 'm) protolib \<Rightarrow> ('db, 'txn, journal) memdb \<Rightarrow> (nat \<Rightarrow> string) \<Rightarrow> event option list \<Rightarrow>
   'db mem_events \<Rightarrow> unit res \<times> 'db mem_events" where
  "me_WriteEvents L M uuid events s =
     (if \<not> me_connected s then (Err journal_not_connected, s)
      else case me_db s of
        None \<Rightarrow> (Panic, s)
      | Some db \<Rightarrow>
          (case me_write_loop L M uuid events (me_drawn s) (md_txn M db True) of
             (Ok _, n, txn) \<Rightarrow> (Ok (), s\<lparr>me_db := Some (md_commit M txn), me_drawn := n\<rparr>)
           | (Err err, n, _) \<Rightarrow> (Err err, s\<lparr>me_drawn := n\<rparr>)
           | (Panic, n, _) \<Rightarrow> (Panic, s\<lparr>me_drawn := n\<rparr>)))"

definition me_delete_err :: "u64 \<Rightarrow> string \<Rightarrow> goerr \<Rightarrow> goerr" where
  "me_delete_err toSequenceNumber persistenceID err =
     ErrWrap (''failed to delete '' @ fmt_u64 toSequenceNumber @ '' persistenceId='' @ persistenceID @ '' events'') err"

fun me_delete_loop ::
  "('db, 'txn, journal) memdb \<Rightarrow> u64 \<Rightarrow> journal list \<Rightarrow> 'txn \<Rightarrow> unit res \<times> 'txn" where
  "me_delete_loop M toSequenceNumber [] txn = (Ok (), txn)"
| "me_delete_loop M toSequenceNumber (journal # journals) txn =
     (if jr_SequenceNumber journal \<le> toSequenceNumber
      then case md_delete M journal_fields journalTableName journal txn of
             (Err err, txn') \<Rightarrow> (Err err, txn')
           | (Panic, txn') \<Rightarrow> (Panic, txn')
           | (Ok _, txn') \<Rightarrow> me_delete_loop M toSequenceNumber journals txn'
      else me_delete_loop M toSequenceNumber journals txn)"

definition me_DeleteEvents ::
  "('db, 'txn, journal) memdb \<Rightarrow> string \<Rightarrow> u64 \<Rightarrow> 'db mem_events \<Rightarrow> unit res \<times> 'db mem_events" where
  "me_DeleteEvents M persistenceID toSequenceNumber s =
     (if \<not> me_connected s then (Err journal_not_connected, s)
      else case me_db s of
        None \<Rightarrow> (Panic, s)
      | Some db \<Rightarrow>
          (case md_get M journalTableName persistenceIDIndex [ArgString persistenceID] (md_txn M db False) of
             Err err \<Rightarrow> (Err (me_delete_err toSequenceNumber persistenceID err), s)
           | Panic \<Rightarrow> (Panic, s)
           | Ok rows \<Rightarrow>
               (case me_delete_loop M toSequenceNumber (collect_rows rows) (md_txn M db True) of
                  (Err err, _) \<Rightarrow> (Err (me_delete_err toSequenceNumber persistenceID err), s)
                | (Panic, _) \<Rightarrow> (Panic, s)
                | (Ok _, txn) \<Rightarrow> (Ok (), s\<lparr>me_db := Some (md_commit M txn)\<rparr>))))"

definition journal_event :: "journal \<Rightarrow> any \<Rightarrow> event" where
  "journal_event j evt =
     zero_event\<lparr>ev_PersistenceId := jr_PersistenceID j, ev_SequenceNumber := jr_SequenceNumber j,
       ev_IsDeleted := jr_IsDeleted j, ev_Event := Some evt, ev_Timestamp := jr_Timestamp j,
       ev_Shard := jr_ShardNumber j\<rparr>"

text \<open>
  The loop that \<open>ReplayEvents\<close> and \<open>GetShardEvents\<close> share, up to the condition on a record:
  decode it, and append it while \<open>uint64(len(events)) <= limit\<close>.
\<close>

fun me_select_loop ::
  "('t, 'm) protolib \<Rightarrow> (journal \<Rightarrow> bool) \<Rightarrow> u64 \<Rightarrow> journal list \<Rightarrow> event list \<Rightarrow> event list res" where
  "me_select_loop L wanted limit [] events = Ok events"
| "me_select_loop L wanted limit (journal # journals) events =
     (if wanted journal
      then case me_toProto L (jr_EventManifest journal) (jr_EventPayload journal) of
             Err err \<Rightarrow> Err (ErrWrap ''failed to unmarshal the journal event'' err)
           | Panic \<Rightarrow> Panic
           | Ok evt \<Rightarrow>
               if of_nat (length events) \<le> limit
               then me_select_loop L wanted limit journals (events @ [journal_event journal evt])
               else me_select_loop L wanted limit journals events
      else me_select_loop L wanted limit journals events)"

definition me_ReplayEvents ::
  "('t, 'm) protolib \<Rightarrow> ('db, 'txn, journal) memdb \<Rightarrow> string \<Rightarrow> u64 \<Rightarrow> u64 \<Rightarrow> u64 \<Rightarrow>
   'db mem_events \<Rightarrow> event list res" where
  "me_ReplayEvents L M persistenceID fromSequenceNumber toSequenceNumber limit s =
     (if \<not> me_connected s then Err journal_not_connected
      else case me_db s of
        None \<Rightarrow> Panic
      | Some db \<Rightarrow>
          (case md_get M journalTableName persistenceIDIndex [ArgString persistenceID] (md_txn M db False) of
             Err err \<Rightarrow> Err (ErrWrap (''failed to replay events '' @
               fmt_u64 (toSequenceNumber - fromSequenceNumber + 1) @ '' for persistenceId='' @
               persistenceID @ '' events'') err)
           | Panic \<Rightarrow> Panic
           | Ok rows \<Rightarrow>
               let journals = collect_rows rows in
               if journals = [] then Ok []
               else bind_res (me_select_loop L (\<lambda>journal. fromSequenceNumber \<le> jr_SequenceNumber journal \<and>
                        jr_SequenceNumber journal \<le> toSequenceNumber) limit journals [])
                      (\<lambda>events. Ok (slice_stable (\<lambda>a b. ev_SequenceNumber a < ev_SequenceNumber b) events))))"

definition me_latest_msg :: "string \<Rightarrow> string" where
  "me_latest_msg persistenceID =
     ''failed to fetch the latest event from the database for persistenceId='' @ persistenceID"

definition me_GetLatestEvent ::
  "('t, 'm) protolib \<Rightarrow> ('db, 'txn, journal) memdb \<Rightarrow> string \<Rightarrow> 'db mem_events \<Rightarrow> event option res" where
  "me_GetLatestEvent L M persistenceID s =
     (if \<not> me_connected s then Err journal_not_connected
      else case me_db s of
        None \<Rightarrow> Panic
      | Some db \<Rightarrow>
          (case md_last M journalTableName persistenceIDIndex [ArgString persistenceID] (md_txn M db False) of
             Err err \<Rightarrow> if md_not_found M err then Ok None else Err (ErrWrap (me_latest_msg persistenceID) err)
           | Panic \<Rightarrow> Panic
           | Ok None \<Rightarrow> Ok None
           | Ok (Some raw) \<Rightarrow>
               (case as_row raw of
                  None \<Rightarrow> Err (ErrNew (me_latest_msg persistenceID))
                | Some journal \<Rightarrow>
                    (case me_toProto L (jr_EventManifest journal) (jr_EventPayload journal) of
                       Err err \<Rightarrow> Err (ErrWrap ''failed to unmarshal the journal event'' err)
                     | Panic \<Rightarrow> Panic
                     | Ok evt \<Rightarrow> Ok (Some (journal_event journal evt))))))"

definition me_GetShardEvents ::
  "('t, 'm) protolib \<Rightarrow> ('db, 'txn, journal) memdb \<Rightarrow> u64 \<Rightarrow> i64 \<Rightarrow> u64 \<Rightarrow>
   'db mem_events \<Rightarrow> (event list \<times> i64) res" where
  "me_GetShardEvents L M shardNumber offset limit s =
     (if \<not> me_connected s then Err journal_not_connected
      else case me_db s of
        None \<Rightarrow> Panic
      | Some db \<Rightarrow>
          (case md_get M journalTableName persistenceIDIndex [] (md_txn M db False) of
             Err err \<Rightarrow> Err (ErrWrap (''failed to get events of shard=('' @ fmt_u64 shardNumber @ '')'') err)
           | Panic \<Rightarrow> Panic
           | Ok rows \<Rightarrow>
               let journals = filter (\<lambda>journal. jr_ShardNumber journal = shardNumber) (collect_rows rows) in
               if journals = [] then Ok ([], 0)
               else bind_res (me_select_loop L (\<lambda>journal. sint offset < sint (jr_Timestamp journal)) limit journals [])
                 (\<lambda>events.
                    if events = [] then Ok ([], 0)
                    else let events = slice_stable (\<lambda>a b. sint (ev_Timestamp a) \<le> sint (ev_Timestamp b)) events
                         in Ok (events, ev_Timestamp (last events)))))"

text \<open>\<open>to_slice\<close> is the set of goset built by \<open>Add\<close>, read with \<open>ToSlice\<close>.\<close>

definition me_ShardNumbers ::
  "('db, 'txn, journal) memdb \<Rightarrow> (u64 list \<Rightarrow> u64 list) \<Rightarrow> 'db mem_events \<Rightarrow> u64 list res" where
  "me_ShardNumbers M to_slice s =
     (if \<not> me_connected s then Err journal_not_connected
      else case me_db s of
        None \<Rightarrow> Panic
      | Some db \<Rightarrow>
          (case md_get M journalTableName persistenceIDIndex [] (md_txn M db False) of
             Err err \<Rightarrow> Err (ErrWrap ''failed to fetch the list of shard number'' err)
           | Panic \<Rightarrow> Panic
           | Ok rows \<Rightarrow>
               let journals = collect_rows rows in
               if journals = [] then Ok [] else Ok (to_slice (map jr_ShardNumber journals))))"

lemma journalSchema_ok [simp]: "schema_ok journalSchema"
  by (simp add: schema_ok_def journalSchema_def journalTable_def journal_names)

end
