(* ===== verification/EventStore.thy ===== *)
theory EventStore
  imports Proto
begin

text \<open>
  The interface \<open>persistence.EventsStore\<close>, as far as the memory and the Postgres store keep the
  same promises: what \<open>WriteEvents\<close>, \<open>DeleteEvents\<close> and \<open>ReplayEvents\<close> say of the bag of
  events stored. \<open>obs\<close> is what a store keeps of an event, \<open>id_ok\<close> the persistence ids it can
  be asked about, \<open>storable\<close> the events it can keep. A write or a delete is all or nothing.
\<close>

text \<open>The events of a range of sequence numbers, both ends included, of one persistence id.\<close>

definition in_range :: "string \<Rightarrow> u64 \<Rightarrow> u64 \<Rightarrow> event \<Rightarrow> bool" where
  "in_range p lo hi e \<longleftrightarrow> ev_PersistenceId e = p \<and> lo \<le> ev_SequenceNumber e \<and> ev_SequenceNumber e \<le> hi"

definition upto_seq :: "string \<Rightarrow> u64 \<Rightarrow> event \<Rightarrow> bool" where
  "upto_seq p n e \<longleftrightarrow> ev_PersistenceId e = p \<and> ev_SequenceNumber e \<le> n"

text \<open>
  The abstract journal: a bag of events, and what a command of a client does to it. \<open>obs\<close> is
  what the journal keeps of an event. A client runs its commands in order and stops at the
  first that fails.
\<close>

datatype event_cmd = CmdWrite "event list" | CmdDelete string u64

fun apply_cmd :: "(event \<Rightarrow> event) \<Rightarrow> event_cmd \<Rightarrow> event multiset \<Rightarrow> event multiset" where
  "apply_cmd obs (CmdWrite es) B = B + mset (map obs es)"
| "apply_cmd obs (CmdDelete p n) B = filter_mset (\<lambda>e. \<not> upto_seq p n e) B"

fun cmd_ok :: "(event \<Rightarrow> bool) \<Rightarrow> (string \<Rightarrow> bool) \<Rightarrow> event_cmd \<Rightarrow> bool" where
  "cmd_ok storable id_ok (CmdWrite es) \<longleftrightarrow> list_all storable es"
| "cmd_ok storable id_ok (CmdDelete p n) \<longleftrightarrow> id_ok p"

fun run_cmds ::
  "(event option list \<Rightarrow> 's \<Rightarrow> unit res \<times> 's) \<Rightarrow> (string \<Rightarrow> u64 \<Rightarrow> 's \<Rightarrow> unit res \<times> 's) \<Rightarrow>
   event_cmd list \<Rightarrow> 's \<Rightarrow> unit res \<times> 's" where
  "run_cmds W D [] s = (Ok (), s)"
| "run_cmds W D (c # cs) s =
     (case (case c of CmdWrite es \<Rightarrow> W (map Some es) s | CmdDelete p n \<Rightarrow> D p n s) of
        (Ok _, s') \<Rightarrow> run_cmds W D cs s'
      | (Err e, s') \<Rightarrow> (Err e, s')
      | (Panic, s') \<Rightarrow> (Panic, s'))"

text \<open>A function of events that keeps ids and numbers maps one abstract journal to another.\<close>

lemma apply_cmd_image:
  assumes "\<And>e. ev_PersistenceId (f e) = ev_PersistenceId e \<and> ev_SequenceNumber (f e) = ev_SequenceNumber e"
    and "\<And>e. obs' e = f (obs e)"
  shows "apply_cmd obs' c (image_mset f B) = image_mset f (apply_cmd obs c B)"
proof -
  have "obs' = (\<lambda>e. f (obs e))" using assms(2) by blast
  then show ?thesis using assms(1)
    by (cases c) (simp_all add: filter_mset_image_mset upto_seq_def comp_def multiset.map_comp)
qed

lemma fold_apply_cmd_image:
  assumes "\<And>e. ev_PersistenceId (f e) = ev_PersistenceId e \<and> ev_SequenceNumber (f e) = ev_SequenceNumber e"
    and "\<And>e. obs' e = f (obs e)"
  shows "fold (apply_cmd obs') cs (image_mset f B) = image_mset f (fold (apply_cmd obs) cs B)"
  by (induction cs arbitrary: B) (simp_all add: apply_cmd_image [OF assms])

locale event_store =
  fixes rely :: "'env \<Rightarrow> bool"
    and inv :: "'env \<Rightarrow> 's \<Rightarrow> bool"
    and storable :: "'env \<Rightarrow> event \<Rightarrow> bool"
    and id_ok :: "string \<Rightarrow> bool"
    and obs :: "event \<Rightarrow> event"
    and events :: "'env \<Rightarrow> 's \<Rightarrow> event multiset"
    and WriteEvents :: "'env \<Rightarrow> event option list \<Rightarrow> 's \<Rightarrow> unit res \<times> 's"
    and DeleteEvents :: "'env \<Rightarrow> string \<Rightarrow> u64 \<Rightarrow> 's \<Rightarrow> unit res \<times> 's"
    and ReplayEvents :: "'env \<Rightarrow> string \<Rightarrow> u64 \<Rightarrow> u64 \<Rightarrow> u64 \<Rightarrow> 's \<Rightarrow> event list res"
  assumes write_inv: "\<lbrakk>rely env; inv env s; \<forall>e \<in> set es. storable env e;
      WriteEvents env (map Some es) s = (r, s')\<rbrakk> \<Longrightarrow> inv env s'"
    and write_ok: "\<lbrakk>rely env; inv env s; \<forall>e \<in> set es. storable env e;
      WriteEvents env (map Some es) s = (Ok (), s')\<rbrakk> \<Longrightarrow> events env s' = events env s + mset (map obs es)"
    and write_fail: "\<lbrakk>rely env; inv env s; \<forall>e \<in> set es. storable env e;
      WriteEvents env (map Some es) s = (r, s'); r \<noteq> Ok ()\<rbrakk>
      \<Longrightarrow> events env s' = events env s \<or> events env s' = events env s + mset (map obs es)"
    and delete_inv: "\<lbrakk>rely env; inv env s; id_ok p; DeleteEvents env p n s = (r, s')\<rbrakk> \<Longrightarrow> inv env s'"
    and delete_ok: "\<lbrakk>rely env; inv env s; id_ok p; DeleteEvents env p n s = (Ok (), s')\<rbrakk>
      \<Longrightarrow> events env s' = filter_mset (\<lambda>e. \<not> upto_seq p n e) (events env s)"
    and delete_fail: "\<lbrakk>rely env; inv env s; id_ok p; DeleteEvents env p n s = (r, s'); r \<noteq> Ok ()\<rbrakk>
      \<Longrightarrow> events env s' = events env s \<or> events env s' = filter_mset (\<lambda>e. \<not> upto_seq p n e) (events env s)"
    and replay_ok: "\<lbrakk>rely env; inv env s; id_ok p; ReplayEvents env p lo hi l s = Ok xs;
      size (filter_mset (in_range p lo hi) (events env s)) \<le> unat l\<rbrakk>
      \<Longrightarrow> mset xs = filter_mset (in_range p lo hi) (events env s) \<and> sorted (map ev_SequenceNumber xs)"
    and obs_key: "ev_PersistenceId (obs e) = ev_PersistenceId e" "ev_SequenceNumber (obs e) = ev_SequenceNumber e"
begin

text \<open>A replay that is not cut off by its limit is determined by the events, if their numbers differ.\<close>

lemma replay_unique:
  assumes "rely env" "inv env s" "id_ok p" "ReplayEvents env p lo hi l s = Ok xs"
    and "filter_mset (in_range p lo hi) (events env s) = mset ys"
    and "sorted (map ev_SequenceNumber ys)" "distinct (map ev_SequenceNumber ys)" "length ys \<le> unat l"
  shows "xs = ys"
proof -
  have "size (filter_mset (in_range p lo hi) (events env s)) \<le> unat l" using assms(5,8) by simp
  from replay_ok [OF assms(1-4) this] have "mset xs = mset ys" "sorted (map ev_SequenceNumber xs)"
    using assms(5) by simp_all
  then show ?thesis
    using sorted_key_unique [of ys xs ev_SequenceNumber] assms(6,7) by simp
qed

text \<open>The store refines the abstract journal.\<close>

lemma run_cmds_events:
  assumes "rely env" "list_all (cmd_ok (storable env) id_ok) cs"
    and "run_cmds (WriteEvents env) (DeleteEvents env) cs s = (Ok (), s')" "inv env s"
  shows "inv env s' \<and> events env s' = fold (apply_cmd obs) cs (events env s)"
  using assms(2-4)
proof (induction cs arbitrary: s)
  case (Cons c cs)
  let ?step = "case c of CmdWrite es \<Rightarrow> WriteEvents env (map Some es) s | CmdDelete p n \<Rightarrow> DeleteEvents env p n s"
  obtain s1 where step: "?step = (Ok (), s1)" and rest: "run_cmds (WriteEvents env) (DeleteEvents env) cs s1 = (Ok (), s')"
    using Cons.prems(2) by (cases ?step) (auto split: res.splits)
  have "inv env s1 \<and> events env s1 = apply_cmd obs c (events env s)"
  proof (cases c)
    case (CmdWrite es)
    then have "\<forall>e \<in> set es. storable env e" "WriteEvents env (map Some es) s = (Ok (), s1)"
      using Cons.prems(1) step by (simp_all add: list_all_iff)
    with write_inv [OF assms(1) Cons.prems(3) this] write_ok [OF assms(1) Cons.prems(3) this]
    show ?thesis by (simp add: CmdWrite)
  next
    case (CmdDelete p n)
    then have "id_ok p" "DeleteEvents env p n s = (Ok (), s1)" using Cons.prems(1) step by simp_all
    with delete_inv [OF assms(1) Cons.prems(3) this] delete_ok [OF assms(1) Cons.prems(3) this]
    show ?thesis by (simp add: CmdDelete)
  qed
  then show ?case using Cons.IH [OF _ rest] Cons.prems(1) by simp
qed simp

lemma replay_after_delete:
  assumes "rely env" "inv env s" "id_ok p" "DeleteEvents env p n s = (Ok (), s')"
    and "ReplayEvents env p lo hi l s' = Ok xs"
    and "size (filter_mset (in_range p lo hi) (events env s')) \<le> unat l" and "x \<in> set xs"
  shows "n < ev_SequenceNumber x"
proof -
  have "inv env s'" using assms(1-4) by (rule delete_inv)
  from replay_ok [OF assms(1) this assms(3,5,6)] have "set xs \<subseteq> set_mset (events env s')"
    and r: "\<forall>x \<in> set xs. in_range p lo hi x"
    by (metis set_mset_mset multiset_filter_subset set_mset_mono, metis set_mset_mset set_mset_filter mem_Collect_eq)
  with delete_ok [OF assms(1-4)] assms(7) show ?thesis
    by (auto simp: upto_seq_def in_range_def not_le)
qed

text \<open>What a journal written in one go gives back, on a store with no events of its id.\<close>

lemma replay_written:
  assumes "rely env" "inv env s" "\<forall>e \<in> set es. storable env e" "id_ok p"
    and "WriteEvents env (map Some es) s = (Ok (), s')"
    and "\<forall>e \<in># events env s. ev_PersistenceId e \<noteq> p"
    and "\<forall>e \<in> set es. in_range p lo hi e"
    and "sorted (map ev_SequenceNumber es)" "distinct (map ev_SequenceNumber es)" "length es \<le> unat l"
    and "ReplayEvents env p lo hi l s' = Ok xs"
  shows "xs = map obs es"
proof -
  have "inv env s'" using assms(1,2,3,5) by (rule write_inv)
  have none: "filter_mset (in_range p lo hi) (events env s) = {#}"
    using assms(6) by (auto simp: in_range_def)
  have "\<forall>e \<in> set (map obs es). in_range p lo hi e" using assms(7) by (auto simp: in_range_def obs_key)
  then have all: "filter_mset (in_range p lo hi) (mset (map obs es)) = mset (map obs es)"
    by (metis mset_filter filter_True)
  have "filter_mset (in_range p lo hi) (events env s') =
      filter_mset (in_range p lo hi) (events env s) + filter_mset (in_range p lo hi) (mset (map obs es))"
    by (simp only: write_ok [OF assms(1,2,3,5)] filter_union_mset)
  also have "\<dots> = mset (map obs es)" by (simp only: none all) simp
  finally show ?thesis
    using replay_unique [OF assms(1) \<open>inv env s'\<close> assms(4,11), of "map obs es"] assms(8-10)
    by (simp add: obs_key comp_def)
qed

end

text \<open>
  A store whose latest event is the one with the greatest sequence number, and which never
  holds two events with the same id and number. Then the latest event is the last one that a
  full replay gives.
\<close>

locale latest_event_store = event_store +
  fixes GetLatestEvent :: "'a \<Rightarrow> string \<Rightarrow> 'b \<Rightarrow> event option res"
  assumes latest_ok: "\<lbrakk>rely env; inv env s; id_ok p; p \<noteq> []; GetLatestEvent env p s = Ok y\<rbrakk> \<Longrightarrow>
      (case y of
         None \<Rightarrow> \<forall>e \<in># events env s. ev_PersistenceId e \<noteq> p
       | Some e \<Rightarrow> e \<in># events env s \<and> ev_PersistenceId e = p \<and>
           (\<forall>e' \<in># events env s. ev_PersistenceId e' = p \<longrightarrow> ev_SequenceNumber e' \<le> ev_SequenceNumber e))"
    and seq_unique: "\<lbrakk>rely env; inv env s; e \<in># events env s; e' \<in># events env s;
      ev_PersistenceId e = ev_PersistenceId e'; ev_SequenceNumber e = ev_SequenceNumber e'\<rbrakk> \<Longrightarrow> e = e'"
begin

lemma latest_is_last_replayed:
  assumes "rely env" "inv env s" "id_ok p" "p \<noteq> []" "GetLatestEvent env p s = Ok y"
    and "ReplayEvents env p 0 hi l s = Ok xs"
    and "size (filter_mset (in_range p 0 hi) (events env s)) \<le> unat l"
    and "\<forall>e \<in># events env s. ev_PersistenceId e = p \<longrightarrow> ev_SequenceNumber e \<le> hi"
  shows "y = (if xs = [] then None else Some (last xs))"
proof -
  have xs: "mset xs = filter_mset (in_range p 0 hi) (events env s)" "sorted (map ev_SequenceNumber xs)"
    using replay_ok [OF assms(1,2,3,6,7)] by simp_all
  have "set xs = set_mset (filter_mset (in_range p 0 hi) (events env s))"
    by (simp only: xs(1) [symmetric] set_mset_mset)
  then have mem: "e \<in> set xs \<longleftrightarrow> e \<in># events env s \<and> ev_PersistenceId e = p" for e
    using assms(8) by (auto simp: in_range_def)
  show ?thesis
  proof (cases y)
    case None
    then have "e \<notin> set xs" for e using latest_ok [OF assms(1-5)] mem [of e] by auto
    then have "xs = []" by (cases xs) auto
    then show ?thesis using None by simp
  next
    case (Some e)
    then have e: "e \<in># events env s" "ev_PersistenceId e = p"
      and max: "\<And>e'. e' \<in> set xs \<Longrightarrow> ev_SequenceNumber e' \<le> ev_SequenceNumber e"
      using latest_ok [OF assms(1-5)] mem by auto
    then have "e \<in> set xs" using mem by blast
    then have ne: "xs \<noteq> []" by auto
    then obtain ys z where z: "xs = ys @ [z]" by (metis rev_exhaust)
    then have "ev_SequenceNumber e \<le> ev_SequenceNumber z"
      using \<open>e \<in> set xs\<close> xs(2) by (auto simp: sorted_append)
    moreover have "ev_SequenceNumber z \<le> ev_SequenceNumber e" using max z by simp
    ultimately have "ev_SequenceNumber z = ev_SequenceNumber e" by simp
    moreover have "z \<in># events env s" "ev_PersistenceId z = p" using mem [of z] z by auto
    ultimately have "z = e" using seq_unique [OF assms(1,2) _ e(1)] e(2) by simp
    then show ?thesis using Some z by simp
  qed
qed

end

end
