(* ===== verification/EventsMemoryFacts.thy ===== *)
theory EventsMemoryFacts
  imports EventsMemory EventStore StateStore
begin

text \<open>
  The memory event store is correct: the invariant of its two indexes in use, what each
  operation does to the records and which records a query reads, and the interfaces
  \<open>lifecycle\<close> and \<open>event_store\<close> interpreted on it. Where the code departs from the
  documented behaviour (the cut at the limit, the latest event, the page of ids), the lemmas
  state what the code does.
\<close>

section \<open>The records of the indexes\<close>

definition jr_pkey :: "journal \<Rightarrow> string" where
  "jr_pkey j = jr_PersistenceID j @ nul @ jr_Ordering j @ nul"

definition journal_ok :: "(nat \<Rightarrow> string) \<Rightarrow> nat \<Rightarrow> journal \<Rightarrow> bool" where
  "journal_ok uuid n j \<longleftrightarrow> jr_PersistenceID j \<noteq> [] \<and> nul_free (jr_PersistenceID j) \<and>
     (\<exists>i < n. jr_Ordering j = uuid i)"

text \<open>The records in the order of the persistence id index: by id, then by UUID.\<close>

definition journal_rows :: "journal trees \<Rightarrow> journal list" where
  "journal_rows T = map snd (T persistenceIDIndex)"

definition journal_trees :: "(nat \<Rightarrow> string) \<Rightarrow> nat \<Rightarrow> journal trees \<Rightarrow> bool" where
  "journal_trees uuid n T \<longleftrightarrow> tree_ok (T journalPK) \<and> tree_ok (T persistenceIDIndex) \<and>
     (\<forall>e \<in> set (T journalPK). fst e = jr_Ordering (snd e) @ nul) \<and>
     (\<forall>e \<in> set (T persistenceIDIndex). fst e = jr_pkey (snd e) \<and> journal_ok uuid n (snd e)) \<and>
     snd ` set (T journalPK) = snd ` set (T persistenceIDIndex)"

lemma set_journal_rows: "set (journal_rows T) = snd ` set (T persistenceIDIndex)"
  by (simp add: journal_rows_def)

lemma journal_rows_ok: "journal_trees uuid n T \<Longrightarrow> j \<in> set (journal_rows T) \<Longrightarrow> journal_ok uuid n j"
  by (auto simp: journal_trees_def set_journal_rows)

lemma journal_trees_mem:
  assumes "journal_trees uuid n T"
  shows "(k, j) \<in> set (T journalPK) \<longleftrightarrow> j \<in> set (journal_rows T) \<and> k = jr_Ordering j @ nul"
    and "(k, j) \<in> set (T persistenceIDIndex) \<longleftrightarrow> j \<in> set (journal_rows T) \<and> k = jr_pkey j"
  using assms unfolding journal_trees_def set_journal_rows by (auto 4 4 simp: image_iff)

lemma distinct_journal_rows:
  assumes "journal_trees uuid n T"
  shows "distinct (journal_rows T)"
proof -
  have "map fst (T persistenceIDIndex) = map jr_pkey (journal_rows T)"
    using assms by (auto simp: journal_trees_def journal_rows_def)
  moreover have "distinct (map fst (T persistenceIDIndex))"
    using assms by (simp add: journal_trees_def tree_ok_distinct)
  ultimately show ?thesis by (metis distinct_map)
qed

lemma journal_rows_inj:
  assumes "journal_trees uuid n T" "j \<in> set (journal_rows T)" "x \<in> set (journal_rows T)"
  shows "jr_Ordering x = jr_Ordering j \<longleftrightarrow> x = j" and "jr_pkey x = jr_pkey j \<longleftrightarrow> x = j"
proof -
  have "tree_ok (T journalPK)" "tree_ok (T persistenceIDIndex)"
    using assms(1) by (simp_all add: journal_trees_def)
  then have "(k, x) \<in> set (T journalPK) \<Longrightarrow> (k, j) \<in> set (T journalPK) \<Longrightarrow> x = j"
    and "(k, x) \<in> set (T persistenceIDIndex) \<Longrightarrow> (k, j) \<in> set (T persistenceIDIndex) \<Longrightarrow> x = j" for k
    by (metis tree_lookup option.inject)+
  then show "jr_Ordering x = jr_Ordering j \<longleftrightarrow> x = j" and "jr_pkey x = jr_pkey j \<longleftrightarrow> x = j"
    using assms(2,3) by (auto simp: journal_trees_mem [OF assms(1)])
qed

lemma journal_trees_Nil [simp]: "journal_trees uuid n (\<lambda>_. [])" "journal_rows (\<lambda>_. []) = []"
  by (simp_all add: journal_trees_def journal_rows_def)

section \<open>Inserting and deleting a record\<close>

lemma journal_keys_None:
  "jr_Ordering j = [] \<or> jr_PersistenceID j = [] \<Longrightarrow> object_keys E journalTable (journal_fields j) = None"
  by (cases "jr_Ordering j = []")
    (simp_all add: object_keys_def journalTable_def journal_fields_def journal_names)

lemma journal_keys_Some:
  assumes "jr_Ordering j \<noteq> []" "jr_PersistenceID j \<noteq> []"
  obtains ks where "object_keys E journalTable (journal_fields j) = Some (jr_Ordering j @ nul, ks)"
    and "map_of ks journalPK = Some (jr_Ordering j @ nul)" and "map_of ks persistenceIDIndex = Some (jr_pkey j)"
  by (rule that [of "[(journalPK, jr_Ordering j @ nul),
        (isDeletedIndex, ''<bool Value>'' @ nul @ jr_Ordering j @ nul),
        (persistenceIDIndex, jr_pkey j),
        (sequenceNumberIndex, uint_bytes E (jr_SequenceNumber j) @ jr_Ordering j @ nul),
        (shardNumberIndex, uint_bytes E (jr_ShardNumber j) @ jr_Ordering j @ nul),
        (timestampIndex, int_bytes E (jr_Timestamp j) @ jr_Ordering j @ nul)]"])
    (simp_all add: object_keys_def journalTable_def journal_fields_def jr_pkey_def journal_names assms)

lemma insert_journal:
  assumes "journal_trees uuid n T" "uuid_ok uuid" "jr_Ordering j = uuid n" "nul_free (jr_PersistenceID j)"
  shows "case insert_obj E journalTable journal_fields j T of
      None \<Rightarrow> jr_PersistenceID j = []
    | Some T' \<Rightarrow> jr_PersistenceID j \<noteq> [] \<and> journal_trees uuid (Suc n) T' \<and>
        mset (journal_rows T') = add_mset j (mset (journal_rows T))"
proof (cases "jr_PersistenceID j = []")
  case True
  then show ?thesis by (simp add: insert_obj_def journal_keys_None)
next
  case False
  have id: "jr_Ordering j \<noteq> []" using assms(2,3) by (simp add: uuid_ok_def)
  have fresh: "jr_Ordering x \<noteq> jr_Ordering j" "jr_pkey x \<noteq> jr_pkey j" if "x \<in> set (journal_rows T)" for x
  proof -
    have ok: "journal_ok uuid n x" by (rule journal_rows_ok [OF assms(1) that])
    then show ne: "jr_Ordering x \<noteq> jr_Ordering j"
      using assms(2,3) by (auto simp: journal_ok_def uuid_ok_def dest: injD)
    show "jr_pkey x \<noteq> jr_pkey j" using ok ne assms(4)
      by (simp add: jr_pkey_def journal_ok_def append_nul_eq_iff)
  qed
  have noid: "map_of (T journalPK) (jr_Ordering j @ nul) = None"
    using fresh(1) by (force simp: map_of_eq_None_iff journal_trees_mem(1) [OF assms(1)])
  have nopk: "jr_pkey j \<notin> fst ` set (T persistenceIDIndex)"
    using fresh(2) journal_trees_mem(2) [OF assms(1)] by force
  have ids: "journalPK = ''id''" by (simp add: journal_names)
  obtain ks where ks: "object_keys E journalTable (journal_fields j) = Some (jr_Ordering j @ nul, ks)"
    "map_of ks journalPK = Some (jr_Ordering j @ nul)" "map_of ks persistenceIDIndex = Some (jr_pkey j)"
    using journal_keys_Some [OF id False] .
  then obtain T' where T': "insert_obj E journalTable journal_fields j T = Some T'"
    and pk: "T' journalPK = tree_put (jr_Ordering j @ nul) j (T journalPK)"
    and pid: "T' persistenceIDIndex = tree_put (jr_pkey j) j (T persistenceIDIndex)"
    using noid by (simp add: insert_obj_def clear_id_def put_keys_def ids [symmetric])
  have "mset (journal_rows T') = add_mset j (mset (journal_rows T))"
    by (simp add: journal_rows_def pid mset_tree_put [OF nopk])
  moreover have "journal_trees uuid (Suc n) T'"
  proof -
    have ok: "journal_ok uuid (Suc n) j" using assms(3,4) False by (auto simp: journal_ok_def)
    have "journal_ok uuid n x \<Longrightarrow> journal_ok uuid (Suc n) x" for x
      by (auto simp: journal_ok_def intro: less_SucI)
    moreover have "set (T' journalPK) = insert (jr_Ordering j @ nul, j) (set (T journalPK))"
      using assms(1) noid by (simp add: pk set_tree_put_fresh journal_trees_def map_of_eq_None_iff)
    moreover have "set (T' persistenceIDIndex) = insert (jr_pkey j, j) (set (T persistenceIDIndex))"
      using assms(1) nopk by (simp add: pid set_tree_put_fresh journal_trees_def)
    ultimately show ?thesis
      using assms(1) ok unfolding journal_trees_def by (simp add: pk pid)
  qed
  ultimately show ?thesis using T' False by simp
qed

lemma delete_journal:
  assumes "journal_trees uuid n T" "uuid_ok uuid" "j \<in> set (journal_rows T)"
  shows "\<exists>T'. delete_obj E journalTable journal_fields j T = Some T' \<and> journal_trees uuid n T' \<and>
    journal_rows T' = filter (\<lambda>x. x \<noteq> j) (journal_rows T)"
proof -
  have "journal_ok uuid n j" by (rule journal_rows_ok [OF assms(1,3)])
  then have ne: "jr_Ordering j \<noteq> []" "jr_PersistenceID j \<noteq> []"
    using assms(2) unfolding journal_ok_def uuid_ok_def by metis+
  have ids: "journalPK = ''id''" by (simp add: journal_names)
  have "(jr_Ordering j @ nul, j) \<in> set (T journalPK)"
    using assms(3) by (simp add: journal_trees_mem [OF assms(1)])
  then have found: "map_of (T journalPK) (jr_Ordering j @ nul) = Some j"
    using assms(1) by (simp add: tree_lookup journal_trees_def)
  obtain ks where "object_keys E journalTable (journal_fields j) = Some (jr_Ordering j @ nul, ks)"
    "map_of ks journalPK = Some (jr_Ordering j @ nul)" "map_of ks persistenceIDIndex = Some (jr_pkey j)"
    using journal_keys_Some [OF ne] .
  with found obtain T' where T': "delete_obj E journalTable journal_fields j T = Some T'"
    and pk: "T' journalPK = tree_del (jr_Ordering j @ nul) (T journalPK)"
    and pid: "T' persistenceIDIndex = tree_del (jr_pkey j) (T persistenceIDIndex)"
    by (simp add: delete_obj_def clear_id_def del_keys_def ids [symmetric])
  note inj = journal_rows_inj [OF assms(1,3)]
  have "map snd (filter (\<lambda>e. fst e \<noteq> jr_pkey j) (T persistenceIDIndex)) =
      filter (\<lambda>x. x \<noteq> j) (map snd (T persistenceIDIndex))"
  proof -
    have "fst e \<noteq> jr_pkey j \<longleftrightarrow> snd e \<noteq> j" if "e \<in> set (T persistenceIDIndex)" for e
      using that inj(2) journal_trees_mem(2) [OF assms(1), of "fst e" "snd e"] by auto
    then show ?thesis by (simp add: filter_map comp_def cong: filter_cong)
  qed
  then have rows: "journal_rows T' = filter (\<lambda>x. x \<noteq> j) (journal_rows T)"
    by (simp add: journal_rows_def pid tree_del_def)
  have "snd ` set (T' journalPK) = set (journal_rows T) - {j}"
  proof -
    have "snd e \<noteq> j \<longleftrightarrow> fst e \<noteq> jr_Ordering j @ nul" if "e \<in> set (T journalPK)" for e
      using that inj(1) journal_trees_mem(1) [OF assms(1), of "fst e" "snd e"] by auto
    then have "snd ` {e \<in> set (T journalPK). fst e \<noteq> jr_Ordering j @ nul} = snd ` set (T journalPK) - {j}"
      by force
    then show ?thesis using assms(1) by (simp add: pk journal_trees_def set_journal_rows)
  qed
  moreover have "set (journal_rows T') = set (journal_rows T) - {j}" by (auto simp: rows)
  ultimately have "journal_trees uuid n T'"
    using assms(1) unfolding journal_trees_def set_journal_rows by (simp add: pk pid)
  then show ?thesis using T' rows by blast
qed

lemma delete_journals:
  "journal_trees uuid n T \<Longrightarrow> uuid_ok uuid \<Longrightarrow> distinct xs \<Longrightarrow> set xs \<subseteq> set (journal_rows T) \<Longrightarrow>
   \<exists>T'. delete_objs E journalTable journal_fields xs T = Some T' \<and> journal_trees uuid n T' \<and>
     journal_rows T' = filter (\<lambda>x. x \<notin> set xs) (journal_rows T)"
proof (induction xs arbitrary: T)
  case Nil
  then show ?case by simp
next
  case (Cons j xs)
  obtain T1 where T1: "delete_obj E journalTable journal_fields j T = Some T1" "journal_trees uuid n T1"
    and rows: "journal_rows T1 = filter (\<lambda>x. x \<noteq> j) (journal_rows T)"
    using delete_journal [OF Cons.prems(1,2), of j] Cons.prems(4) by auto
  have "set xs \<subseteq> set (journal_rows T1)" using Cons.prems(3,4) by (auto simp: rows)
  from Cons.IH [OF T1(2) Cons.prems(2) _ this] Cons.prems(3) T1(1) show ?case
    by (auto simp: rows intro!: filter_cong)
qed

end
