(* ===== verification/EventsMemoryStore.thy ===== *)
theory EventsMemoryStore
  imports EventsMemoryFacts
begin

text \<open>
  The operations of the memory event store on its records, and the interfaces
  \<open>lifecycle\<close> and \<open>event_store\<close> interpreted on them.
\<close>

section \<open>Queries\<close>

lemma prefix_rows:
  assumes "journal_trees uuid n T" "nul_free p"
  shows "tree_prefix (p @ nul) (T persistenceIDIndex) = filter (\<lambda>j. jr_PersistenceID j = p) (journal_rows T)"
    and "tree_from (p @ nul) (T persistenceIDIndex) = filter (\<lambda>j. p \<le> jr_PersistenceID j) (journal_rows T)"
proof -
  have key: "fst e = jr_pkey (snd e) \<and> nul_free (jr_PersistenceID (snd e))"
    if "e \<in> set (T persistenceIDIndex)" for e
    using assms(1) that by (auto simp: journal_trees_def journal_ok_def)
  have "prefix (p @ nul) (fst e) \<longleftrightarrow> jr_PersistenceID (snd e) = p"
    and "p @ nul \<le> fst e \<longleftrightarrow> p \<le> jr_PersistenceID (snd e)" if "e \<in> set (T persistenceIDIndex)" for e
    using key [OF that] assms(2) by (auto simp: jr_pkey_def prefix_nul_iff append_nul_le_iff)
  then show "tree_prefix (p @ nul) (T persistenceIDIndex) = filter (\<lambda>j. jr_PersistenceID j = p) (journal_rows T)"
    and "tree_from (p @ nul) (T persistenceIDIndex) = filter (\<lambda>j. p \<le> jr_PersistenceID j) (journal_rows T)"
    by (simp_all add: tree_prefix_def tree_from_def journal_rows_def filter_map comp_def cong: filter_cong)
qed

lemma sorted_journal_rows:
  assumes "journal_trees uuid n T"
  shows "sorted (map jr_PersistenceID (journal_rows T))"
proof -
  let ?t = "T persistenceIDIndex"
  have ok: "\<forall>e \<in> set ?t. fst e = jr_pkey (snd e) \<and> nul_free (jr_PersistenceID (snd e))"
    using assms by (auto simp: journal_trees_def journal_ok_def)
  have "sorted_wrt (\<lambda>a b. fst a < fst b) ?t"
    using assms by (simp add: journal_trees_def tree_ok_def sorted_wrt_map)
  then have "sorted_wrt (\<lambda>a b. jr_PersistenceID (snd a) \<le> jr_PersistenceID (snd b)) ?t"
  proof (rule sorted_wrt_mono_rel [rotated])
    fix a b assume "a \<in> set ?t" "b \<in> set ?t" "fst a < fst b"
    then show "jr_PersistenceID (snd a) \<le> jr_PersistenceID (snd b)"
      using ok by (auto simp: jr_pkey_def dest: append_nul_mono)
  qed
  then show ?thesis by (simp add: journal_rows_def sorted_wrt_map comp_def)
qed

abbreviation jt :: "('db, 'txn, journal) mdghost \<Rightarrow> 'txn \<Rightarrow> journal trees" where
  "jt G t \<equiv> snd (mg_txn G t) journalTableName"

lemma journal_table: "map_of journalSchema journalTableName = Some journalTable"
  by (simp add: journalSchema_def)

lemma journal_pid_index:
  "map_of (tb_Indexes journalTable) persistenceIDIndex =
     Some \<lparr>ix_Name = persistenceIDIndex, ix_AllowMissing = False, ix_Unique = False,
            ix_Indexer = StringFieldIndex ''PersistenceID'' False\<rparr>"
  "map_of (tb_Indexes journalTable) journalPK \<noteq> None"
  by (simp_all add: journalTable_def journal_names)

lemma journal_queries:
  assumes "memdb_contract M G" "fst (mg_txn G t) = journalSchema" "journal_trees uuid n (jt G t)"
  shows "nul_free p \<Longrightarrow> md_get M journalTableName persistenceIDIndex [ArgString p] t =
      Ok (map Boxed (filter (\<lambda>j. jr_PersistenceID j = p) (journal_rows (jt G t))))"
    and "nul_free p \<Longrightarrow> md_lower_bound M journalTableName persistenceIDIndex [ArgString p] t =
      Ok (map Boxed (filter (\<lambda>j. p \<le> jr_PersistenceID j) (journal_rows (jt G t))))"
    and "nul_free p \<Longrightarrow> md_last M journalTableName persistenceIDIndex [ArgString p] t =
      Ok (map_option Boxed (case filter (\<lambda>j. jr_PersistenceID j = p) (journal_rows (jt G t)) of
         [] \<Rightarrow> None | xs \<Rightarrow> Some (last xs)))"
    and "md_get M journalTableName persistenceIDIndex [] t = Ok (map Boxed (journal_rows (jt G t)))"
proof -
  have tb: "map_of (fst (mg_txn G t)) journalTableName = Some journalTable"
    by (simp add: assms(2) journal_table)
  note q = memdb_queries [OF assms(1) tb journal_pid_index(1)]
  have k: "query_val (mg_enc G) (StringFieldIndex ''PersistenceID'' False) [ArgString p] = Some (p @ nul)" for p
    by (simp add: query_val_def)
  show "nul_free p \<Longrightarrow> md_get M journalTableName persistenceIDIndex [ArgString p] t =
      Ok (map Boxed (filter (\<lambda>j. jr_PersistenceID j = p) (journal_rows (jt G t))))"
    using q(1) [of "[ArgString p]"] k by (simp add: prefix_rows [OF assms(3)])
  show "nul_free p \<Longrightarrow> md_lower_bound M journalTableName persistenceIDIndex [ArgString p] t =
      Ok (map Boxed (filter (\<lambda>j. p \<le> jr_PersistenceID j) (journal_rows (jt G t))))"
    using q(2) [of "[ArgString p]"] k by (simp add: prefix_rows [OF assms(3)])
  show "nul_free p \<Longrightarrow> md_last M journalTableName persistenceIDIndex [ArgString p] t =
      Ok (map_option Boxed (case filter (\<lambda>j. jr_PersistenceID j = p) (journal_rows (jt G t)) of
         [] \<Rightarrow> None | xs \<Rightarrow> Some (last xs)))"
    using q(3) [of "[ArgString p]"] k by (simp add: tree_last_def prefix_rows [OF assms(3)])
  show "md_get M journalTableName persistenceIDIndex [] t = Ok (map Boxed (journal_rows (jt G t)))"
    using q(4) by (simp add: journal_rows_def)
qed

section \<open>The write loop\<close>

fun written :: "('t, 'm) protolib \<Rightarrow> (nat \<Rightarrow> string) \<Rightarrow> nat \<Rightarrow> event option list \<Rightarrow> journal list" where
  "written L uuid n [] = []"
| "written L uuid n (e # es) = journal_of L (uuid n) e # written L uuid (Suc n) es"

lemma length_written [simp]: "length (written L uuid n es) = length es"
  by (induction es arbitrary: n) auto

lemma me_write_loop_spec:
  assumes "memdb_contract M G" "uuid_ok uuid"
    and "fst (mg_txn G t) = journalSchema" "journal_trees uuid n (jt G t)"
    and "\<forall>e \<in> set es. nul_free (ev_PersistenceId (or_zero zero_event e))"
    and "me_write_loop L M uuid es n t = (r, n', t')"
  shows "n \<le> n' \<and> (r = Ok () \<longleftrightarrow> (\<forall>e \<in> set es. ev_PersistenceId (or_zero zero_event e) \<noteq> [])) \<and> r \<noteq> Panic \<and>
    (r = Ok () \<longrightarrow> fst (mg_txn G t') = journalSchema \<and> journal_trees uuid n' (jt G t') \<and>
       mset (journal_rows (jt G t')) = mset (journal_rows (jt G t)) + mset (written L uuid n es))"
  using assms(3-6)
proof (induction es arbitrary: n t)
  case Nil
  then show ?case by auto
next
  case (Cons e es)
  let ?j = "journal_of L (uuid n) e" and ?p = "ev_PersistenceId (or_zero zero_event e)"
  have j: "jr_Ordering ?j = uuid n" "jr_PersistenceID ?j = ?p" by (simp_all add: journal_of_def Let_def)
  have tb: "map_of (fst (mg_txn G t)) journalTableName = Some journalTable"
    by (simp add: Cons.prems(1) journal_table)
  note eff = memdb_facts(4) [OF assms(1) tb, of journal_fields ?j]
  have ins: "case insert_obj (mg_enc G) journalTable journal_fields ?j (jt G t) of
      None \<Rightarrow> ?p = []
    | Some T' \<Rightarrow> ?p \<noteq> [] \<and> journal_trees uuid (Suc n) T' \<and>
        mset (journal_rows T') = add_mset ?j (mset (journal_rows (jt G t)))"
    using insert_journal [OF Cons.prems(2) assms(2) j(1), where E = "mg_enc G"] Cons.prems(3)
    unfolding j(2) by simp
  show ?case
  proof (cases "insert_obj (mg_enc G) journalTable journal_fields ?j (jt G t)")
    case None
    with eff obtain err t1 where "md_insert M journal_fields journalTableName ?j t = (Err err, t1)"
      by (auto dest: effect_None)
    then show ?thesis using Cons.prems(4) ins None by auto
  next
    case (Some T)
    with eff obtain t1 where t1: "md_insert M journal_fields journalTableName ?j t = (Ok (), t1)"
      "fst (mg_txn G t1) = journalSchema" "jt G t1 = T"
      by (auto dest!: effect_Some simp: Cons.prems(1))
    then have "me_write_loop L M uuid es (Suc n) t1 = (r, n', t')" using Cons.prems(4) by simp
    with Cons.IH [of t1 "Suc n"] t1 ins Some Cons.prems(3) show ?thesis by auto
  qed
qed

lemma me_delete_loop_spec:
  assumes "memdb_contract M G" "uuid_ok uuid"
    and "fst (mg_txn G t) = journalSchema" "journal_trees uuid n (jt G t)"
    and "distinct js" "set js \<subseteq> set (journal_rows (jt G t))"
  shows "\<exists>t'. me_delete_loop M k js t = (Ok (), t') \<and> fst (mg_txn G t') = journalSchema \<and>
    journal_trees uuid n (jt G t') \<and>
    journal_rows (jt G t') = filter (\<lambda>x. \<not> (x \<in> set js \<and> jr_SequenceNumber x \<le> k)) (journal_rows (jt G t))"
  using assms(3-6)
proof (induction js arbitrary: t)
  case Nil
  then show ?case by auto
next
  case (Cons j js)
  have tb: "map_of (fst (mg_txn G t)) journalTableName = Some journalTable"
    by (simp add: Cons.prems(1) journal_table)
  show ?case
  proof (cases "jr_SequenceNumber j \<le> k")
    case True
    obtain T where T: "delete_obj (mg_enc G) journalTable journal_fields j (jt G t) = Some T"
      "journal_trees uuid n T" "journal_rows T = filter (\<lambda>x. x \<noteq> j) (journal_rows (jt G t))"
      using delete_journal [OF Cons.prems(2) assms(2), of j] Cons.prems(4) by auto
    with memdb_facts(5) [OF assms(1) tb, of journal_fields j] obtain t1 where
      t1: "md_delete M journal_fields journalTableName j t = (Ok (), t1)"
      "fst (mg_txn G t1) = journalSchema" "jt G t1 = T"
      by (auto dest!: effect_Some simp: Cons.prems(1))
    have "set js \<subseteq> set (journal_rows (jt G t1))" using Cons.prems(3,4) by (auto simp: t1 T)
    from Cons.IH [OF t1(2) _ _ this] T Cons.prems(3) t1 True show ?thesis
      by (auto intro!: filter_cong)
  next
    case False
    from Cons.IH [OF Cons.prems(1,2)] Cons.prems(3,4) False show ?thesis
      by (auto intro!: filter_cong)
  qed
qed

section \<open>Lifecycle\<close>

interpretation me_life: lifecycle "\<lambda>_. True" me_connected me_Connect me_Disconnect me_Ping
proof unfold_locales
  fix M :: "('db, 'txn, journal) memdb" and s :: "'db mem_events" and r s'
  show "me_connected s'" if "me_Connect M s = (Ok (), s')"
    using that by (auto simp: me_Connect_def split: if_splits res.splits)
  show "\<not> me_connected s'" if "me_Connect M s = (r, s')" "r \<noteq> Ok ()"
    using that by (auto simp: me_Connect_def split: if_splits res.splits)
  show "\<not> me_connected s'" if "me_Disconnect M s = (Ok (), s')"
    using that by (auto simp: me_Disconnect_def split: if_splits res.splits option.splits prod.splits)
  show "me_connected s'" if "me_connected s" "me_Ping M s = (r, s')"
    using that by (simp add: me_Ping_def)
qed (simp_all add: me_Connect_def me_Disconnect_def me_Ping_def)

section \<open>The store's records\<close>

text \<open>The environment: the protobuf runtime, the database with what its contract speaks of, the UUIDs.\<close>

type_synonym ('t, 'm, 'db, 'txn) meenv =
  "('t, 'm) protolib \<times> ('db, 'txn, journal) memdb \<times> ('db, 'txn, journal) mdghost \<times> (nat \<Rightarrow> string)"

definition me_rely :: "('t, 'm, 'db, 'txn) meenv \<Rightarrow> bool" where
  "me_rely env = (case env of (L, M, G, uuid) \<Rightarrow> proto_contract L \<and> memdb_contract M G \<and> uuid_ok uuid)"

definition me_rows :: "('t, 'm, 'db, 'txn) meenv \<Rightarrow> 'db mem_events \<Rightarrow> journal list" where
  "me_rows env s = (case env of (L, M, G, uuid) \<Rightarrow>
     (case me_db s of None \<Rightarrow> [] | Some db \<Rightarrow> journal_rows (snd (mg_db G db) journalTableName)))"

definition me_ok :: "('t, 'm, 'db, 'txn) meenv \<Rightarrow> 'db mem_events \<Rightarrow> bool" where
  "me_ok env s = (case env of (L, M, G, uuid) \<Rightarrow>
     (case me_db s of
        None \<Rightarrow> \<not> me_connected s
      | Some db \<Rightarrow> fst (mg_db G db) = journalSchema \<and>
          journal_trees uuid (me_drawn s) (snd (mg_db G db) journalTableName)))"

lemma me_ok_New: "me_ok env NewEventsStore"
  by (simp add: me_ok_def NewEventsStore_def split: prod.split)

lemma me_ok_connected:
  assumes "me_ok (L, M, G, uuid) s" "me_connected s"
  obtains db where "me_db s = Some db" "fst (mg_db G db) = journalSchema"
    "journal_trees uuid (me_drawn s) (snd (mg_db G db) journalTableName)"
    "journal_rows (snd (mg_db G db) journalTableName) = me_rows (L, M, G, uuid) s"
  using assms by (cases "me_db s") (auto simp: me_ok_def me_rows_def)

lemma me_Connect_spec:
  assumes "me_rely env" "me_ok env s" "\<not> me_connected s" "env = (L, M, G, uuid)"
  shows "\<exists>s'. me_Connect M s = (Ok (), s') \<and> me_ok env s' \<and> me_connected s' \<and> me_rows env s' = []"
proof -
  have "memdb_contract M G" using assms(1,4) by (simp add: me_rely_def)
  then obtain db where "md_new M journalSchema = Ok db" "mg_db G db = (journalSchema, \<lambda>_ _. [])"
    using memdb_facts(1) [of M G journalSchema] by auto
  then show ?thesis using assms(3,4) by (auto simp: me_Connect_def me_ok_def me_rows_def)
qed

lemma me_Disconnect_spec:
  assumes "me_rely env" "me_ok env s" "env = (L, M, G, uuid)"
  shows "\<exists>s'. me_Disconnect M s = (Ok (), s') \<and> me_ok env s' \<and> \<not> me_connected s' \<and>
    (me_connected s \<and> \<not> me_KeepRecordsAfterDisconnect s \<longrightarrow> me_rows env s' = [])"
proof (cases "me_connected s \<and> \<not> me_KeepRecordsAfterDisconnect s")
  case True
  have C: "memdb_contract M G" "uuid_ok uuid" using assms(1,3) by (simp_all add: me_rely_def)
  obtain db where db: "me_db s = Some db" "fst (mg_db G db) = journalSchema"
    "journal_trees uuid (me_drawn s) (snd (mg_db G db) journalTableName)"
    using me_ok_connected [OF assms(2) [unfolded assms(3)]] True by blast
  let ?t = "md_txn M db True"
  have t: "mg_txn G ?t = mg_db G db" by (rule memdb_facts(2) [OF C(1)])
  let ?xs = "map snd (jt G ?t journalPK)"
  have set: "set ?xs = set (journal_rows (jt G ?t))"
    using db(3) by (simp add: t journal_trees_def set_journal_rows)
  have "distinct ?xs"
  proof -
    have e: "e \<in> set (jt G ?t journalPK) \<longleftrightarrow> snd e \<in> set (journal_rows (jt G ?t)) \<and> fst e = jr_Ordering (snd e) @ nul" for e
      using journal_trees_mem(1) [OF db(3), of "fst e" "snd e"] by (simp add: t)
    have "distinct (map fst (jt G ?t journalPK))" using db(3) by (simp add: t journal_trees_def tree_ok_distinct)
    moreover have "inj_on snd (set (jt G ?t journalPK))"
      by (rule inj_onI) (metis e prod_eqI)
    ultimately show ?thesis by (simp add: distinct_map)
  qed
  then obtain T where T: "delete_objs (mg_enc G) journalTable journal_fields ?xs (jt G ?t) = Some T"
    "journal_trees uuid (me_drawn s) T" "journal_rows T = []"
    using delete_journals [where E = "mg_enc G" and uuid = uuid and n = "me_drawn s" and
        T = "jt G ?t" and xs = ?xs] db(3) C(2) set
    by (auto simp: t)
  have "map_of (fst (mg_txn G ?t)) journalTableName = Some journalTable"
    by (simp add: t db(2) journal_table)
  from memdb_facts(6) [OF C(1) this journal_pid_index(2), of journal_fields] T obtain x t' where
    "md_delete_all M journal_fields journalTableName journalPK ?t = (Ok x, t')"
    "fst (mg_txn G t') = journalSchema" "jt G t' = T"
    by (auto dest!: effect_Some simp: t db(2))
  then show ?thesis using True db(1) T assms(3)
    by (auto simp: me_Disconnect_def me_ok_def me_rows_def memdb_facts(3) [OF C(1)])
next
  case False
  then show ?thesis using assms(2,3)
    by (auto simp: me_Disconnect_def me_ok_def split: option.splits)
qed

section \<open>Writing and deleting\<close>

lemma journal_trees_mono: "journal_trees uuid n T \<Longrightarrow> n \<le> m \<Longrightarrow> journal_trees uuid m T"
proof -
  assume "n \<le> m"
  then have "journal_ok uuid n j \<Longrightarrow> journal_ok uuid m j" for j
    unfolding journal_ok_def by (meson less_le_trans)
  then show "journal_trees uuid n T \<Longrightarrow> journal_trees uuid m T" by (simp add: journal_trees_def)
qed

lemma me_WriteEvents_spec:
  assumes "me_rely env" "me_ok env s" "env = (L, M, G, uuid)"
    and "\<forall>e \<in> set es. nul_free (ev_PersistenceId (or_zero zero_event e))"
    and "me_WriteEvents L M uuid es s = (r, s')"
  shows "me_ok env s'" and "r \<noteq> Panic"
    and "r = Ok () \<longleftrightarrow> me_connected s \<and> (\<forall>e \<in> set es. ev_PersistenceId (or_zero zero_event e) \<noteq> [])"
    and "r = Ok () \<Longrightarrow> mset (me_rows env s') = mset (me_rows env s) + mset (written L uuid (me_drawn s) es)"
    and "r \<noteq> Ok () \<Longrightarrow> me_rows env s' = me_rows env s \<and> me_db s' = me_db s"
proof -
  have C: "memdb_contract M G" "uuid_ok uuid" using assms(1,3) by (simp_all add: me_rely_def)
  have "me_ok env s' \<and> r \<noteq> Panic \<and>
    (r = Ok () \<longleftrightarrow> me_connected s \<and> (\<forall>e \<in> set es. ev_PersistenceId (or_zero zero_event e) \<noteq> [])) \<and>
    (r = Ok () \<longrightarrow> mset (me_rows env s') = mset (me_rows env s) + mset (written L uuid (me_drawn s) es)) \<and>
    (r \<noteq> Ok () \<longrightarrow> me_rows env s' = me_rows env s \<and> me_db s' = me_db s)"
  proof (cases "me_connected s")
    case False
    then show ?thesis using assms(2,5) by (auto simp: me_WriteEvents_def)
  next
    case True
    obtain db where db: "me_db s = Some db" "fst (mg_db G db) = journalSchema"
      "journal_trees uuid (me_drawn s) (snd (mg_db G db) journalTableName)"
      "journal_rows (snd (mg_db G db) journalTableName) = me_rows env s"
      using me_ok_connected [OF assms(2) [unfolded assms(3)] True] assms(3) by blast
    let ?t = "md_txn M db True"
    have t: "mg_txn G ?t = mg_db G db" by (rule memdb_facts(2) [OF C(1)])
    obtain r1 n t1 where loop: "me_write_loop L M uuid es (me_drawn s) ?t = (r1, n, t1)"
      by (cases "me_write_loop L M uuid es (me_drawn s) ?t")
    note spec = me_write_loop_spec [OF C _ _ assms(4) loop, unfolded t, OF db(2,3)]
    show ?thesis
    proof (cases r1)
      case (Ok u)
      then show ?thesis using assms(3,5) True db spec loop
        by (auto simp: me_WriteEvents_def me_ok_def me_rows_def memdb_facts(3) [OF C(1)])
    next
      case (Err e)
      then show ?thesis using assms(3,5) True db spec loop
        by (auto simp: me_WriteEvents_def me_ok_def me_rows_def intro: journal_trees_mono)
    next
      case Panic
      then show ?thesis using spec by simp
    qed
  qed
  then show "me_ok env s'" and "r \<noteq> Panic"
    and "r = Ok () \<longleftrightarrow> me_connected s \<and> (\<forall>e \<in> set es. ev_PersistenceId (or_zero zero_event e) \<noteq> [])"
    and "r = Ok () \<Longrightarrow> mset (me_rows env s') = mset (me_rows env s) + mset (written L uuid (me_drawn s) es)"
    and "r \<noteq> Ok () \<Longrightarrow> me_rows env s' = me_rows env s \<and> me_db s' = me_db s"
    by blast+
qed

text \<open>The queries of a connected store, on its records.\<close>

lemma me_queries:
  assumes "me_rely env" "me_ok env s" "env = (L, M, G, uuid)" "me_connected s"
  obtains db where "me_db s = Some db"
    and "\<And>p. nul_free p \<Longrightarrow> md_get M journalTableName persistenceIDIndex [ArgString p] (md_txn M db False) =
      Ok (map Boxed (filter (\<lambda>j. jr_PersistenceID j = p) (me_rows env s)))"
    and "\<And>p. nul_free p \<Longrightarrow> md_lower_bound M journalTableName persistenceIDIndex [ArgString p] (md_txn M db False) =
      Ok (map Boxed (filter (\<lambda>j. p \<le> jr_PersistenceID j) (me_rows env s)))"
    and "\<And>p. nul_free p \<Longrightarrow> md_last M journalTableName persistenceIDIndex [ArgString p] (md_txn M db False) =
      Ok (map_option Boxed (case filter (\<lambda>j. jr_PersistenceID j = p) (me_rows env s) of [] \<Rightarrow> None | xs \<Rightarrow> Some (last xs)))"
    and "md_get M journalTableName persistenceIDIndex [] (md_txn M db False) = Ok (map Boxed (me_rows env s))"
proof -
  have C: "memdb_contract M G" using assms(1,3) by (simp add: me_rely_def)
  obtain db where db: "me_db s = Some db" "fst (mg_db G db) = journalSchema"
    "journal_trees uuid (me_drawn s) (snd (mg_db G db) journalTableName)"
    "journal_rows (snd (mg_db G db) journalTableName) = me_rows env s"
    using me_ok_connected [OF assms(2) [unfolded assms(3)] assms(4)] assms(3) by blast
  have t: "mg_txn G (md_txn M db wr) = mg_db G db" for wr by (rule memdb_facts(2) [OF C])
  show thesis
    by (rule that [OF db(1) journal_queries [OF C, of "md_txn M db False", unfolded t, OF db(2,3), unfolded db(4)]])
qed

lemma me_DeleteEvents_spec:
  assumes "me_rely env" "me_ok env s" "env = (L, M, G, uuid)" "nul_free p"
    and "me_DeleteEvents M p k s = (r, s')"
  shows "me_ok env s'" and "r = Ok () \<longleftrightarrow> me_connected s" and "r \<noteq> Panic"
    and "r = Ok () \<Longrightarrow> me_rows env s' =
      filter (\<lambda>j. \<not> (jr_PersistenceID j = p \<and> jr_SequenceNumber j \<le> k)) (me_rows env s)"
    and "r \<noteq> Ok () \<Longrightarrow> s' = s"
proof -
  have C: "memdb_contract M G" "uuid_ok uuid" using assms(1,3) by (simp_all add: me_rely_def)
  have "me_ok env s' \<and> (r = Ok () \<longleftrightarrow> me_connected s) \<and> r \<noteq> Panic \<and>
    (r = Ok () \<longrightarrow> me_rows env s' =
      filter (\<lambda>j. \<not> (jr_PersistenceID j = p \<and> jr_SequenceNumber j \<le> k)) (me_rows env s)) \<and>
    (r \<noteq> Ok () \<longrightarrow> s' = s)"
  proof (cases "me_connected s")
    case False
    then show ?thesis using assms(2,5) by (auto simp: me_DeleteEvents_def)
  next
    case True
    obtain db where db: "me_db s = Some db" "fst (mg_db G db) = journalSchema"
      "journal_trees uuid (me_drawn s) (snd (mg_db G db) journalTableName)"
      "journal_rows (snd (mg_db G db) journalTableName) = me_rows env s"
      using me_ok_connected [OF assms(2) [unfolded assms(3)] True] assms(3) by blast
    let ?js = "filter (\<lambda>j. jr_PersistenceID j = p) (me_rows env s)"
    have t: "mg_txn G (md_txn M db wr) = mg_db G db" for wr by (rule memdb_facts(2) [OF C(1)])
    have get: "md_get M journalTableName persistenceIDIndex [ArgString p] (md_txn M db False) = Ok (map Boxed ?js)"
      by (rule me_queries [OF assms(1-3) True]) (use db(1) assms(4) in simp)
    have "distinct ?js" using distinct_journal_rows [OF db(3)] db(4) by simp
    with me_delete_loop_spec [OF C, of "md_txn M db True" "me_drawn s" ?js k] db obtain t' where
      "me_delete_loop M k ?js (md_txn M db True) = (Ok (), t')" "fst (mg_txn G t') = journalSchema"
      "journal_trees uuid (me_drawn s) (jt G t')"
      "journal_rows (jt G t') = filter (\<lambda>x. \<not> (x \<in> set ?js \<and> jr_SequenceNumber x \<le> k)) (me_rows env s)"
      by (auto simp: t)
    then show ?thesis using assms(3,5) True db(1) get
      by (auto simp: me_DeleteEvents_def me_ok_def me_rows_def memdb_facts(3) [OF C(1)] intro!: filter_cong)
  qed
  then show "me_ok env s'" and "r = Ok () \<longleftrightarrow> me_connected s" and "r \<noteq> Panic"
    and "r = Ok () \<Longrightarrow> me_rows env s' =
      filter (\<lambda>j. \<not> (jr_PersistenceID j = p \<and> jr_SequenceNumber j \<le> k)) (me_rows env s)"
    and "r \<noteq> Ok () \<Longrightarrow> s' = s"
    by blast+
qed

section \<open>Reading\<close>

definition me_decodes :: "('t, 'm) protolib \<Rightarrow> journal \<Rightarrow> bool" where
  "me_decodes L j \<longleftrightarrow> is_ok (toProto L (jr_EventManifest j) (jr_EventPayload j))"

text \<open>The event that a record decodes to.\<close>

definition me_event :: "('t, 'm) protolib \<Rightarrow> journal \<Rightarrow> event" where
  "me_event L j = journal_event j
     (case toProto L (jr_EventManifest j) (jr_EventPayload j) of Ok evt \<Rightarrow> evt | _ \<Rightarrow> zero_any)"

lemma me_event_fields [simp]:
  "ev_PersistenceId (me_event L j) = jr_PersistenceID j"
  "ev_SequenceNumber (me_event L j) = jr_SequenceNumber j"
  "ev_Timestamp (me_event L j) = jr_Timestamp j" "ev_Shard (me_event L j) = jr_ShardNumber j"
  by (simp_all add: me_event_def journal_event_def)

text \<open>The loop takes the first \<open>limit + 1\<close> records wanted, in the order of the index.\<close>

lemma me_select_loop_spec:
  assumes "\<forall>j \<in> set js. wanted j \<longrightarrow> me_decodes L j"
    and "length evs + length (filter wanted js) < 2 ^ 64"
  shows "me_select_loop L wanted limit js evs =
    Ok (evs @ take (Suc (unat limit) - length evs) (map (me_event L) (filter wanted js)))"
  using assms
proof (induction js arbitrary: evs)
  case Nil
  then show ?case by simp
next
  case (Cons j js)
  have le: "(of_nat (length evs) :: u64) \<le> limit \<longleftrightarrow> length evs \<le> unat limit"
    using Cons.prems(2) by (simp add: word_le_nat_alt unat_of_nat_u64)
  show ?case
  proof (cases "wanted j")
    case True
    then obtain evt where evt: "toProto L (jr_EventManifest j) (jr_EventPayload j) = Ok evt"
      using Cons.prems(1) by (auto simp: me_decodes_def is_ok_iff)
    then have ev: "journal_event j evt = me_event L j" by (simp add: me_event_def)
    show ?thesis
    proof (cases "length evs \<le> unat limit")
      case True
      then have "Suc (unat limit) - length evs = Suc (unat limit - length evs)" by simp
      then show ?thesis using Cons.IH [of "evs @ [me_event L j]"] Cons.prems \<open>wanted j\<close> evt ev le True
        by simp
    next
      case False
      then show ?thesis using Cons.IH [of evs] Cons.prems \<open>wanted j\<close> evt le by simp
    qed
  next
    case False
    then show ?thesis using Cons.IH [of evs] Cons.prems by simp
  qed
qed

text \<open>One record wanted that cannot be decoded fails the whole call.\<close>

lemma me_select_loop_fails:
  "proto_contract L \<Longrightarrow> j \<in> set js \<Longrightarrow> wanted j \<Longrightarrow> \<not> me_decodes L j \<Longrightarrow>
     \<exists>e. me_select_loop L wanted limit js evs = Err e"
proof (induction js arbitrary: evs)
  case (Cons x js)
  show ?case
  proof (cases "toProto L (jr_EventManifest x) (jr_EventPayload x)")
    case (Ok evt)
    then have "x \<noteq> j" using Cons.prems(4) by (auto simp: me_decodes_def)
    then show ?thesis using Cons Ok by auto
  next
    case (Err e)
    then show ?thesis using Cons by (cases "x = j") auto
  next
    case Panic
    then show ?thesis using toProto_not_Panic [OF Cons.prems(1)] by blast
  qed
qed simp

text \<open>What each query reads, from the records of the store.\<close>

lemma me_read_replay:
  assumes "me_rely env" "me_ok env s" "env = (L, M, G, uuid)" "me_connected s" "nul_free p"
  shows "me_ReplayEvents L M p lo hi limit s =
      bind_res (me_select_loop L (\<lambda>j. lo \<le> jr_SequenceNumber j \<and> jr_SequenceNumber j \<le> hi) limit
                 (filter (\<lambda>j. jr_PersistenceID j = p) (me_rows env s)) [])
        (\<lambda>events. Ok (slice_stable (\<lambda>a b. ev_SequenceNumber a < ev_SequenceNumber b) events))"
  by (rule me_queries [OF assms(1-4)]) (use assms(4,5) in \<open>simp add: me_ReplayEvents_def Let_def\<close>)

lemma me_read_latest:
  assumes "me_rely env" "me_ok env s" "env = (L, M, G, uuid)" "me_connected s" "nul_free p"
  shows "me_GetLatestEvent L M p s =
      (let xs = filter (\<lambda>j. jr_PersistenceID j = p) (me_rows env s) in
       if xs = [] then Ok None
       else case toProto L (jr_EventManifest (last xs)) (jr_EventPayload (last xs)) of
              Err err \<Rightarrow> Err (ErrWrap ''failed to unmarshal the journal event'' err)
            | Panic \<Rightarrow> Panic
            | Ok evt \<Rightarrow> Ok (Some (journal_event (last xs) evt)))"
proof (rule me_queries [OF assms(1-4)])
  fix db assume db: "me_db s = Some db" "\<And>p. nul_free p \<Longrightarrow> md_last M journalTableName persistenceIDIndex [ArgString p] (md_txn M db False) =
      Ok (map_option Boxed (case filter (\<lambda>j. jr_PersistenceID j = p) (me_rows env s) of [] \<Rightarrow> None | xs \<Rightarrow> Some (last xs)))"
  show ?thesis using assms(4) db(1) db(2) [OF assms(5)]
    by (cases "filter (\<lambda>j. jr_PersistenceID j = p) (me_rows env s)")
      (auto simp: me_GetLatestEvent_def Let_def split: res.splits)
qed

lemma me_read_shard:
  assumes "me_rely env" "me_ok env s" "env = (L, M, G, uuid)" "me_connected s"
  shows "me_GetShardEvents L M sh off limit s =
      bind_res (me_select_loop L (\<lambda>j. sint off < sint (jr_Timestamp j)) limit
                 (filter (\<lambda>j. jr_ShardNumber j = sh) (me_rows env s)) [])
        (\<lambda>events. if events = [] then Ok ([], 0)
           else let events = slice_stable (\<lambda>a b. sint (ev_Timestamp a) \<le> sint (ev_Timestamp b)) events
                in Ok (events, ev_Timestamp (last events)))"
  by (rule me_queries [OF assms(1-4)]) (use assms(4) in \<open>simp add: me_GetShardEvents_def Let_def\<close>)

lemma me_read_shards:
  assumes "me_rely env" "me_ok env s" "env = (L, M, G, uuid)" "me_connected s"
  shows "me_ShardNumbers M to_slice s =
      (if me_rows env s = [] then Ok [] else Ok (to_slice (map jr_ShardNumber (me_rows env s))))"
  by (rule me_queries [OF assms(1-4)]) (use assms(4) in \<open>simp add: me_ShardNumbers_def\<close>)

lemmas me_reads = me_read_replay me_read_latest me_read_shard me_read_shards

section \<open>The bag of events\<close>

definition me_events :: "('t, 'm, 'db, 'txn) meenv \<Rightarrow> 'db mem_events \<Rightarrow> event multiset" where
  "me_events env s = image_mset (me_event (fst env)) (mset (me_rows env s))"

definition me_inv :: "('t, 'm, 'db, 'txn) meenv \<Rightarrow> 'db mem_events \<Rightarrow> bool" where
  "me_inv env s \<longleftrightarrow> me_ok env s \<and> (\<forall>j \<in> set (me_rows env s). me_decodes (fst env) j)"

definition me_storable :: "('t, 'm) protolib \<Rightarrow> event \<Rightarrow> bool" where
  "me_storable L e \<longleftrightarrow> nul_free (ev_PersistenceId e) \<and> marshals L (ev_Event e)"

text \<open>What comes back of an event: its payload, if nil, as an empty one; no encryption metadata.\<close>

definition me_obs :: "event \<Rightarrow> event" where
  "me_obs e = e\<lparr>ev_Event := Some (or_zero zero_any (ev_Event e)), ev_EncryptionKeyId := [], ev_IsEncrypted := False\<rparr>"

lemma me_event_journal_of:
  assumes "proto_contract L" "me_storable L e"
  shows "me_decodes L (journal_of L u (Some e))" and "me_event L (journal_of L u (Some e)) = me_obs e"
  using toProto_roundtrip [OF assms(1), of "ev_Event e"] assms(2)
  by (simp_all add: me_storable_def me_decodes_def me_event_def journal_of_def journal_event_def me_obs_def zero_event_def)

lemma written_storable:
  assumes "proto_contract L" "\<forall>e \<in> set es. me_storable L e"
  shows "\<forall>j \<in> set (written L uuid n (map Some es)). me_decodes L j"
    and "map (me_event L) (written L uuid n (map Some es)) = map me_obs es"
  using assms(2) by (induction es arbitrary: n) (auto simp: me_event_journal_of [OF assms(1)])

lemma me_events_filter:
  "filter_mset P (me_events env s) = image_mset (me_event (fst env)) (mset (filter (\<lambda>j. P (me_event (fst env) j)) (me_rows env s)))"
  by (simp add: me_events_def filter_mset_image_mset)

lemma me_replay_all:
  assumes "me_rely env" "me_inv env s" "env = (L, M, G, uuid)" "me_connected s" "nul_free p"
    and "size (filter_mset (in_range p lo hi) (me_events env s)) < 2 ^ 64"
  shows "me_ReplayEvents L M p lo hi limit s =
    Ok (sort_key ev_SequenceNumber (take (Suc (unat limit))
          (filter (in_range p lo hi) (map (me_event L) (me_rows env s)))))"
proof -
  let ?js = "filter (\<lambda>j. jr_PersistenceID j = p) (me_rows env s)"
  let ?w = "\<lambda>j. lo \<le> jr_SequenceNumber j \<and> jr_SequenceNumber j \<le> hi"
  have eq: "filter (in_range p lo hi) (map (me_event L) (me_rows env s)) = map (me_event L) (filter ?w ?js)"
    by (simp add: filter_map comp_def in_range_def conj_ac)
  have "length (filter ?w ?js) < 2 ^ 64"
    using assms(6) by (simp add: me_events_filter assms(3) in_range_def conj_ac)
  with me_select_loop_spec [of ?js ?w L "[]" limit] assms(2,3)
  have "me_select_loop L ?w limit ?js [] = Ok (take (Suc (unat limit)) (map (me_event L) (filter ?w ?js)))"
    by (simp add: me_inv_def)
  then show ?thesis
    using me_reads(1) [OF assms(1) _ assms(3,4,5), of lo hi limit] assms(2)
    by (simp add: me_inv_def eq slice_stable_less)
qed

lemma me_write_storable:
  assumes "me_rely (L, M, G, uuid)" "me_inv (L, M, G, uuid) s" "\<forall>e \<in> set es. me_storable L e"
    and "me_WriteEvents L M uuid (map Some es) s = (r, s')"
  shows "me_inv (L, M, G, uuid) s'"
    and "r = Ok () \<Longrightarrow> me_events (L, M, G, uuid) s' = me_events (L, M, G, uuid) s + mset (map me_obs es)"
    and "r \<noteq> Ok () \<Longrightarrow> me_events (L, M, G, uuid) s' = me_events (L, M, G, uuid) s"
proof -
  let ?env = "(L, M, G, uuid)"
  have L: "proto_contract L" using assms(1) by (simp add: me_rely_def)
  have ok: "me_ok ?env s" using assms(2) by (simp add: me_inv_def)
  have "\<forall>e \<in> set (map Some es). nul_free (ev_PersistenceId (or_zero zero_event e))"
    using assms(3) by (auto simp: me_storable_def)
  note spec = me_WriteEvents_spec [OF assms(1) ok refl this assms(4)]
  note w = written_storable [OF L assms(3), of uuid "me_drawn s"]
  show "me_inv ?env s'"
  proof (cases "r = Ok ()")
    case True
    then have "set (me_rows ?env s') = set (me_rows ?env s) \<union> set (written L uuid (me_drawn s) (map Some es))"
      using spec(4) by (metis set_mset_mset set_mset_union)
    then show ?thesis using spec(1) assms(2) w(1) by (auto simp: me_inv_def)
  next
    case False
    then show ?thesis using spec(1,5) assms(2) by (simp add: me_inv_def)
  qed
  have "image_mset (me_event L) (mset (written L uuid (me_drawn s) (map Some es))) = mset (map me_obs es)"
    using w(2) by (metis mset_map)
  then show "r = Ok () \<Longrightarrow> me_events ?env s' = me_events ?env s + mset (map me_obs es)"
    using spec(4) by (simp add: me_events_def)
  show "r \<noteq> Ok () \<Longrightarrow> me_events ?env s' = me_events ?env s" using spec(5) by (simp add: me_events_def)
qed

lemma me_delete_events:
  assumes "me_rely (L, M, G, uuid)" "me_inv (L, M, G, uuid) s" "nul_free p" "me_DeleteEvents M p n s = (r, s')"
  shows "me_inv (L, M, G, uuid) s'"
    and "r = Ok () \<Longrightarrow> me_events (L, M, G, uuid) s' = filter_mset (\<lambda>e. \<not> upto_seq p n e) (me_events (L, M, G, uuid) s)"
    and "r \<noteq> Ok () \<Longrightarrow> me_events (L, M, G, uuid) s' = me_events (L, M, G, uuid) s"
proof -
  have "me_ok (L, M, G, uuid) s" using assms(2) by (simp add: me_inv_def)
  note spec = me_DeleteEvents_spec [OF assms(1) this refl assms(3,4)]
  show "me_inv (L, M, G, uuid) s'" using spec(1,4,5) assms(2) by (cases "r = Ok ()") (auto simp: me_inv_def)
  show "r = Ok () \<Longrightarrow> me_events (L, M, G, uuid) s' = filter_mset (\<lambda>e. \<not> upto_seq p n e) (me_events (L, M, G, uuid) s)"
    using spec(4) by (simp add: me_events_def upto_seq_def filter_mset_image_mset)
  show "r \<noteq> Ok () \<Longrightarrow> me_events (L, M, G, uuid) s' = me_events (L, M, G, uuid) s" using spec(5) by simp
qed

lemma me_replay_events:
  assumes "me_rely (L, M, G, uuid)" "me_inv (L, M, G, uuid) s" "nul_free p" "me_ReplayEvents L M p lo hi l s = Ok xs"
    and "size (filter_mset (in_range p lo hi) (me_events (L, M, G, uuid) s)) \<le> unat l"
  shows "mset xs = filter_mset (in_range p lo hi) (me_events (L, M, G, uuid) s) \<and> sorted (map ev_SequenceNumber xs)"
proof -
  let ?env = "(L, M, G, uuid)"
  have "me_connected s" using assms(4) by (auto simp: me_ReplayEvents_def split: if_splits)
  moreover have "size (filter_mset (in_range p lo hi) (me_events ?env s)) < 2 ^ 64"
    using assms(5) unat_u64_less [of l] by simp
  ultimately have "xs = sort_key ev_SequenceNumber (take (Suc (unat l))
      (filter (in_range p lo hi) (map (me_event L) (me_rows ?env s))))"
    using me_replay_all [OF assms(1,2) refl _ assms(3), of lo hi l] assms(4) by simp
  moreover have "length (filter (in_range p lo hi) (map (me_event L) (me_rows ?env s))) \<le> unat l"
    using assms(5) by (simp add: me_events_def filter_map filter_mset_image_mset comp_def)
  ultimately show ?thesis
    by (simp add: me_events_def filter_map filter_mset_image_mset comp_def)
qed

interpretation me: event_store me_rely me_inv "\<lambda>env. me_storable (fst env)" nul_free me_obs me_events
  "\<lambda>env. me_WriteEvents (fst env) (fst (snd env)) (snd (snd (snd env)))"
  "\<lambda>env. me_DeleteEvents (fst (snd env))" "\<lambda>env. me_ReplayEvents (fst env) (fst (snd env))"
proof unfold_locales
  fix env :: "('t, 'm, 'db, 'txn) meenv" and s :: "'db mem_events" and s' es p n lo hi l xs r
  obtain L M G uuid where env: "env = (L, M, G, uuid)" by (cases env)
  assume h: "me_rely env" "me_inv env s"
  note w = me_write_storable [OF h [unfolded env], of es r s'] and d = me_delete_events [OF h [unfolded env], of p n r s']
  let ?w = "me_WriteEvents (fst env) (fst (snd env)) (snd (snd (snd env))) (map Some es) s"
    and ?d = "me_DeleteEvents (fst (snd env)) p n s"
  show "\<lbrakk>\<forall>e \<in> set es. me_storable (fst env) e; ?w = (r, s')\<rbrakk> \<Longrightarrow> me_inv env s'"
    "\<lbrakk>\<forall>e \<in> set es. me_storable (fst env) e; ?w = (r, s'); r \<noteq> Ok ()\<rbrakk>
      \<Longrightarrow> me_events env s' = me_events env s \<or> me_events env s' = me_events env s + mset (map me_obs es)"
    using w(1,3) by (simp_all add: env)
  show "\<lbrakk>\<forall>e \<in> set es. me_storable (fst env) e; ?w = (Ok (), s')\<rbrakk>
      \<Longrightarrow> me_events env s' = me_events env s + mset (map me_obs es)"
    using me_write_storable(2) [OF h [unfolded env], of es "Ok ()" s'] by (simp add: env)
  show "\<lbrakk>nul_free p; ?d = (r, s')\<rbrakk> \<Longrightarrow> me_inv env s'"
    "\<lbrakk>nul_free p; ?d = (r, s'); r \<noteq> Ok ()\<rbrakk>
      \<Longrightarrow> me_events env s' = me_events env s \<or> me_events env s' = filter_mset (\<lambda>e. \<not> upto_seq p n e) (me_events env s)"
    using d(1,3) by (simp_all add: env)
  show "\<lbrakk>nul_free p; ?d = (Ok (), s')\<rbrakk> \<Longrightarrow> me_events env s' = filter_mset (\<lambda>e. \<not> upto_seq p n e) (me_events env s)"
    using me_delete_events(2) [OF h [unfolded env], of p n "Ok ()" s'] by (simp add: env)
  show "\<lbrakk>nul_free p; me_ReplayEvents (fst env) (fst (snd env)) p lo hi l s = Ok xs;
      size (filter_mset (in_range p lo hi) (me_events env s)) \<le> unat l\<rbrakk>
      \<Longrightarrow> mset xs = filter_mset (in_range p lo hi) (me_events env s) \<and> sorted (map ev_SequenceNumber xs)"
    using me_replay_events [OF h [unfolded env], of p lo hi l xs] by (simp add: env)
qed (simp_all add: me_obs_def)

end
