(* ===== verification/EventsMemoryRuns.thy ===== *)
theory EventsMemoryRuns
  imports EventsMemoryStore
begin

text \<open>
  Histories of the memory event store: the calls a client makes, as a step relation between
  the states of the store, and the invariant of the indexes in every state they reach. It
  implies that no call and no read panics, although the code never checks \<open>s.db\<close> for nil.
\<close>

datatype me_call =
    MeConnect
  | MeDisconnect
  | MePing
  | MeWrite "event option list"
  | MeDelete string u64

definition me_run ::
  "('t, 'm) protolib \<Rightarrow> ('db, 'txn, journal) memdb \<Rightarrow> (nat \<Rightarrow> string) \<Rightarrow> me_call \<Rightarrow> 'db mem_events \<Rightarrow>
   unit res \<times> 'db mem_events" where
  "me_run L M uuid c s =
     (case c of
        MeConnect \<Rightarrow> me_Connect M s
      | MeDisconnect \<Rightarrow> me_Disconnect M s
      | MePing \<Rightarrow> me_Ping M s
      | MeWrite es \<Rightarrow> me_WriteEvents L M uuid es s
      | MeDelete p n \<Rightarrow> me_DeleteEvents M p n s)"

text \<open>The reads; a call of \<open>ShardNumbers\<close> carries the order in which its set was listed.\<close>

datatype me_query =
    QIds u64 string
  | QReplay string u64 u64 u64
  | QLatest string
  | QShard u64 i64 u64
  | QShards "u64 list \<Rightarrow> u64 list"

datatype me_answer =
    AIds "(string list \<times> string) res"
  | AEvents "event list res"
  | ALatest "event option res"
  | AShard "(event list \<times> i64) res"
  | AShards "u64 list res"

definition me_ask ::
  "('t, 'm) protolib \<Rightarrow> ('db, 'txn, journal) memdb \<Rightarrow> me_query \<Rightarrow> 'db mem_events \<Rightarrow> me_answer" where
  "me_ask L M q s =
     (case q of
        QIds pageSize pageToken \<Rightarrow> AIds (me_PersistenceIDs M pageSize pageToken s)
      | QReplay p lo hi limit \<Rightarrow> AEvents (me_ReplayEvents L M p lo hi limit s)
      | QLatest p \<Rightarrow> ALatest (me_GetLatestEvent L M p s)
      | QShard shard offset limit \<Rightarrow> AShard (me_GetShardEvents L M shard offset limit s)
      | QShards to_slice \<Rightarrow> AShards (me_ShardNumbers M to_slice s))"

text \<open>A read that does not return: it panics.\<close>

definition me_panics :: "me_answer \<Rightarrow> bool" where
  "me_panics a =
     (case a of
        AIds r \<Rightarrow> r = Panic
      | AEvents r \<Rightarrow> r = Panic
      | ALatest r \<Rightarrow> r = Panic
      | AShard r \<Rightarrow> r = Panic
      | AShards r \<Rightarrow> r = Panic)"

text \<open>The calls whose persistence ids have no NUL character, which the keys of go-memdb cannot hold.\<close>

definition me_call_ok :: "me_call \<Rightarrow> bool" where
  "me_call_ok c =
     (case c of
        MeWrite es \<Rightarrow> list_all (\<lambda>e. nul_free (ev_PersistenceId (or_zero zero_event e))) es
      | MeDelete p n \<Rightarrow> nul_free p
      | _ \<Rightarrow> True)"

inductive me_step ::
  "('t, 'm, 'db, 'txn) meenv \<Rightarrow> 'db mem_events \<Rightarrow> me_call \<Rightarrow> unit res \<Rightarrow> 'db mem_events \<Rightarrow> bool" where
  me_stepI: "me_call_ok c \<Longrightarrow> me_run (fst env) (fst (snd env)) (snd (snd (snd env))) c s = (r, s') \<Longrightarrow>
    me_step env s c r s'"

inductive_cases me_stepE: "me_step env s c r s'"

inductive me_reach :: "('t, 'm, 'db, 'txn) meenv \<Rightarrow> 'db mem_events \<Rightarrow> bool" where
  me_reach_init: "me_reach env (NewEventsStore\<lparr>me_KeepRecordsAfterDisconnect := keep\<rparr>)"
| me_reach_step: "me_reach env s \<Longrightarrow> me_step env s c r s' \<Longrightarrow> me_reach env s'"

lemma me_Connect_ok:
  assumes "me_rely (L, M, G, uuid)" "me_ok (L, M, G, uuid) s" "me_Connect M s = (r, s')"
  shows "me_ok (L, M, G, uuid) s' \<and> r \<noteq> Panic"
proof (cases "me_connected s")
  case True
  then show ?thesis using assms by (auto simp: me_Connect_def)
next
  case False
  then show ?thesis using me_Connect_spec [OF assms(1,2) _ refl] assms(3) by auto
qed

lemma me_step_ok:
  assumes "me_rely env" "me_ok env s" "me_step env s c r s'"
  shows "me_ok env s' \<and> r \<noteq> Panic"
proof -
  have 1: "me_call_ok c" "me_run (fst env) (fst (snd env)) (snd (snd (snd env))) c s = (r, s')"
    using assms(3) by (auto elim: me_stepE)
  obtain L M G uuid where env: "env = (L, M, G, uuid)" by (cases env)
  note ok = assms(1,2) [unfolded env] and con = me_Connect_ok [OF assms(1,2) [unfolded env]]
  show ?thesis
  proof (cases c)
    case MeConnect
    then have "me_Connect M s = (r, s')" using 1(2) by (simp add: env me_run_def)
    then show ?thesis unfolding env by (rule con)
  next
    case MePing
    then have "me_Connect M s = (r, s') \<or> r = Ok () \<and> s' = s"
      using 1(2) by (auto simp: env me_run_def me_Ping_def split: if_splits)
    then show ?thesis using con assms(2) by (auto simp: env)
  next
    case MeDisconnect
    then show ?thesis using 1 me_Disconnect_spec [OF ok refl] by (auto simp: env me_run_def)
  next
    case (MeWrite es)
    then have "\<forall>e \<in> set es. nul_free (ev_PersistenceId (or_zero zero_event e))" "me_WriteEvents L M uuid es s = (r, s')"
      using 1 by (simp_all add: env me_run_def me_call_ok_def list_all_iff)
    from me_WriteEvents_spec(1,2) [OF ok refl this] show ?thesis by (simp add: env)
  next
    case (MeDelete p n)
    then have "nul_free p" "me_DeleteEvents M p n s = (r, s')"
      using 1 by (simp_all add: env me_run_def me_call_ok_def)
    from me_DeleteEvents_spec(1,3) [OF ok refl this] show ?thesis by (simp add: env)
  qed
qed

lemma me_reach_ok: "me_reach env s \<Longrightarrow> me_rely env \<Longrightarrow> me_ok env s"
proof (induction rule: me_reach.induct)
  case (me_reach_init env keep)
  then show ?case by (simp add: me_ok_def NewEventsStore_def split: prod.split)
next
  case (me_reach_step env s c r s')
  then show ?case using me_step_ok by blast
qed

section \<open>Reads do not panic\<close>

text \<open>On a connected store every query of go-memdb gives records, whatever its argument.\<close>

lemma me_queries_ok:
  assumes "me_rely env" "me_ok env s" "env = (L, M, G, uuid)" "me_connected s"
  obtains db where "me_db s = Some db"
    and "\<And>p. is_ok (md_get M journalTableName persistenceIDIndex [ArgString p] (md_txn M db False))"
    and "\<And>p. is_ok (md_lower_bound M journalTableName persistenceIDIndex [ArgString p] (md_txn M db False))"
    and "\<And>p. is_ok (md_last M journalTableName persistenceIDIndex [ArgString p] (md_txn M db False))"
    and "is_ok (md_get M journalTableName persistenceIDIndex [] (md_txn M db False))"
proof -
  have C: "memdb_contract M G" using assms(1,3) by (simp add: me_rely_def)
  obtain db where db: "me_db s = Some db" "fst (mg_db G db) = journalSchema"
    using me_ok_connected [OF assms(2) [unfolded assms(3)] assms(4)] by blast
  have "map_of (fst (mg_txn G (md_txn M db False))) journalTableName = Some journalTable"
    by (simp add: memdb_facts(2) [OF C] db(2) journal_table)
  note q = memdb_queries [OF C this journal_pid_index(1)]
  have k: "query_val (mg_enc G) (StringFieldIndex ''PersistenceID'' False) [ArgString p] = Some (p @ nul)" for p
    by (simp add: query_val_def)
  show thesis
    by (rule that [OF db(1)])
      (use q k in simp_all)
qed

lemma me_select_loop_not_Panic:
  "proto_contract L \<Longrightarrow> me_select_loop L wanted limit journals events \<noteq> Panic"
  by (induction journals arbitrary: events) (auto split: res.splits simp: toProto_not_Panic)

lemma me_ask_not_Panic:
  assumes "me_rely env" "me_ok env s" "env = (L, M, G, uuid)"
  shows "\<not> me_panics (me_ask L M q s)"
proof (cases "me_connected s")
  case False
  then show ?thesis
    by (cases q) (simp_all add: me_ask_def me_panics_def me_PersistenceIDs_def me_ReplayEvents_def
        me_GetLatestEvent_def me_GetShardEvents_def me_ShardNumbers_def)
next
  case True
  have L: "proto_contract L" using assms(1,3) by (simp add: me_rely_def)
  have loop: "(\<And>es. f es \<noteq> Panic) \<Longrightarrow> bind_res (me_select_loop L w l js []) f \<noteq> Panic" for f w l js
    by (intro bind_res_not_Panic me_select_loop_not_Panic [OF L])
  obtain db where db: "me_db s = Some db"
    "\<And>p. is_ok (md_get M journalTableName persistenceIDIndex [ArgString p] (md_txn M db False))"
    "\<And>p. is_ok (md_lower_bound M journalTableName persistenceIDIndex [ArgString p] (md_txn M db False))"
    "\<And>p. is_ok (md_last M journalTableName persistenceIDIndex [ArgString p] (md_txn M db False))"
    "is_ok (md_get M journalTableName persistenceIDIndex [] (md_txn M db False))"
    using me_queries_ok [OF assms True] by blast
  show ?thesis
  proof (cases q)
    case (QIds n tok)
    then show ?thesis using True db(1,5) db(3) [of tok]
      by (auto simp: me_ask_def me_panics_def me_PersistenceIDs_def Let_def is_ok_iff split: if_splits)
  next
    case (QReplay p lo hi limit)
    then show ?thesis using True db(1) db(2) [of p]
      by (auto simp: me_ask_def me_panics_def me_ReplayEvents_def Let_def is_ok_iff loop split: if_splits)
  next
    case (QLatest p)
    then show ?thesis using True db(1) db(4) [of p] toProto_not_Panic [OF L]
      by (auto simp: me_ask_def me_panics_def me_GetLatestEvent_def is_ok_iff split: option.splits res.splits)
  next
    case (QShard shard offset limit)
    then show ?thesis using True db(1,5)
      by (auto simp: me_ask_def me_panics_def me_GetShardEvents_def Let_def is_ok_iff loop split: if_splits)
  next
    case (QShards to_slice)
    then show ?thesis using True db(1,5)
      by (auto simp: me_ask_def me_panics_def me_ShardNumbers_def Let_def is_ok_iff split: if_splits)
  qed
qed

section \<open>Pages of persistence ids\<close>

lemma sint_of_small: "unat (n :: u64) < 2 ^ 63 \<Longrightarrow> sint n = int (unat n)"
proof -
  assume "unat n < 2 ^ 63"
  then have "int (unat n) < int (2 ^ 63)" by (simp only: of_nat_less_iff)
  then have small: "uint n < 2 ^ 63" by simp
  have "- (2 ^ 63) \<le> uint n" by (rule order.trans [OF _ uint_ge_0]) simp
  then have "signed_take_bit 63 (uint n) = uint n" using small by (rule signed_take_bit_int_eq_self)
  then have "sint n = uint n" by (simp add: sint_uint)
  then show "sint n = int (unat n)" by simp
qed

text \<open>The loop stops at the first row after the page is full.\<close>

lemma me_page_take:
  "length acc \<le> unat n \<Longrightarrow> unat n < 2 ^ 63 \<Longrightarrow>
     me_page n (map Boxed rows) acc = acc @ take (unat n - length acc) rows"
proof (induction rows arbitrary: acc)
  case (Cons row rows)
  have s: "int (length acc) = sint n \<longleftrightarrow> length acc = unat n"
    unfolding sint_of_small [OF Cons.prems(2)] by (rule of_nat_eq_iff)
  show ?case
  proof (cases "length acc = unat n")
    case True
    then have "int (length acc) = sint n" "unat n - length acc = 0" using s by auto
    then show ?thesis by simp
  next
    case False
    then have "unat n - length acc = Suc (unat n - length (acc @ [row]))" using Cons.prems(1) by simp
    then show ?thesis using Cons.IH [of "acc @ [row]"] Cons.prems s False by simp
  qed
qed simp

lemma me_rows_ids_sorted: "me_ok env s \<Longrightarrow> sorted (map jr_PersistenceID (me_rows env s))"
  using sorted_journal_rows by (auto simp: me_ok_def me_rows_def split: prod.splits option.splits)

text \<open>
  A page is made of records, not of ids: the first \<open>pageSize\<close> records from the token on, in
  the order of the index, without those of the token.
\<close>

lemma me_ids_page:
  assumes "me_rely env" "me_ok env s" "env = (L, M, G, uuid)" "me_connected s" "nul_free tok" "unat n < 2 ^ 63"
  shows "me_PersistenceIDs M n tok s =
    (let ids = filter (\<lambda>p. p \<noteq> tok) (take (unat n) (filter (\<lambda>p. tok = '''' \<or> tok \<le> p) (map jr_PersistenceID (me_rows env s))))
     in Ok (ids, if ids = [] then '''' else last ids))"
proof -
  obtain db where db: "me_db s = Some db"
    and q: "md_lower_bound M journalTableName persistenceIDIndex [ArgString tok] (md_txn M db False) =
        Ok (map Boxed (filter (\<lambda>j. tok \<le> jr_PersistenceID j) (me_rows env s)))"
      "md_get M journalTableName persistenceIDIndex [] (md_txn M db False) = Ok (map Boxed (me_rows env s))"
    using me_queries [OF assms(1-4)] assms(5) by metis
  let ?rows = "filter (\<lambda>j. tok = '''' \<or> tok \<le> jr_PersistenceID j) (me_rows env s)"
  have get: "(if tok \<noteq> '''' then md_lower_bound M journalTableName persistenceIDIndex [ArgString tok] (md_txn M db False)
      else md_get M journalTableName persistenceIDIndex [] (md_txn M db False)) = Ok (map Boxed ?rows)"
    using q by auto
  have page: "me_page n (map Boxed ?rows) [] = take (unat n) ?rows"
    using me_page_take [of "[]" n ?rows] assms(6) by simp
  let ?ids = "filter (\<lambda>p. p \<noteq> tok) (map jr_PersistenceID (take (unat n) ?rows))"
  have eq: "map jr_PersistenceID (take (unat n) ?rows) =
      take (unat n) (filter (\<lambda>p. tok = '''' \<or> tok \<le> p) (map jr_PersistenceID (me_rows env s)))"
    by (simp add: take_map [symmetric] filter_map comp_def)
  have "sorted (map jr_PersistenceID (me_rows env s))" by (rule me_rows_ids_sorted [OF assms(2)])
  then have "sorted ?ids" by (simp only: eq) (intro sorted_wrt_filter sorted_wrt_take)
  then have "slice_stable (\<lambda>a b. a \<le> b) ?ids = ?ids" by (rule slice_stable_le_sorted)
  then show ?thesis using assms(4) db get page
    by (simp add: me_PersistenceIDs_def Let_def eq)
qed

end
