(* ===== verification/TypedTable.thy ===== *)
theory TypedTable
  imports SqlDatabase
begin

text \<open>
  Tables whose rows a store scans into structs. A struct type with its columns, the values
  bound for it and the scan of a row into it is a \<open>typed_table\<close>: binding and scanning are
  inverse to each other. Then a table can be read as a multiset of structs, and what the
  statements say of the rows becomes what they say of the structs. The locale is interpreted
  on the rows of the event, snapshot and offset stores.
\<close>

fun the_ok :: "'a res \<Rightarrow> 'a" where
  "the_ok (Ok x) = x"
| "the_ok (Err e) = undefined"
| "the_ok Panic = undefined"

definition well_typed :: "(row \<Rightarrow> 'x res) \<Rightarrow> row multiset \<Rightarrow> bool" where
  "well_typed scan T \<longleftrightarrow> (\<forall>r \<in># T. is_ok (scan r))"

definition content :: "(row \<Rightarrow> 'x res) \<Rightarrow> row multiset \<Rightarrow> 'x multiset" where
  "content scan T = image_mset (\<lambda>r. the_ok (scan r)) T"

text \<open>The struct of the row with a key.\<close>

definition lookup :: "(row \<Rightarrow> 'x res) \<Rightarrow> string list \<Rightarrow> row multiset \<Rightarrow> sqlval list \<Rightarrow> 'x option" where
  "lookup scan ks T v = map_option (\<lambda>r. the_ok (scan r)) (find_row ks v T)"

text \<open>The scan of all rows of a result into a slice of structs.\<close>

fun scan_rows :: "(row \<Rightarrow> 'x res) \<Rightarrow> row list \<Rightarrow> 'x list res" where
  "scan_rows scan [] = Ok []"
| "scan_rows scan (r # rs) =
     bind_res (scan r) (\<lambda>x. bind_res (scan_rows scan rs) (\<lambda>xs. Ok (x # xs)))"

lemma sint_word_of_int_eq: "- (2 ^ 63) \<le> i \<Longrightarrow> i < 2 ^ 63 \<Longrightarrow> sint (word_of_int i :: i64) = i"
  by (simp add: signed_of_int signed_take_bit_int_eq_self)

lemma scan_Ok:
  "scan_u64 v = Ok x \<Longrightarrow> v = bind_u64 x" "scan_i64 v = Ok x \<Longrightarrow> v = bind_i64 x"
  "scan_string v = Ok t \<Longrightarrow> v = SText t" "scan_bool v = Ok b \<Longrightarrow> v = SBool b"
  "scan_bytes v = Ok bs \<Longrightarrow> v = bind_bytes bs"
proof -
  show "v = bind_u64 x" if "scan_u64 v = Ok x"
    using that by (cases v) (auto simp: bind_u64_def uint_word_of_int split: if_splits)
  show "v = bind_i64 x" if "scan_i64 v = Ok x"
  proof (cases v)
    case (SInt i)
    then have "- (2 ^ 63) \<le> i" "i < 2 ^ 63" "x = word_of_int i" using that by (auto split: if_splits)
    then show ?thesis by (simp add: SInt bind_i64_def sint_word_of_int_eq)
  qed (use that in auto)
  show "scan_string v = Ok t \<Longrightarrow> v = SText t" "scan_bool v = Ok b \<Longrightarrow> v = SBool b"
    "scan_bytes v = Ok bs \<Longrightarrow> v = bind_bytes bs"
    by (cases v; auto simp: bind_bytes_def)+
qed

text \<open>A condition on the rows that is a property of the structs.\<close>

definition reflects :: "(row \<Rightarrow> 'x res) \<Rightarrow> (row \<Rightarrow> bool) \<Rightarrow> ('x \<Rightarrow> bool) \<Rightarrow> bool" where
  "reflects scan C P \<longleftrightarrow> (\<forall>r x. scan r = Ok x \<longrightarrow> C r = P x)"

lemma scan_rows_ok: "\<forall>r \<in> set rs. is_ok (scan r) \<Longrightarrow> scan_rows scan rs = Ok (map (\<lambda>r. the_ok (scan r)) rs)"
  by (induction rs) (auto simp: is_ok_iff)

lemma bind_u64_inject [simp]: "bind_u64 a = bind_u64 b \<longleftrightarrow> a = b"
  by (simp add: bind_u64_def word_uint_eq_iff)

lemma bind_u64_le [simp]: "sql_le coll (bind_u64 a) (bind_u64 b) \<longleftrightarrow> a \<le> b"
  by (simp add: bind_u64_def word_le_def)

lemma bind_i64_le [simp]: "sql_le coll (bind_i64 a) (bind_i64 b) \<longleftrightarrow> sint a \<le> sint b"
  by (simp add: bind_i64_def)

lemma bind_i64_inject [simp]: "bind_i64 a = bind_i64 b \<longleftrightarrow> a = b"
  by (metis scan_bind(2) res.inject(1))

lemma well_typed_add [simp]:
  "well_typed scan (add_mset r T) \<longleftrightarrow> is_ok (scan r) \<and> well_typed scan T"
  "well_typed scan (T + T') \<longleftrightarrow> well_typed scan T \<and> well_typed scan T'"
  "well_typed scan {#}"
  by (auto simp: well_typed_def)

lemma content_add [simp]:
  "content scan (add_mset r T) = add_mset (the_ok (scan r)) (content scan T)"
  "content scan (T + T') = content scan T + content scan T'" "content scan {#} = {#}"
  by (simp_all add: content_def)

lemma well_typed_filter: "well_typed scan T \<Longrightarrow> well_typed scan (filter_mset C T)"
  by (simp add: well_typed_def)

lemma content_filter:
  assumes "well_typed scan T" "reflects scan C P"
  shows "content scan (filter_mset C T) = filter_mset P (content scan T)"
proof -
  have "C r = P (the_ok (scan r))" if "r \<in># T" for r
    using that assms by (auto simp: well_typed_def reflects_def is_ok_iff)
  then have "filter_mset C T = filter_mset (\<lambda>r. P (the_ok (scan r))) T"
    by (rule filter_mset_cong0)
  then show ?thesis by (simp add: content_def filter_mset_image_mset)
qed

lemma content_image:
  assumes "well_typed scan T" "\<forall>r x. scan r = Ok x \<longrightarrow> scan (f r) = Ok (g x)"
  shows "well_typed scan (image_mset f T)" and "content scan (image_mset f T) = image_mset g (content scan T)"
proof -
  have "is_ok (scan (f r)) \<and> the_ok (scan (f r)) = g (the_ok (scan r))" if "r \<in># T" for r
    using that assms by (auto simp: well_typed_def is_ok_iff)
  then show "well_typed scan (image_mset f T)" and "content scan (image_mset f T) = image_mset g (content scan T)"
    by (auto simp: well_typed_def content_def multiset.map_comp intro!: image_mset_cong)
qed

lemma reflects_conj:
  "reflects scan (matches coll []) (\<lambda>_. True)"
  "reflects scan (\<lambda>r. holds coll r c) P \<Longrightarrow> reflects scan (matches coll cs) Q \<Longrightarrow>
     reflects scan (matches coll (c # cs)) (\<lambda>x. P x \<and> Q x)"
  by (simp_all add: reflects_def matches_def)

locale typed_table =
  fixes cols :: "string list"
    and vals :: "'x \<Rightarrow> sqlval list"
    and scan :: "row \<Rightarrow> 'x res"
  assumes scan_vals: "scan (row_of cols (vals x)) = Ok x"
    and scan_cong: "(\<And>c. c \<in> set cols \<Longrightarrow> r c = r' c) \<Longrightarrow> scan r = scan r'"
    and scan_inv: "scan r = Ok x \<Longrightarrow> c \<in> set cols \<Longrightarrow> r c = row_of cols (vals x) c"
begin

lemma scan_project [simp]: "scan (project cols r) = scan r"
  by (rule scan_cong) (simp add: project_def)

lemma insert_content:
  "well_typed scan T \<Longrightarrow> well_typed scan (insert_row None (row_of cols (vals x)) T)"
  "content scan (insert_row None (row_of cols (vals x)) T) = add_mset x (content scan T)"
  by (simp_all add: insert_row_def scan_vals)

lemma insert_all_content:
  "well_typed scan T \<Longrightarrow> well_typed scan (fold (insert_row None) (map (\<lambda>x. row_of cols (vals x)) xs) T) \<and>
     content scan (fold (insert_row None) (map (\<lambda>x. row_of cols (vals x)) xs) T) = content scan T + mset xs"
  by (induction xs arbitrary: T) (auto simp: insert_content)

text \<open>A list of rows that a query returns, scanned.\<close>

lemma select_content:
  assumes "sel_result coll q T rs" "sel_columns q = cols" "\<not> sel_distinct q" "well_typed scan T"
    and "reflects scan (matches coll (sel_where q)) P"
  shows "\<exists>ys. mset ys = filter_mset P (content scan T) \<and>
    scan_rows scan rs = Ok (limited (sel_limit q) ys) \<and>
    (case sel_order q of None \<Rightarrow> True
     | Some (c, asc) \<Rightarrow> c \<in> set cols \<longrightarrow>
         sorted_wrt (\<lambda>x y. if asc then sql_le coll (row_of cols (vals x) c) (row_of cols (vals y) c)
                       else sql_le coll (row_of cols (vals y) c) (row_of cols (vals x) c)) ys)"
proof -
  let ?M = "filter_mset (matches coll (sel_where q)) T"
  from assms(1-3) obtain zs where zs: "mset zs = image_mset (project cols) ?M"
    "ordered_by coll (sel_order q) zs" "rs = limited (sel_limit q) zs"
    by (auto simp: sel_result_def)
  have ok: "is_ok (scan r)" if "r \<in> set zs" for r
  proof -
    have "r \<in># image_mset (project cols) ?M" using that by (simp add: zs(1) [symmetric])
    then obtain r0 where "r = project cols r0" "r0 \<in># T" by auto
    then show ?thesis using assms(4) by (simp add: well_typed_def)
  qed
  let ?ys = "map (\<lambda>r. the_ok (scan r)) zs"
  have "mset ?ys = image_mset (\<lambda>r. the_ok (scan r)) (image_mset (project cols) ?M)"
    by (simp only: mset_map zs(1))
  also have "\<dots> = content scan ?M" by (simp add: content_def multiset.map_comp comp_def)
  also have "\<dots> = filter_mset P (content scan T)" by (rule content_filter [OF assms(4,5)])
  finally have "mset ?ys = filter_mset P (content scan T)" .
  moreover have "scan_rows scan rs = Ok (limited (sel_limit q) ?ys)"
  proof -
    have "\<forall>r \<in> set rs. is_ok (scan r)"
      using ok zs(3) by (auto simp: limited_def split: option.splits dest: in_set_takeD)
    then show ?thesis
      by (simp add: scan_rows_ok zs(3) limited_def take_map split: option.split)
  qed
  moreover have "sorted_wrt (\<lambda>x y. if asc then sql_le coll (row_of cols (vals x) c) (row_of cols (vals y) c)
                    else sql_le coll (row_of cols (vals y) c) (row_of cols (vals x) c)) ?ys"
    if ord: "sel_order q = Some (c, asc)" "c \<in> set cols" for c asc
  proof -
    have val: "row_of cols (vals (the_ok (scan r))) c = r c" if "r \<in> set zs" for r
      using scan_inv [of r "the_ok (scan r)" c] ok [OF that] ord(2) by (auto simp: is_ok_iff)
    have "sorted_wrt (\<lambda>r r'. if asc then sql_le coll (r c) (r' c) else sql_le coll (r' c) (r c)) zs"
      using zs(2) ord(1) by (simp add: ordered_by_def)
    then show ?thesis unfolding sorted_wrt_map
      by (rule sorted_wrt_mono_rel [rotated]) (simp add: val)
  qed
  ultimately show ?thesis by (intro exI [of _ ?ys] conjI) (auto split: option.split prod.split split del: if_split)
qed

text \<open>A query for the greatest value of a column: none if no row matches, otherwise a row that has it.\<close>

lemma select_top:
  assumes "sel_result coll q T (case z of None \<Rightarrow> [] | Some r \<Rightarrow> [r])"
    and "sel_columns q = cols" "\<not> sel_distinct q" "well_typed scan T"
    and "reflects scan (matches coll (sel_where q)) P"
    and "sel_limit q = Some 1" "sel_order q = Some (c, False)" "c \<in> set cols"
    and "\<And>x y. sql_le coll (row_of cols (vals x) c) (row_of cols (vals y) c) \<longleftrightarrow> key x \<le> (key y :: u64)"
  shows "case z of
      None \<Rightarrow> \<forall>x \<in># content scan T. \<not> P x
    | Some r \<Rightarrow> \<exists>x. scan r = Ok x \<and> x \<in># content scan T \<and> P x \<and> (\<forall>y \<in># content scan T. P y \<longrightarrow> key y \<le> key x)"
proof -
  obtain ys where ys: "mset ys = filter_mset P (content scan T)"
    and ys2: "scan_rows scan (case z of None \<Rightarrow> [] | Some r \<Rightarrow> [r]) = Ok (take 1 ys)"
    and desc: "sorted_wrt (\<lambda>x y. key y \<le> key x) ys"
    using select_content [OF assms(1-5)] assms(6-9) by (auto simp: limited_def)
  have mem: "x \<in># content scan T \<and> P x \<longleftrightarrow> x \<in> set ys" for x
  proof -
    have "x \<in> set ys \<longleftrightarrow> x \<in># filter_mset P (content scan T)" by (simp only: ys [symmetric] set_mset_mset)
    then show ?thesis by simp
  qed
  show ?thesis
  proof (cases z)
    case None
    then have "ys = []" using ys2 by (cases ys) auto
    then show ?thesis using None mem by auto
  next
    case (Some r)
    then obtain x where x: "scan r = Ok x" "take 1 ys = [x]" using ys2 by (auto simp: bind_res_Ok_iff)
    then obtain zs where zs: "ys = x # zs" by (cases ys) auto
    then have max: "\<forall>y \<in> set ys. key y \<le> key x" using desc by auto
    have "x \<in> set ys" by (simp add: zs)
    then have "x \<in># content scan T" "P x" using mem [of x] by auto
    moreover have "\<forall>y \<in># content scan T. P y \<longrightarrow> key y \<le> key x" using max mem by blast
    ultimately show ?thesis using x(1) Some by simp
  qed
qed

lemma scan_overwrite:
  assumes "map r ks = map (row_of cols (vals x)) ks" "set cols \<subseteq> set ks \<union> set us"
  shows "scan (overwrite us (row_of cols (vals x)) r) = Ok x"
proof -
  have "scan (overwrite us (row_of cols (vals x)) r) = scan (row_of cols (vals x))"
  proof (rule scan_cong)
    fix c assume "c \<in> set cols"
    then show "overwrite us (row_of cols (vals x)) r c = row_of cols (vals x) c"
      using assms by (auto simp: overwrite_def)
  qed
  then show ?thesis by (simp add: scan_vals)
qed

text \<open>A row with a key, and an upsert that overwrites every other column.\<close>

lemma keys_content:
  assumes "keyed ks T" "set ks \<subseteq> set cols" "well_typed scan T"
  shows "size {# x \<in># content scan T. map (row_of cols (vals x)) ks = v #} \<le> 1"
proof -
  have "reflects scan (\<lambda>r. map r ks = v) (\<lambda>x. map (row_of cols (vals x)) ks = v)"
  proof -
    have "map r ks = map (row_of cols (vals x)) ks" if "scan r = Ok x" for r x
      using scan_inv [OF that] assms(2) by auto
    then show ?thesis unfolding reflects_def by metis
  qed
  from content_filter [OF assms(3) this] have
    "size {# x \<in># content scan T. map (row_of cols (vals x)) ks = v #} = size {# r \<in># T. map r ks = v #}"
    by (metis content_def size_image_mset)
  then show ?thesis using assms(1) by (simp add: keyed_def)
qed

lemma upsert_content:
  assumes "keyed ks T" "well_typed scan T" "set ks \<subseteq> set cols" "set ks \<inter> set us = {}"
    and "set cols \<subseteq> set ks \<union> set us"
  shows "well_typed scan (insert_row (Some (ks, us)) (row_of cols (vals x)) T)"
    and "content scan (insert_row (Some (ks, us)) (row_of cols (vals x)) T) =
      add_mset x {# y \<in># content scan T. map (row_of cols (vals y)) ks \<noteq> map (row_of cols (vals x)) ks #}"
proof -
  let ?n = "row_of cols (vals x)"
  let ?k = "map ?n ks"
  let ?f = "\<lambda>r. if map r ks = ?k then overwrite us ?n r else r"
  note over = scan_overwrite [OF _ assms(5)]
  have refl: "reflects scan (\<lambda>r. map r ks \<noteq> ?k) (\<lambda>y. map (row_of cols (vals y)) ks \<noteq> ?k)"
  proof -
    have "map r ks = map (row_of cols (vals y)) ks" if "scan r = Ok y" for r y
      using scan_inv [OF that] assms(3) by auto
    then show ?thesis unfolding reflects_def by metis
  qed
  note rest = content_filter [OF assms(2) refl]
  have split: "T = {# r \<in># T. map r ks = ?k #} + {# r \<in># T. map r ks \<noteq> ?k #}"
    by (rule multiset_partition)
  have "well_typed scan (insert_row (Some (ks, us)) ?n T) \<and>
    content scan (insert_row (Some (ks, us)) ?n T) = add_mset x (content scan {# r \<in># T. map r ks \<noteq> ?k #})"
  proof (cases rule: keyed_cases [OF assms(1), of ?k])
    case 1
    then have none: "\<not> (\<exists>r \<in># T. map r ks = ?k)" by (auto simp: find_row_None_iff)
    then have "{# r \<in># T. map r ks \<noteq> ?k #} = T" by (simp add: filter_mset_eq_conv)
    then show ?thesis using none assms(2)
      by (simp only: insert_row_def option.case prod.case if_False) (simp add: scan_vals)
  next
    case (2 r0)
    then have "\<exists>r \<in># T. map r ks = ?k" by blast
    then have ins: "insert_row (Some (ks, us)) ?n T = image_mset ?f T"
      by (simp only: insert_row_def option.case prod.case if_True)
    also have "\<dots> = image_mset ?f {# r \<in># T. map r ks = ?k #} + image_mset ?f {# r \<in># T. map r ks \<noteq> ?k #}"
      by (subst split) (rule image_mset_union)
    also have "image_mset ?f {# r \<in># T. map r ks = ?k #} = {# overwrite us ?n r0 #}"
      by (simp only: 2 image_mset_single if_True simp_thms)
    also have "image_mset ?f {# r \<in># T. map r ks \<noteq> ?k #} = {# r \<in># T. map r ks \<noteq> ?k #}"
    proof -
      have "image_mset ?f {# r \<in># T. map r ks \<noteq> ?k #} = image_mset (\<lambda>r. r) {# r \<in># T. map r ks \<noteq> ?k #}"
        by (rule image_mset_cong) auto
      then show ?thesis by simp
    qed
    finally show ?thesis using over [OF 2(3)] well_typed_filter [OF assms(2)]
      by (simp del: map_eq_conv)
  qed
  then show "well_typed scan (insert_row (Some (ks, us)) (row_of cols (vals x)) T)"
    and "content scan (insert_row (Some (ks, us)) (row_of cols (vals x)) T) =
      add_mset x {# y \<in># content scan T. map (row_of cols (vals y)) ks \<noteq> map (row_of cols (vals x)) ks #}"
    using rest by simp_all
qed

text \<open>A keyed table as a map from keys to structs.\<close>

lemma reflects_key:
  assumes "set ks \<subseteq> set cols"
  shows "scan r = Ok x \<Longrightarrow> map r ks = map (row_of cols (vals x)) ks"
  using scan_inv assms by auto

lemma lookup_iff:
  assumes "keyed ks T" "well_typed scan T" "set ks \<subseteq> set cols"
  shows "lookup scan ks T v = Some x \<longleftrightarrow> x \<in># content scan T \<and> map (row_of cols (vals x)) ks = v"
proof -
  have ok: "scan r = Ok (the_ok (scan r))" if "r \<in># T" for r
    using assms(2) that by (auto simp: well_typed_def is_ok_iff)
  show ?thesis
  proof
    assume "lookup scan ks T v = Some x"
    then obtain r where "find_row ks v T = Some r" "x = the_ok (scan r)" by (auto simp: lookup_def)
    then show "x \<in># content scan T \<and> map (row_of cols (vals x)) ks = v"
      using find_row_Some_iff [OF assms(1)] ok reflects_key [OF assms(3)] by (auto simp: content_def)
  next
    assume x: "x \<in># content scan T \<and> map (row_of cols (vals x)) ks = v"
    then obtain r where r: "r \<in># T" "x = the_ok (scan r)" by (auto simp: content_def)
    then have "map r ks = v" using x reflects_key [OF assms(3) ok [OF r(1)]] by simp
    then have "find_row ks v T = Some r" using r(1) by (simp add: find_row_Some_iff [OF assms(1)])
    then show "lookup scan ks T v = Some x" using r(2) by (simp add: lookup_def)
  qed
qed

lemma lookup_insert:
  assumes "keyed ks T" "set ks \<inter> set us = {}" "set cols \<subseteq> set ks \<union> set us"
  shows "lookup scan ks (insert_row (Some (ks, us)) (row_of cols (vals x)) T) =
    (lookup scan ks T)(map (row_of cols (vals x)) ks \<mapsto> x)"
proof
  fix v
  let ?n = "row_of cols (vals x)"
  have over: "scan (overwrite us ?n r) = Ok x" if "find_row ks (map ?n ks) T = Some r" for r
    using scan_overwrite [OF _ assms(3)] that unfolding find_row_Some_iff [OF assms(1)] by blast
  show "lookup scan ks (insert_row (Some (ks, us)) ?n T) v = ((lookup scan ks T)(map ?n ks \<mapsto> x)) v"
    unfolding lookup_def find_row_insert_row [OF assms(1,2)]
    using over scan_vals by (simp split: option.split)
qed

lemma lookup_filter:
  assumes "keyed ks T" "well_typed scan T" "reflects scan C P"
  shows "lookup scan ks (filter_mset C T) v =
    (case lookup scan ks T v of None \<Rightarrow> None | Some x \<Rightarrow> if P x then Some x else None)"
proof (cases "find_row ks v T")
  case None
  then show ?thesis by (simp add: lookup_def find_row_filter [OF assms(1)])
next
  case (Some r)
  then have "r \<in># T" using find_row_Some_iff [OF assms(1)] by blast
  then have "C r = P (the_ok (scan r))" using assms(2,3) by (auto simp: well_typed_def reflects_def is_ok_iff)
  with Some show ?thesis by (simp add: lookup_def find_row_filter [OF assms(1)])
qed

end

end
