(* ===== verification/EventsPg.thy ===== *)
theory EventsPg
  imports PgStore TypedTable EventStore
begin

text \<open>
  \<open>eventstore/postgres\<close>: the Postgres event store of \<open>events_store.go\<close> with the struct \<open>row\<close>
  of \<open>row.go\<close>, over the layer of \<open>postgres.go\<close>. \<open>WriteEvents\<close> runs in one transaction and
  inserts in batches of \<open>insertBatchSize\<close>.
\<close>

section \<open>row.go\<close>

record event_row =
  ew_PersistenceID :: string
  ew_SequenceNumber :: u64
  ew_IsDeleted :: bool
  ew_EventPayload :: go_bytes
  ew_EventManifest :: string
  ew_Timestamp :: i64
  ew_ShardNumber :: u64
  ew_EncryptionKeyID :: string
  ew_IsEncrypted :: bool

definition zero_event_row :: event_row where
  "zero_event_row = \<lparr>ew_PersistenceID = [], ew_SequenceNumber = 0, ew_IsDeleted = False, ew_EventPayload = None,
     ew_EventManifest = [], ew_Timestamp = 0, ew_ShardNumber = 0, ew_EncryptionKeyID = [], ew_IsEncrypted = False\<rparr>"

definition row_event :: "event_row \<Rightarrow> any \<Rightarrow> event" where
  "row_event x evt =
     \<lparr>ev_PersistenceId = ew_PersistenceID x, ev_SequenceNumber = ew_SequenceNumber x,
      ev_IsDeleted = ew_IsDeleted x, ev_Event = Some evt, ev_Timestamp = ew_Timestamp x,
      ev_Shard = ew_ShardNumber x, ev_EncryptionKeyId = ew_EncryptionKeyID x, ev_IsEncrypted = ew_IsEncrypted x\<rparr>"

definition pe_toProto :: "('t, 'm) protolib \<Rightarrow> string \<Rightarrow> go_bytes \<Rightarrow> any res" where
  "pe_toProto L manifest bytea =
     (case find_message L manifest of
        Err err \<Rightarrow> Err err
      | Panic \<Rightarrow> Panic
      | Ok mt \<Rightarrow>
          (case unmarshal L mt bytea of
             Err err \<Rightarrow> Err err
           | Panic \<Rightarrow> Panic
           | Ok pm \<Rightarrow>
               (case pm of
                  MsgAny cast \<Rightarrow> Ok cast
                | MsgOther _ \<Rightarrow> Err (ErrNew (''failed to unpack message='' @ manifest)))))"

lemma pe_toProto_eq [simp]: "pe_toProto = toProto"
  by (intro ext) (simp add: pe_toProto_def toProto_def)

definition ToEvent :: "('t, 'm) protolib \<Rightarrow> event_row \<Rightarrow> event res" where
  "ToEvent L x =
     (case pe_toProto L (ew_EventManifest x) (ew_EventPayload x) of
        Err err \<Rightarrow> Err (ErrWrap ''failed to unmarshal the journal event'' err)
      | Panic \<Rightarrow> Panic
      | Ok evt \<Rightarrow> Ok (row_event x evt))"

fun ToEvents :: "('t, 'm) protolib \<Rightarrow> event_row list \<Rightarrow> event list \<Rightarrow> event list res" where
  "ToEvents L [] events = Ok events"
| "ToEvents L (row # rows) events =
     (case pe_toProto L (ew_EventManifest row) (ew_EventPayload row) of
        Err err \<Rightarrow> Err (ErrWrap ''failed to unmarshal the journal event'' err)
      | Panic \<Rightarrow> Panic
      | Ok evt \<Rightarrow> ToEvents L rows (events @ [row_event row evt]))"

definition scan_event_row :: "row \<Rightarrow> event_row res" where
  "scan_event_row r =
     bind_res (scan_string (r ''persistence_id'')) (\<lambda>pid.
     bind_res (scan_u64 (r ''sequence_number'')) (\<lambda>seq.
     bind_res (scan_bool (r ''is_deleted'')) (\<lambda>del.
     bind_res (scan_bytes (r ''event_payload'')) (\<lambda>payload.
     bind_res (scan_string (r ''event_manifest'')) (\<lambda>manifest.
     bind_res (scan_i64 (r ''timestamp'')) (\<lambda>ts.
     bind_res (scan_u64 (r ''shard_number'')) (\<lambda>shard.
     bind_res (scan_string (r ''encryption_key_id'')) (\<lambda>key.
     bind_res (scan_bool (r ''is_encrypted'')) (\<lambda>enc.
       Ok \<lparr>ew_PersistenceID = pid, ew_SequenceNumber = seq, ew_IsDeleted = del, ew_EventPayload = payload,
           ew_EventManifest = manifest, ew_Timestamp = ts, ew_ShardNumber = shard,
           ew_EncryptionKeyID = key, ew_IsEncrypted = enc\<rparr>)))))))))"

section \<open>events\_store.go\<close>

definition pe_columns :: "string list" where
  "pe_columns = [''persistence_id'', ''sequence_number'', ''is_deleted'', ''event_payload'',
     ''event_manifest'', ''timestamp'', ''shard_number'', ''encryption_key_id'', ''is_encrypted'']"

definition pe_tableName :: string where
  "pe_tableName = ''events_store''"

record event_config =
  ec_DBHost :: string
  ec_DBPort :: i64
  ec_DBName :: string
  ec_DBUser :: string
  ec_DBPassword :: string
  ec_DBSchema :: string

record ('pool, 'w) pe_store = "('pool, 'w) pg_store" +
  pe_insertBatchSize :: nat

definition pe_NewEventsStore :: "event_config \<Rightarrow> 'w \<Rightarrow> ('pool, 'w) pe_store" where
  "pe_NewEventsStore config w =
     (let db = plain_newDatabase (plain_newConfig (ec_DBHost config) (ec_DBPort config) (ec_DBUser config)
                 (ec_DBPassword config) (ec_DBName config) (ec_DBSchema config))
      in \<lparr>st_db = db, st_connected = False, st_world = w, pe_insertBatchSize = 500\<rparr>)"

definition pe_Connect ::
  "('q, 'cfg, 'pool, 'tx, 'w) pgdrv \<Rightarrow> ('pool, 'w) pe_store \<Rightarrow> unit res \<times> ('pool, 'w) pe_store" where
  "pe_Connect D s =
     (if st_connected s then (Ok (), s)
      else case pg_Connect D (st_pair s) of
             (Err err, p) \<Rightarrow> (Err err, st_put p s)
           | (Panic, p) \<Rightarrow> (Panic, st_put p s)
           | (Ok _, p) \<Rightarrow> (Ok (), (st_put p s)\<lparr>st_connected := True\<rparr>))"

definition pe_Disconnect ::
  "('q, 'cfg, 'pool, 'tx, 'w) pgdrv \<Rightarrow> ('pool, 'w) pe_store \<Rightarrow> unit res \<times> ('pool, 'w) pe_store" where
  "pe_Disconnect D s =
     (if \<not> st_connected s then (Ok (), s)
      else case pg_Disconnect D (st_pair s) of
             (Err err, p) \<Rightarrow> (Err err, st_put p s)
           | (Panic, p) \<Rightarrow> (Panic, st_put p s)
           | (Ok _, p) \<Rightarrow> (Ok (), (st_put p s)\<lparr>st_connected := False\<rparr>))"

definition pe_Ping ::
  "('q, 'cfg, 'pool, 'tx, 'w) pgdrv \<Rightarrow> ('pool, 'w) pe_store \<Rightarrow> unit res \<times> ('pool, 'w) pe_store" where
  "pe_Ping D s =
     (if \<not> st_connected s then pe_Connect D s
      else let (r, p) = pg_Ping D (st_pair s) in (r, st_put p s))"

definition events_not_connected :: goerr where
  "events_not_connected = ErrNew ''journal store is not connected''"

definition pe_ids_select :: "u64 \<Rightarrow> string \<Rightarrow> select_stmt" where
  "pe_ids_select pageSize pageToken =
     (let statement = sq_OrderByAsc ''persistence_id'' (sq_Limit pageSize
            (sq_Distinct (sq_Select [''persistence_id''] pe_tableName)))
      in if pageToken \<noteq> '''' then sq_Where (CondGt ''persistence_id'' (SText pageToken)) statement
         else statement)"

definition pe_PersistenceIDs ::
  "('q, 'cfg, 'pool, 'tx, 'w) pgdrv \<Rightarrow> u64 \<Rightarrow> string \<Rightarrow> ('pool, 'w) pe_store \<Rightarrow> (string list \<times> string) res" where
  "pe_PersistenceIDs D pageSize pageToken s =
     (if \<not> st_connected s then Err events_not_connected
      else case to_sql D (Select (pe_ids_select pageSize pageToken)) of
        Err err \<Rightarrow> Err (ErrWrap ''failed to build the sql statement'' err)
      | Panic \<Rightarrow> Panic
      | Ok query \<Rightarrow>
          (case bind_res (pg_SelectAll D query (st_pair s)) (scan_rows (\<lambda>r. scan_string (r ''persistence_id''))) of
             Err err \<Rightarrow> Err (ErrWrap ''failed to fetch the events from the database'' err)
           | Panic \<Rightarrow> Panic
           | Ok rows \<Rightarrow> if rows = [] then Ok ([], '''') else Ok (rows, last rows)))"

text \<open>The values of one event, after its payload was marshalled to \<open>eventBytes\<close>.\<close>

definition pe_event_values :: "('t, 'm) protolib \<Rightarrow> event \<Rightarrow> go_bytes \<Rightarrow> sqlval list" where
  "pe_event_values L e eventBytes =
     [SText (ev_PersistenceId e), bind_u64 (ev_SequenceNumber e), SBool (ev_IsDeleted e),
      bind_bytes eventBytes, SText (full_name L (ev_Event e)), bind_i64 (ev_Timestamp e),
      bind_u64 (ev_Shard e), SText (ev_EncryptionKeyId e), SBool (ev_IsEncrypted e)]"

text \<open>
  The loop of \<open>WriteEvents\<close> inside the transaction \<open>tx\<close>: \<open>index\<close> is the position of the
  next event, \<open>n\<close> the number of all of them, \<open>statement\<close> the rows not inserted yet.
\<close>

fun pe_write_loop ::
  "('t, 'm) protolib \<Rightarrow> ('q, 'cfg, 'pool, 'tx, 'w) pgdrv \<Rightarrow> 'tx \<Rightarrow> nat \<Rightarrow> nat \<Rightarrow> event option list \<Rightarrow> nat \<Rightarrow>
   insert_stmt \<Rightarrow> 'w \<Rightarrow> unit res \<times> 'w" where
  "pe_write_loop L D tx batch n [] index statement w = (Ok (), w)"
| "pe_write_loop L D tx batch n (event # events) index statement w =
     (let e = or_zero zero_event event in
      case marshal L (ev_Event e) of
        (_, Some err) \<Rightarrow> (Err (ErrWrap (''failed to marshal event at index '' @ fmt_nat index) err), w)
      | (eventBytes, None) \<Rightarrow>
          let statement = sq_Values (pe_event_values L e eventBytes) statement in
          if (index + 1) mod batch = 0 \<or> index = n - 1
          then case to_sql D (Insert statement) of
                 Err err \<Rightarrow> (Err (ErrWrap ''unable to build sql insert statement'' err), w)
               | Panic \<Rightarrow> (Panic, w)
               | Ok query \<Rightarrow>
                   (case tx_exec D tx query w of
                      (Err execErr, w1) \<Rightarrow>
                        (case tx_rollback D tx w1 of
                           (Err err, w2) \<Rightarrow> (Err (ErrWrap ''unable to rollback db transaction'' err), w2)
                         | (Panic, w2) \<Rightarrow> (Panic, w2)
                         | (Ok _, w2) \<Rightarrow> (Err (ErrWrap ''failed to record events'' execErr), w2))
                    | (Panic, w1) \<Rightarrow> (Panic, w1)
                    | (Ok _, w1) \<Rightarrow>
                        pe_write_loop L D tx batch n events (index + 1) (sq_Insert pe_tableName pe_columns) w1)
          else pe_write_loop L D tx batch n events (index + 1) statement w)"

definition pe_WriteEvents ::
  "('t, 'm) protolib \<Rightarrow> ('q, 'cfg, 'pool, 'tx, 'w) pgdrv \<Rightarrow> event option list \<Rightarrow> ('pool, 'w) pe_store \<Rightarrow>
   unit res \<times> ('pool, 'w) pe_store" where
  "pe_WriteEvents L D events s =
     (if \<not> st_connected s then (Err events_not_connected, s)
      else if length events = 0 then (Ok (), s)
      else case pg_BeginTx D (st_pair s) of
        (Err err, p) \<Rightarrow> (Err (ErrWrap ''failed to obtain a database transaction'' err), st_put p s)
      | (Panic, p) \<Rightarrow> (Panic, st_put p s)
      | (Ok tx, (db, w)) \<Rightarrow>
          (case pe_write_loop L D tx (pe_insertBatchSize s) (length events) events 0
                  (sq_Insert pe_tableName pe_columns) w of
             (Err err, w1) \<Rightarrow> (Err err, st_put (db, w1) s)
           | (Panic, w1) \<Rightarrow> (Panic, st_put (db, w1) s)
           | (Ok _, w1) \<Rightarrow>
               (case tx_commit D tx w1 of
                  (Err commitErr, w2) \<Rightarrow> (Err (ErrWrap ''failed to record events'' commitErr), st_put (db, w2) s)
                | (Panic, w2) \<Rightarrow> (Panic, st_put (db, w2) s)
                | (Ok _, w2) \<Rightarrow> (Ok (), st_put (db, w2) s))))"

definition pe_delete :: "string \<Rightarrow> u64 \<Rightarrow> delete_stmt" where
  "pe_delete persistenceID toSequenceNumber =
     sq_DeleteWhere (CondLtOrEq ''sequence_number'' (bind_u64 toSequenceNumber))
       (sq_DeleteWhere (CondEq ''persistence_id'' (SText persistenceID)) (sq_Delete pe_tableName))"

definition pe_DeleteEvents ::
  "('q, 'cfg, 'pool, 'tx, 'w) pgdrv \<Rightarrow> string \<Rightarrow> u64 \<Rightarrow> ('pool, 'w) pe_store \<Rightarrow>
   unit res \<times> ('pool, 'w) pe_store" where
  "pe_DeleteEvents D persistenceID toSequenceNumber s =
     (if \<not> st_connected s then (Err events_not_connected, s)
      else case to_sql D (Delete (pe_delete persistenceID toSequenceNumber)) of
        Err err \<Rightarrow> (Err (ErrWrap ''failed to build the delete events sql statement'' err), s)
      | Panic \<Rightarrow> (Panic, s)
      | Ok query \<Rightarrow>
          (case pg_BeginTx D (st_pair s) of
             (Err err, p) \<Rightarrow> (Err (ErrWrap ''failed to obtain a database transaction'' err), st_put p s)
           | (Panic, p) \<Rightarrow> (Panic, st_put p s)
           | (Ok tx, (db, w)) \<Rightarrow>
               (case tx_exec D tx query w of
                  (Err execErr, w1) \<Rightarrow>
                    (case tx_rollback D tx w1 of
                       (Err err, w2) \<Rightarrow> (Err (ErrWrap ''unable to rollback db transaction'' err), st_put (db, w2) s)
                     | (Panic, w2) \<Rightarrow> (Panic, st_put (db, w2) s)
                     | (Ok _, w2) \<Rightarrow> (Err (ErrWrap ''failed to delete events from the database'' execErr), st_put (db, w2) s))
                | (Panic, w1) \<Rightarrow> (Panic, st_put (db, w1) s)
                | (Ok _, w1) \<Rightarrow>
                    (case tx_commit D tx w1 of
                       (Err err, w2) \<Rightarrow> (Err (ErrWrap ''failed to commit delete events'' err), st_put (db, w2) s)
                     | (Panic, w2) \<Rightarrow> (Panic, st_put (db, w2) s)
                     | (Ok _, w2) \<Rightarrow> (Ok (), st_put (db, w2) s)))))"

definition pe_replay_select :: "string \<Rightarrow> u64 \<Rightarrow> u64 \<Rightarrow> u64 \<Rightarrow> select_stmt" where
  "pe_replay_select persistenceID fromSequenceNumber toSequenceNumber limit =
     sq_Limit limit (sq_OrderByAsc ''sequence_number''
       (sq_Where (CondLtOrEq ''sequence_number'' (bind_u64 toSequenceNumber))
         (sq_Where (CondGtOrEq ''sequence_number'' (bind_u64 fromSequenceNumber))
           (sq_Where (CondEq ''persistence_id'' (SText persistenceID))
             (sq_Select pe_columns pe_tableName)))))"

definition pe_ReplayEvents ::
  "('t, 'm) protolib \<Rightarrow> ('q, 'cfg, 'pool, 'tx, 'w) pgdrv \<Rightarrow> string \<Rightarrow> u64 \<Rightarrow> u64 \<Rightarrow> u64 \<Rightarrow>
   ('pool, 'w) pe_store \<Rightarrow> event list res" where
  "pe_ReplayEvents L D persistenceID fromSequenceNumber toSequenceNumber limit s =
     (if \<not> st_connected s then Err events_not_connected
      else case to_sql D (Select (pe_replay_select persistenceID fromSequenceNumber toSequenceNumber limit)) of
        Err err \<Rightarrow> Err (ErrWrap ''failed to build the select sql statement'' err)
      | Panic \<Rightarrow> Panic
      | Ok query \<Rightarrow>
          (case bind_res (pg_SelectAll D query (st_pair s)) (scan_rows scan_event_row) of
             Err err \<Rightarrow> Err (ErrWrap ''failed to fetch the events from the database'' err)
           | Panic \<Rightarrow> Panic
           | Ok rows \<Rightarrow> ToEvents L rows []))"

definition pe_latest_select :: "string \<Rightarrow> select_stmt" where
  "pe_latest_select persistenceID =
     sq_Limit 1 (sq_OrderByDesc ''sequence_number''
       (sq_Where (CondEq ''persistence_id'' (SText persistenceID)) (sq_Select pe_columns pe_tableName)))"

definition pe_GetLatestEvent ::
  "('t, 'm) protolib \<Rightarrow> ('q, 'cfg, 'pool, 'tx, 'w) pgdrv \<Rightarrow> string \<Rightarrow> ('pool, 'w) pe_store \<Rightarrow> event option res" where
  "pe_GetLatestEvent L D persistenceID s =
     (if \<not> st_connected s then Err events_not_connected
      else case to_sql D (Select (pe_latest_select persistenceID)) of
        Err err \<Rightarrow> Err (ErrWrap ''failed to build the select sql statement'' err)
      | Panic \<Rightarrow> Panic
      | Ok query \<Rightarrow>
          (case bind_res (pg_Select D query (st_pair s))
                  (\<lambda>x. case x of None \<Rightarrow> Ok zero_event_row | Some r \<Rightarrow> scan_event_row r) of
             Err err \<Rightarrow> Err (ErrWrap ''failed to fetch the latest event from the database'' err)
           | Panic \<Rightarrow> Panic
           | Ok row \<Rightarrow>
               if ew_PersistenceID row = '''' then Ok None
               else bind_res (ToEvent L row) (\<lambda>d. Ok (Some d))))"

definition pe_shard_select :: "u64 \<Rightarrow> i64 \<Rightarrow> u64 \<Rightarrow> select_stmt" where
  "pe_shard_select shardNumber offset limit =
     sq_Limit limit (sq_OrderByAsc ''timestamp''
       (sq_Where (CondGt ''timestamp'' (bind_i64 offset))
         (sq_Where (CondEq ''shard_number'' (bind_u64 shardNumber)) (sq_Select pe_columns pe_tableName))))"

definition pe_GetShardEvents ::
  "('t, 'm) protolib \<Rightarrow> ('q, 'cfg, 'pool, 'tx, 'w) pgdrv \<Rightarrow> u64 \<Rightarrow> i64 \<Rightarrow> u64 \<Rightarrow>
   ('pool, 'w) pe_store \<Rightarrow> (event list \<times> i64) res" where
  "pe_GetShardEvents L D shardNumber offset limit s =
     (if \<not> st_connected s then Err events_not_connected
      else case to_sql D (Select (pe_shard_select shardNumber offset limit)) of
        Err err \<Rightarrow> Err (ErrWrap ''failed to build the select sql statement'' err)
      | Panic \<Rightarrow> Panic
      | Ok query \<Rightarrow>
          (case bind_res (pg_SelectAll D query (st_pair s)) (scan_rows scan_event_row) of
             Err err \<Rightarrow> Err (ErrWrap ''failed to fetch the events from the database'' err)
           | Panic \<Rightarrow> Panic
           | Ok rows \<Rightarrow>
               if length rows = 0 then Ok ([], 0)
               else bind_res (ToEvents L rows []) (\<lambda>events. Ok (events, ev_Timestamp (last events)))))"

definition pe_ShardNumbers ::
  "('q, 'cfg, 'pool, 'tx, 'w) pgdrv \<Rightarrow> ('pool, 'w) pe_store \<Rightarrow> u64 list res" where
  "pe_ShardNumbers D s =
     (if \<not> st_connected s then Err events_not_connected
      else case to_sql D (Select (sq_Distinct (sq_Select [''shard_number''] pe_tableName))) of
        Err err \<Rightarrow> Err (ErrWrap ''failed to build the select sql statement'' err)
      | Panic \<Rightarrow> Panic
      | Ok query \<Rightarrow>
          (case bind_res (pg_SelectAll D query (st_pair s)) (scan_rows (\<lambda>r. scan_u64 (r ''shard_number''))) of
             Err err \<Rightarrow> Err (ErrWrap ''failed to fetch the events from the database'' err)
           | Panic \<Rightarrow> Panic
           | Ok shardNumbers \<Rightarrow> Ok shardNumbers))"

section \<open>Lifecycle\<close>

lemma pe_store: "pe_Connect = store_Connect" "pe_Disconnect = store_Disconnect" "pe_Ping = store_Ping"
  by (simp_all add: fun_eq_iff pe_Connect_def pe_Disconnect_def pe_Ping_def store_defs)

interpretation pe_life: lifecycle "\<lambda>_. True" st_connected pe_Connect pe_Disconnect pe_Ping
  unfolding pe_store by (rule store_life.lifecycle_axioms)

end
