(* ===== verification/EventsPgStore.thy ===== *)
theory EventsPgStore
  imports EventsPg
begin

text \<open>
  The Postgres event store is correct: the table read as a bag of events, the write loop with
  its batches and its transaction, the queries, and the interfaces \<open>event_store\<close> and
  \<open>latest_event_store\<close> interpreted on the store.
\<close>

section \<open>The table as events\<close>

definition event_row_values :: "event_row \<Rightarrow> sqlval list" where
  "event_row_values x = [SText (ew_PersistenceID x), bind_u64 (ew_SequenceNumber x), SBool (ew_IsDeleted x),
     bind_bytes (ew_EventPayload x), SText (ew_EventManifest x), bind_i64 (ew_Timestamp x),
     bind_u64 (ew_ShardNumber x), SText (ew_EncryptionKeyID x), SBool (ew_IsEncrypted x)]"

interpretation pe_table: typed_table pe_columns event_row_values scan_event_row
proof unfold_locales
  show "scan_event_row (row_of pe_columns (event_row_values x)) = Ok x" for x
    by (simp add: scan_event_row_def row_of_def pe_columns_def event_row_values_def)
  show "scan_event_row r = scan_event_row r'" if "\<And>c. c \<in> set pe_columns \<Longrightarrow> r c = r' c" for r r'
    using that by (simp add: scan_event_row_def pe_columns_def)
  show "r c = row_of pe_columns (event_row_values x) c"
    if "scan_event_row r = Ok x" "c \<in> set pe_columns" for r x c
  proof -
    have "r ''persistence_id'' = SText (ew_PersistenceID x)" "r ''sequence_number'' = bind_u64 (ew_SequenceNumber x)"
      "r ''is_deleted'' = SBool (ew_IsDeleted x)" "r ''event_payload'' = bind_bytes (ew_EventPayload x)"
      "r ''event_manifest'' = SText (ew_EventManifest x)" "r ''timestamp'' = bind_i64 (ew_Timestamp x)"
      "r ''shard_number'' = bind_u64 (ew_ShardNumber x)" "r ''encryption_key_id'' = SText (ew_EncryptionKeyID x)"
      "r ''is_encrypted'' = SBool (ew_IsEncrypted x)"
      using that(1) by (auto simp: scan_event_row_def bind_res_Ok_iff dest!: scan_Ok)
    then show ?thesis
      using that(2) by (auto simp: row_of_def pe_columns_def event_row_values_def)
  qed
qed

definition row_of_event :: "('t, 'm) protolib \<Rightarrow> event \<Rightarrow> event_row" where
  "row_of_event L e =
     \<lparr>ew_PersistenceID = ev_PersistenceId e, ew_SequenceNumber = ev_SequenceNumber e,
      ew_IsDeleted = ev_IsDeleted e, ew_EventPayload = marshal_bytes L (ev_Event e),
      ew_EventManifest = full_name L (ev_Event e), ew_Timestamp = ev_Timestamp e,
      ew_ShardNumber = ev_Shard e, ew_EncryptionKeyID = ev_EncryptionKeyId e, ew_IsEncrypted = ev_IsEncrypted e\<rparr>"

lemma pe_event_values_row: "pe_event_values L e (marshal_bytes L (ev_Event e)) = event_row_values (row_of_event L e)"
  by (simp add: pe_event_values_def event_row_values_def row_of_event_def)

text \<open>What comes back of an event: a nil payload as an empty one.\<close>

definition pe_obs :: "event \<Rightarrow> event" where
  "pe_obs e = e\<lparr>ev_Event := Some (or_zero zero_any (ev_Event e))\<rparr>"

definition pe_storable :: "('t, 'm) protolib \<Rightarrow> event \<Rightarrow> bool" where
  "pe_storable L e \<longleftrightarrow> marshals L (ev_Event e)"

lemma ToEvent_row:
  assumes "proto_contract L" "pe_storable L e"
  shows "ToEvent L (row_of_event L e) = Ok (pe_obs e)"
  using toProto_roundtrip [OF assms(1), of "ev_Event e"] assms(2)
  by (simp add: pe_storable_def ToEvent_def row_of_event_def row_event_def pe_obs_def)

lemma ToEvent_fields:
  "ToEvent L x = Ok e \<Longrightarrow> ev_PersistenceId e = ew_PersistenceID x \<and> ev_SequenceNumber e = ew_SequenceNumber x \<and>
     ev_Timestamp e = ew_Timestamp x \<and> ev_Shard e = ew_ShardNumber x"
  by (auto simp: ToEvent_def row_event_def split: res.splits)

lemma ToEvents_ok:
  "\<forall>x \<in> set xs. is_ok (ToEvent L x) \<Longrightarrow> ToEvents L xs es = Ok (es @ map (\<lambda>x. the_ok (ToEvent L x)) xs)"
proof (induction xs arbitrary: es)
  case (Cons x xs)
  then obtain evt where "toProto L (ew_EventManifest x) (ew_EventPayload x) = Ok evt"
    by (auto simp: ToEvent_def split: res.splits)
  then show ?case using Cons by (simp add: ToEvent_def)
qed simp

lemma ToEvents_length: "ToEvents L xs es = Ok ys \<Longrightarrow> length ys = length es + length xs"
  by (induction xs arbitrary: es) (auto split: res.splits)

section \<open>The write loop\<close>

lemma pe_tx_facts:
  assumes "pgenv_ok env" "gh_valid (snd env) w"
  shows "pool_begin (fst env) p w = (r, w') \<Longrightarrow> r \<noteq> Panic \<and> gh_valid (snd env) w' \<and>
      gh_tables (snd env) w' = gh_tables (snd env) w \<and>
      gh_open (snd env) w' = (if is_ok r then Suc (gh_open (snd env) w) else gh_open (snd env) w) \<and>
      (\<forall>tx. r = Ok tx \<longrightarrow> gh_staged (snd env) w' tx = gh_tables (snd env) w \<and> gh_live (snd env) w' tx)"
    and "to_sql (fst env) st = Ok q \<Longrightarrow> tx_exec (fst env) tx q w = (r2, w2) \<Longrightarrow>
      r2 \<noteq> Panic \<and> gh_valid (snd env) w2 \<and> gh_tables (snd env) w2 = gh_tables (snd env) w \<and>
      gh_open (snd env) w2 = gh_open (snd env) w \<and> gh_live (snd env) w2 tx = gh_live (snd env) w tx \<and>
      (r2 = Ok () \<longrightarrow> gh_staged (snd env) w2 tx = exec_stmt (gh_coll (snd env)) st (gh_staged (snd env) w tx))"
    and "gh_live (snd env) w tx \<Longrightarrow> tx_rollback (fst env) tx w = (r3, w3) \<Longrightarrow> r3 \<noteq> Panic \<and> gh_valid (snd env) w3 \<and>
      gh_tables (snd env) w3 = gh_tables (snd env) w \<and> gh_open (snd env) w3 = gh_open (snd env) w - 1"
    and "gh_live (snd env) w tx \<Longrightarrow> tx_commit (fst env) tx w = (r4, w4) \<Longrightarrow> r4 \<noteq> Panic \<and> gh_valid (snd env) w4 \<and>
      gh_open (snd env) w4 = gh_open (snd env) w - 1 \<and>
      (r4 = Ok () \<longrightarrow> gh_tables (snd env) w4 = gh_staged (snd env) w tx) \<and>
      (r4 \<noteq> Ok () \<longrightarrow> gh_tables (snd env) w4 = gh_tables (snd env) w \<or>
         gh_tables (snd env) w4 = gh_staged (snd env) w tx)"
proof -
  have T: "tx_contract (fst env) (snd env)" using assms(1) by (simp add: pgenv_ok_def pg_contract_def)
  note parts = T [unfolded tx_contract_def]
  show "pool_begin (fst env) p w = (r, w') \<Longrightarrow> r \<noteq> Panic \<and> gh_valid (snd env) w' \<and>
      gh_tables (snd env) w' = gh_tables (snd env) w \<and>
      gh_open (snd env) w' = (if is_ok r then Suc (gh_open (snd env) w) else gh_open (snd env) w) \<and>
      (\<forall>tx. r = Ok tx \<longrightarrow> gh_staged (snd env) w' tx = gh_tables (snd env) w \<and> gh_live (snd env) w' tx)"
    using conjunct1 [OF parts] assms(2) by blast
  show "to_sql (fst env) st = Ok q \<Longrightarrow> tx_exec (fst env) tx q w = (r2, w2) \<Longrightarrow>
      r2 \<noteq> Panic \<and> gh_valid (snd env) w2 \<and> gh_tables (snd env) w2 = gh_tables (snd env) w \<and>
      gh_open (snd env) w2 = gh_open (snd env) w \<and> gh_live (snd env) w2 tx = gh_live (snd env) w tx \<and>
      (r2 = Ok () \<longrightarrow> gh_staged (snd env) w2 tx = exec_stmt (gh_coll (snd env)) st (gh_staged (snd env) w tx))"
    using conjunct1 [OF conjunct2 [OF parts]] assms(2) by blast
  show "gh_live (snd env) w tx \<Longrightarrow> tx_rollback (fst env) tx w = (r3, w3) \<Longrightarrow> r3 \<noteq> Panic \<and> gh_valid (snd env) w3 \<and>
      gh_tables (snd env) w3 = gh_tables (snd env) w \<and> gh_open (snd env) w3 = gh_open (snd env) w - 1"
    using conjunct1 [OF conjunct2 [OF conjunct2 [OF parts]]] assms(2) by presburger
  show "gh_live (snd env) w tx \<Longrightarrow> tx_commit (fst env) tx w = (r4, w4) \<Longrightarrow> r4 \<noteq> Panic \<and> gh_valid (snd env) w4 \<and>
      gh_open (snd env) w4 = gh_open (snd env) w - 1 \<and>
      (r4 = Ok () \<longrightarrow> gh_tables (snd env) w4 = gh_staged (snd env) w tx) \<and>
      (r4 \<noteq> Ok () \<longrightarrow> gh_tables (snd env) w4 = gh_tables (snd env) w \<or>
         gh_tables (snd env) w4 = gh_staged (snd env) w tx)"
    using conjunct2 [OF conjunct2 [OF conjunct2 [OF parts]]] assms(2) by presburger
qed

text \<open>The statement with the rows that are still to be inserted.\<close>

definition pe_pending :: "event_row list \<Rightarrow> insert_stmt" where
  "pe_pending xs = \<lparr>ins_into = ''events_store'', ins_columns = pe_columns, ins_values = map event_row_values xs,
     ins_conflict = None\<rparr>"

lemma pe_pending_simps:
  "sq_Insert pe_tableName pe_columns = pe_pending []"
  "sq_Values (event_row_values x) (pe_pending xs) = pe_pending (xs @ [x])"
  by (simp_all add: pe_pending_def sq_defs pe_tableName_def)

definition pe_insert_all :: "event_row list \<Rightarrow> tables \<Rightarrow> tables" where
  "pe_insert_all xs ts = ts(''events_store'' :=
     fold (insert_row None) (map (\<lambda>x. row_of pe_columns (event_row_values x)) xs) (ts ''events_store''))"

lemma pe_insert_all_simps:
  "exec_stmt coll (Insert (pe_pending xs)) ts = pe_insert_all xs ts"
  "pe_insert_all ys (pe_insert_all xs ts) = pe_insert_all (xs @ ys) ts" "pe_insert_all [] ts = ts"
  by (simp_all add: pe_pending_def pe_insert_all_def comp_def)

text \<open>
  A run of the loop that ends well has put every row into the transaction, whatever the batch
  size; a run that fails has left the database alone. If no payload fails to be marshalled
  and every insert of at least one row can be built, a failed run has ended the transaction.
\<close>

definition pe_loop_post ::
  "('q, 'cfg, 'pool, 'tx, 'w) pgenv \<Rightarrow> ('t, 'm) protolib \<Rightarrow> 'tx \<Rightarrow> event_row list \<Rightarrow> event option list \<Rightarrow> 'w \<Rightarrow>
   unit res \<Rightarrow> 'w \<Rightarrow> bool" where
  "pe_loop_post env L tx xs es w r w' \<longleftrightarrow>
     gh_valid (snd env) w' \<and> gh_tables (snd env) w' = gh_tables (snd env) w \<and> r \<noteq> Panic \<and>
     (r = Ok () \<longrightarrow> (\<forall>e \<in> set es. marshals L (ev_Event (or_zero zero_event e))) \<and>
        gh_open (snd env) w' = gh_open (snd env) w \<and> gh_live (snd env) w' tx \<and>
        gh_staged (snd env) w' tx =
          pe_insert_all (xs @ map (\<lambda>e. row_of_event L (or_zero zero_event e)) es) (gh_staged (snd env) w tx)) \<and>
     (r \<noteq> Ok () \<and> (\<forall>e \<in> set es. marshals L (ev_Event (or_zero zero_event e))) \<and>
        (\<forall>ys. ys \<noteq> [] \<longrightarrow> is_ok (to_sql (fst env) (Insert (pe_pending ys)))) \<longrightarrow>
        gh_open (snd env) w' = gh_open (snd env) w - 1)"

text \<open>One step of the loop on an event whose payload can be marshalled.\<close>

lemma pe_write_loop_step:
  assumes "marshals L (ev_Event (or_zero zero_event event))"
    and "st = pe_pending (xs @ [row_of_event L (or_zero zero_event event)])"
  shows "pe_write_loop L D tx batch n (event # es) index (pe_pending xs) w =
    (if (index + 1) mod batch = 0 \<or> index = n - 1
     then case to_sql D (Insert st) of
            Err err \<Rightarrow> (Err (ErrWrap ''unable to build sql insert statement'' err), w)
          | Panic \<Rightarrow> (Panic, w)
          | Ok query \<Rightarrow>
              (case tx_exec D tx query w of
                 (Err execErr, w1) \<Rightarrow>
                   (case tx_rollback D tx w1 of
                      (Err err, w2) \<Rightarrow> (Err (ErrWrap ''unable to rollback db transaction'' err), w2)
                    | (Panic, w2) \<Rightarrow> (Panic, w2)
                    | (Ok _, w2) \<Rightarrow> (Err (ErrWrap ''failed to record events'' execErr), w2))
               | (Panic, w1) \<Rightarrow> (Panic, w1)
               | (Ok _, w1) \<Rightarrow> pe_write_loop L D tx batch n es (index + 1) (pe_pending []) w1)
     else pe_write_loop L D tx batch n es (index + 1) st w)"
proof -
  have "marshal L (ev_Event (or_zero zero_event event)) = (marshal_bytes L (ev_Event (or_zero zero_event event)), None)"
    using assms(1) by (metis marshal_bytes_def marshals_def prod.collapse)
  then show ?thesis unfolding pe_pending_simps(1) [symmetric]
    by (simp add: Let_def pe_event_values_row pe_pending_simps(2) assms(2))
qed

text \<open>A batch is executed, and either the loop goes on or the transaction has ended.\<close>

lemma pe_flush_post:
  assumes "pgenv_ok env" "gh_valid (snd env) w" "to_sql (fst env) (Insert (pe_pending xs)) = Ok q"
    and "gh_live (snd env) w tx"
    and "(case tx_exec (fst env) tx q w of
         (Err execErr, w1) \<Rightarrow>
           (case tx_rollback (fst env) tx w1 of
              (Err err, w2) \<Rightarrow> (Err (ErrWrap ''unable to rollback db transaction'' err), w2)
            | (Panic, w2) \<Rightarrow> (Panic, w2)
            | (Ok _, w2) \<Rightarrow> (Err (ErrWrap ''failed to record events'' execErr), w2))
       | (Panic, w1) \<Rightarrow> (Panic, w1)
       | (Ok _, w1) \<Rightarrow> k w1) = (r, w')"
    and "\<And>w1. gh_valid (snd env) w1 \<Longrightarrow> gh_live (snd env) w1 tx \<Longrightarrow> k w1 = (r, w') \<Longrightarrow> pe_loop_post env L tx [] es w1 r w'"
  shows "pe_loop_post env L tx xs es w r w'"
proof -
  obtain r1 w1 where e: "tx_exec (fst env) tx q w = (r1, w1)" by (cases "tx_exec (fst env) tx q w")
  note ex = pe_tx_facts(2) [OF assms(1-3) e, unfolded pe_insert_all_simps]
  show ?thesis
  proof (cases r1)
    case Panic
    then show ?thesis using ex by simp
  next
    case (Err execErr)
    obtain r2 w2 where rb: "tx_rollback (fst env) tx w1 = (r2, w2)" by (cases "tx_rollback (fst env) tx w1")
    have "gh_valid (snd env) w1" "gh_live (snd env) w1 tx" using ex assms(4) by simp_all
    note rbf = pe_tx_facts(3) [OF assms(1) this rb]
    have "w' = w2 \<and> r \<noteq> Ok () \<and> r \<noteq> Panic" using assms(5) e Err rb rbf by (cases r2) auto
    then show ?thesis using ex rbf by (simp add: pe_loop_post_def)
  next
    case (Ok u)
    then have "pe_loop_post env L tx [] es w1 r w'" using assms(4-6) e ex by simp
    then show ?thesis using ex Ok by (simp add: pe_loop_post_def pe_insert_all_simps)
  qed
qed

lemma pe_write_loop_spec:
  assumes "pgenv_ok env"
    and "pe_write_loop L (fst env) tx batch (index + length es) es index (pe_pending xs) w = (r, w')"
    and "gh_valid (snd env) w" "gh_live (snd env) w tx" "es = [] \<longrightarrow> xs = []"
  shows "pe_loop_post env L tx xs es w r w'"
  using assms(2-5)
proof (induction es arbitrary: index xs w)
  case Nil
  then show ?case by (auto simp: pe_loop_post_def pe_insert_all_simps)
next
  case (Cons event es)
  let ?e = "or_zero zero_event event"
  let ?xs = "xs @ [row_of_event L ?e]"
  have n: "index + length (event # es) = (index + 1) + length es" by simp
  show ?case
  proof (cases "marshals L (ev_Event ?e)")
    case False
    then obtain bs err where "marshal L (ev_Event ?e) = (bs, Some err)"
      by (metis marshals_def not_None_eq prod.collapse)
    with Cons.prems False show ?thesis by (auto simp: Let_def pe_loop_post_def)
  next
    case ok: True
    note step = Cons.prems(1) [unfolded pe_write_loop_step [OF ok refl] n]
    have more: "pe_loop_post env L tx xs (event # es) w1 r w'" if "pe_loop_post env L tx ?xs es w1 r w'" for w1
      using that ok by (simp add: pe_loop_post_def)
    show ?thesis
    proof (cases "(index + 1) mod batch = 0 \<or> index = (index + 1) + length es - 1")
      case False
      then have "es \<noteq> []" by auto
      moreover have "pe_write_loop L (fst env) tx batch ((index + 1) + length es) es (index + 1) (pe_pending ?xs) w = (r, w')"
        using step False by simp
      ultimately show ?thesis using Cons.IH [of "index + 1" ?xs w] Cons.prems(2,3) more by blast
    next
      case flush: True
      show ?thesis
      proof (cases "to_sql (fst env) (Insert (pe_pending ?xs))")
        case (Err err)
        then have "r \<noteq> Ok () \<and> w' = w \<and> r \<noteq> Panic" using step flush by auto
        moreover have "\<not> is_ok (to_sql (fst env) (Insert (pe_pending ?xs)))" using Err by simp
        ultimately show ?thesis using Cons.prems(2) by (metis pe_loop_post_def snoc_eq_iff_butlast)
      next
        case Panic
        then show ?thesis using pg_pool_facts(6) [OF assms(1) Cons.prems(2)] by blast
      next
        case (Ok q)
        have "pe_loop_post env L tx ?xs es w r w'"
          by (rule pe_flush_post [OF assms(1) Cons.prems(2) Ok Cons.prems(3)])
            (use step flush Ok Cons.IH [of "index + 1" "[]"] in auto)
        then show ?thesis by (rule more)
      qed
    qed
  qed
qed

text \<open>
  A run over an event whose payload cannot be marshalled: it returns that error, or building or
  executing an earlier batch has already failed. Only a failed execution ends the transaction.
\<close>

lemma pe_write_loop_leak:
  assumes "pgenv_ok env" "\<forall>e \<in> set pre. marshals L (ev_Event (or_zero zero_event e))"
    and "snd (marshal L (ev_Event (or_zero zero_event bad))) = Some err" "gh_valid (snd env) w" "gh_live (snd env) w tx"
    and "pe_write_loop L (fst env) tx batch (index + length (pre @ bad # post)) (pre @ bad # post) index (pe_pending xs) w = (r, w')"
  shows "(r = Err (ErrWrap (''failed to marshal event at index '' @ fmt_nat (index + length pre)) err) \<and>
       gh_open (snd env) w' = gh_open (snd env) w) \<or>
     (batch \<le> index + length pre \<and> (\<exists>e. r = Err (ErrWrap ''unable to build sql insert statement'' e)) \<and>
       gh_open (snd env) w' = gh_open (snd env) w) \<or>
     (batch \<le> index + length pre \<and> gh_open (snd env) w' = gh_open (snd env) w - 1 \<and>
       (\<exists>e. r = Err (ErrWrap ''failed to record events'' e) \<or> r = Err (ErrWrap ''unable to rollback db transaction'' e)))"
  using assms(2,4-)
proof (induction pre arbitrary: index xs w)
  case Nil
  then show ?case using assms(3) by (auto simp: Let_def split: prod.splits)
next
  case (Cons event pre)
  let ?D = "fst env" and ?G = "snd env" and ?es = "pre @ bad # post"
  let ?xs = "xs @ [row_of_event L (or_zero zero_event event)]"
  have ok: "marshals L (ev_Event (or_zero zero_event event))" "\<forall>e \<in> set pre. marshals L (ev_Event (or_zero zero_event e))"
    using Cons.prems(1) by simp_all
  have n: "index + length ((event # pre) @ bad # post) = (index + 1) + length ?es" by simp
  note step = Cons.prems(4) [unfolded n append_Cons pe_write_loop_step [OF ok(1) refl]]
  note IH = Cons.IH [OF ok(2), of _ "index + 1"]
  show ?case
  proof (cases "(index + 1) mod batch = 0")
    case False
    then have "pe_write_loop L ?D tx batch ((index + 1) + length ?es) ?es (index + 1) (pe_pending ?xs) w = (r, w')"
      using step by simp
    from IH [OF Cons.prems(2,3) this] show ?thesis by simp
  next
    case flush: True
    then have b: "batch \<le> index + 1" using dvd_imp_le [of batch "index + 1"] by (simp add: mod_eq_0_iff_dvd)
    show ?thesis
    proof (cases "to_sql ?D (Insert (pe_pending ?xs))")
      case (Err e)
      then show ?thesis using step flush b by auto
    next
      case Panic
      then show ?thesis using pg_pool_facts(6) [OF assms(1) Cons.prems(2)] by blast
    next
      case (Ok q)
      obtain r1 w1 where e: "tx_exec ?D tx q w = (r1, w1)" by (cases "tx_exec ?D tx q w")
      note ex = pe_tx_facts(2) [OF assms(1) Cons.prems(2) Ok e]
      show ?thesis
      proof (cases r1)
        case Panic
        then show ?thesis using ex by simp
      next
        case (Err execErr)
        obtain r2 w2 where rb: "tx_rollback ?D tx w1 = (r2, w2)" by (cases "tx_rollback ?D tx w1")
        have "gh_valid ?G w1" "gh_live ?G w1 tx" using ex Cons.prems(3) by simp_all
        note rbf = pe_tx_facts(3) [OF assms(1) this rb]
        then have "w' = w2" "\<exists>e. r = Err (ErrWrap ''failed to record events'' e) \<or>
            r = Err (ErrWrap ''unable to rollback db transaction'' e)"
          using step flush Ok e Err rb by (cases r2; auto)+
        then show ?thesis using rbf ex b by simp
      next
        case (Ok u)
        then have "pe_write_loop L ?D tx batch ((index + 1) + length ?es) ?es (index + 1) (pe_pending []) w1 = (r, w')"
          "gh_valid ?G w1" "gh_live ?G w1 tx" "gh_open ?G w1 = gh_open ?G w"
          using step flush \<open>to_sql ?D _ = _\<close> e ex Cons.prems(3) by simp_all
        with IH [of w1 "[]"] show ?thesis by simp
      qed
    qed
  qed
qed

text \<open>
  The loop never builds a statement of more rows than a batch: it gives the same result with
  any builder that agrees on the statements of at most \<open>batch\<close> rows of nine values.
\<close>

definition pe_batched :: "nat \<Rightarrow> insert_stmt \<Rightarrow> bool" where
  "pe_batched batch i \<longleftrightarrow> length (ins_values i) \<le> batch \<and> (\<forall>vs \<in> set (ins_values i). length vs = length pe_columns)"

lemma pe_write_loop_batched:
  assumes "0 < batch" "\<forall>i. pe_batched batch i \<longrightarrow> f (Insert i) = to_sql D (Insert i)"
    and "n = index + length es" "length (ins_values st) = index mod batch" "pe_batched batch st"
  shows "pe_write_loop L (D\<lparr>to_sql := f\<rparr>) tx batch n es index st w = pe_write_loop L D tx batch n es index st w"
  using assms(3-)
proof (induction es arbitrary: index st w)
  case (Cons e es)
  let ?st = "\<lambda>b. sq_Values (pe_event_values L (or_zero zero_event e) b) st"
  have "index mod batch < batch" using assms(1) by simp
  then have st: "pe_batched batch (?st b)" "length (ins_values (?st b)) = Suc (index mod batch)" for b
    using Cons.prems(2,3) by (auto simp: pe_batched_def sq_Values_def pe_event_values_def pe_columns_def)
  then have sql: "f (Insert (?st b)) = to_sql D (Insert (?st b))" for b using assms(2) by blast
  have fresh: "pe_batched batch (sq_Insert pe_tableName pe_columns)"
    "length (ins_values (sq_Insert pe_tableName pe_columns)) = 0" by (simp_all add: pe_batched_def sq_Insert_def)
  note IH = Cons.IH [of "Suc index"]
  show ?case
  proof (cases "(index + 1) mod batch = 0 \<or> index = n - 1")
    case True
    then have "es = [] \<or> Suc index mod batch = 0" using Cons.prems(1) by auto
    then have "pe_write_loop L (D\<lparr>to_sql := f\<rparr>) tx batch n es (Suc index) (sq_Insert pe_tableName pe_columns) w' =
        pe_write_loop L D tx batch n es (Suc index) (sq_Insert pe_tableName pe_columns) w'" for w'
      using IH [OF _ _ fresh(1)] fresh(2) Cons.prems(1) by auto
    then show ?thesis using True by (simp add: Let_def sql split: prod.split option.split res.split)
  next
    case False
    then have "Suc index mod batch = Suc (index mod batch)" by (simp add: mod_Suc split: if_splits)
    then have "pe_write_loop L (D\<lparr>to_sql := f\<rparr>) tx batch n es (Suc index) (?st b) w' =
        pe_write_loop L D tx batch n es (Suc index) (?st b) w'" for b w'
      using IH [OF _ _ st(1)] st(2) Cons.prems(1) by simp
    then show ?thesis using False by (simp add: Let_def split: prod.split option.split)
  qed
qed simp

section \<open>The interfaces\<close>

type_synonym ('t, 'm, 'q, 'cfg, 'pool, 'tx, 'w) peenv =
  "('t, 'm) protolib \<times> ('q, 'cfg, 'pool, 'tx, 'w) pgenv"

abbreviation pe_keys :: "string list" where
  "pe_keys \<equiv> [''persistence_id'', ''sequence_number'']"

abbreviation pe_T :: "('t, 'm, 'q, 'cfg, 'pool, 'tx, 'w) peenv \<Rightarrow> ('pool, 'w) pgdb \<Rightarrow> row multiset" where
  "pe_T env p \<equiv> pg_tables (snd env) p ''events_store''"

definition pe_rely :: "('t, 'm, 'q, 'cfg, 'pool, 'tx, 'w) peenv \<Rightarrow> bool" where
  "pe_rely env \<longleftrightarrow> proto_contract (fst env) \<and> pgenv_ok (snd env) \<and>
     gh_pk (snd (snd env)) ''events_store'' = pe_keys"

definition pe_rows_ok :: "('t, 'm) protolib \<Rightarrow> row multiset \<Rightarrow> bool" where
  "pe_rows_ok L T \<longleftrightarrow> well_typed scan_event_row T \<and> (\<forall>x \<in># content scan_event_row T. is_ok (ToEvent L x))"

definition pe_inv :: "('t, 'm, 'q, 'cfg, 'pool, 'tx, 'w) peenv \<Rightarrow> ('pool, 'w) pe_store \<Rightarrow> bool" where
  "pe_inv env s \<longleftrightarrow> pg_ready (snd env) (st_pair s) \<and> pe_rows_ok (fst env) (pe_T env (st_pair s))"

definition pe_bag :: "('t, 'm) protolib \<Rightarrow> row multiset \<Rightarrow> event multiset" where
  "pe_bag L T = image_mset (\<lambda>x. the_ok (ToEvent L x)) (content scan_event_row T)"

definition pe_events :: "('t, 'm, 'q, 'cfg, 'pool, 'tx, 'w) peenv \<Rightarrow> ('pool, 'w) pe_store \<Rightarrow> event multiset" where
  "pe_events env s = pe_bag (fst env) (pe_T env (st_pair s))"

lemma pe_bag_filter:
  assumes "pe_rows_ok L T" "reflects scan_event_row C P" "\<And>x e. ToEvent L x = Ok e \<Longrightarrow> P x = Q e"
  shows "pe_rows_ok L (filter_mset C T)" and "pe_bag L (filter_mset C T) = filter_mset Q (pe_bag L T)"
proof -
  have wt: "well_typed scan_event_row T" using assms(1) by (simp add: pe_rows_ok_def)
  note cont = content_filter [OF wt assms(2)]
  then show "pe_rows_ok L (filter_mset C T)"
    using assms(1) well_typed_filter [OF wt] by (simp add: pe_rows_ok_def)
  have "P x = Q (the_ok (ToEvent L x))" if "x \<in># content scan_event_row T" for x
    using assms(1) that assms(3) by (fastforce simp: pe_rows_ok_def is_ok_iff)
  then have "filter_mset P (content scan_event_row T) =
      filter_mset (\<lambda>x. Q (the_ok (ToEvent L x))) (content scan_event_row T)"
    by (rule filter_mset_cong0)
  then show "pe_bag L (filter_mset C T) = filter_mset Q (pe_bag L T)"
    by (simp add: pe_bag_def cont filter_mset_image_mset)
qed

lemma pe_insert_all_bag:
  assumes "proto_contract L" "pe_rows_ok L (ts ''events_store'')" "\<forall>e \<in> set es. pe_storable L e"
  defines "ts' \<equiv> pe_insert_all (map (row_of_event L) es) ts"
  shows "pe_rows_ok L (ts' ''events_store'')"
    and "pe_bag L (ts' ''events_store'') = pe_bag L (ts ''events_store'') + mset (map pe_obs es)"
proof -
  let ?xs = "map (row_of_event L) es"
  have ins: "well_typed scan_event_row (ts' ''events_store'')"
    "content scan_event_row (ts' ''events_store'') = content scan_event_row (ts ''events_store'') + mset ?xs"
    using pe_table.insert_all_content [of "ts ''events_store''" ?xs] assms(2)
    by (simp_all add: ts'_def pe_insert_all_def pe_rows_ok_def)
  have dec: "ToEvent L (row_of_event L e) = Ok (pe_obs e)" if "e \<in> set es" for e
    using ToEvent_row [OF assms(1)] assms(3) that by blast
  then show "pe_rows_ok L (ts' ''events_store'')"
    using ins assms(2) by (auto simp: pe_rows_ok_def)
  have "map (\<lambda>x. the_ok (ToEvent L x)) ?xs = map pe_obs es"
    using dec by simp
  then have "image_mset (\<lambda>x. the_ok (ToEvent L x)) (mset ?xs) = mset (map pe_obs es)"
    by (metis mset_map)
  then show "pe_bag L (ts' ''events_store'') = pe_bag L (ts ''events_store'') + mset (map pe_obs es)"
    by (simp only: pe_bag_def ins(2) image_mset_union)
qed

lemma pe_begin:
  assumes "pgenv_ok env" "pg_ready env (st_pair s)" "pg_BeginTx (fst env) (st_pair s) = (r, p)"
  shows "pg_ready env p" and "pg_tables env p = pg_tables env (st_pair s)"
    and "r = Ok tx \<Longrightarrow> gh_staged (snd env) (snd p) tx = pg_tables env (st_pair s)"
    and "r = Ok tx \<Longrightarrow> gh_open (snd env) (snd p) = Suc (gh_open (snd env) (st_world s))"
    and "r = Err e \<Longrightarrow> gh_open (snd env) (snd p) = gh_open (snd env) (st_world s)"
    and "r = Ok tx \<Longrightarrow> gh_live (snd env) (snd p) tx"
proof -
  have v: "gh_valid (snd env) (st_world s)" using assms(2) by (simp add: pg_ready_def st_pair_def)
  have "pg_ready env p \<and> pg_tables env p = pg_tables env (st_pair s) \<and>
    (r = Ok tx \<longrightarrow> gh_staged (snd env) (snd p) tx = pg_tables env (st_pair s) \<and>
       gh_open (snd env) (snd p) = Suc (gh_open (snd env) (st_world s)) \<and> gh_live (snd env) (snd p) tx) \<and>
    (r = Err e \<longrightarrow> gh_open (snd env) (snd p) = gh_open (snd env) (st_world s))"
  proof (cases "pg_pool (st_db s)")
    case None
    then show ?thesis using assms(2,3) by (auto simp: pg_BeginTx_def st_pair_def)
  next
    case (Some pool)
    obtain r1 w1 where b: "pool_begin (fst env) pool (st_world s) = (r1, w1)"
      by (cases "pool_begin (fst env) pool (st_world s)")
    then have "r = r1" "p = (st_db s, w1)" using assms(3) Some by (simp_all add: pg_BeginTx_def st_pair_def)
    then show ?thesis
      using pe_tx_facts(1) [OF assms(1) v b] by (auto simp: pg_ready_def pg_tables_def st_pair_def)
  qed
  then show "pg_ready env p" and "pg_tables env p = pg_tables env (st_pair s)"
    and "r = Ok tx \<Longrightarrow> gh_staged (snd env) (snd p) tx = pg_tables env (st_pair s)"
    and "r = Ok tx \<Longrightarrow> gh_open (snd env) (snd p) = Suc (gh_open (snd env) (st_world s))"
    and "r = Err e \<Longrightarrow> gh_open (snd env) (snd p) = gh_open (snd env) (st_world s)"
    and "r = Ok tx \<Longrightarrow> gh_live (snd env) (snd p) tx"
    by blast+
qed

text \<open>
  What a call that works in a transaction leaves: the tables as before or as \<open>after\<close>, the
  latter if it ends well, and (if \<open>ends\<close>) no more open transactions than before.
\<close>

definition pe_tx_post ::
  "('q, 'cfg, 'pool, 'tx, 'w) pgenv \<Rightarrow> tables \<Rightarrow> bool \<Rightarrow> ('pool, 'w) pe_store \<Rightarrow> unit res \<Rightarrow> ('pool, 'w) pe_store \<Rightarrow> bool" where
  "pe_tx_post env after ends s r s' \<longleftrightarrow>
     pg_ready env (st_pair s') \<and> (r = Ok () \<longrightarrow> pg_tables env (st_pair s') = after) \<and>
     (pg_tables env (st_pair s') = pg_tables env (st_pair s) \<or> pg_tables env (st_pair s') = after) \<and>
     (ends \<longrightarrow> gh_open (snd env) (st_world s') = gh_open (snd env) (st_world s))"

lemma pe_tx_post_same: "pg_ready env (st_pair s) \<Longrightarrow> r \<noteq> Ok () \<Longrightarrow> pe_tx_post env after ends s r s"
  by (simp add: pe_tx_post_def)

lemma st_pair_st_put [simp]: "st_pair (st_put (db, w) s) = (db, w)" "st_world (st_put (db, w) s) = w"
  by (simp_all add: st_pair_def st_put_def)

text \<open>A transaction that cannot begin leaves everything as it was.\<close>

lemma pe_begin_fails:
  assumes "pgenv_ok env" "pg_ready env (st_pair s)" "pg_BeginTx (fst env) (st_pair s) = (r0, p)" "\<forall>tx. r0 \<noteq> Ok tx"
  shows "pe_tx_post env after ends s (if r0 = Panic then Panic else Err e) (st_put p s)"
proof (cases r0)
  case (Err e)
  then show ?thesis using pe_begin(1,2,5) [OF assms(1-3)] by (cases p) (simp add: pe_tx_post_def)
next
  case Panic
  then have "pg_pool (st_db s) = None"
    using assms(2,3) pe_tx_facts(1) [OF assms(1), of "st_world s"]
    by (auto simp: pg_BeginTx_def st_pair_def pg_ready_def split: option.splits prod.splits)
  then have "p = st_pair s" using assms(3) by (simp add: pg_BeginTx_def st_pair_def)
  then show ?thesis using assms(2) Panic by (simp add: pe_tx_post_def st_put_def st_pair_def)
qed (use assms(4) in simp)

text \<open>A commit after the statements of the transaction have been executed.\<close>

lemma pe_commit_post:
  assumes "pgenv_ok env" "gh_valid (snd env) w1" "gh_tables (snd env) w1 = pg_tables env (st_pair s)"
    and "gh_open (snd env) w1 = Suc (gh_open (snd env) (st_world s))" "gh_staged (snd env) w1 tx = after"
    and "gh_live (snd env) w1 tx" "tx_commit (fst env) tx w1 = (r2, w2)" "r = Ok () \<longleftrightarrow> r2 = Ok ()"
  shows "pe_tx_post env after ends s r (st_put (db, w2) s)"
  using pe_tx_facts(4) [OF assms(1,2,6,7)] assms(3-5,8)
  by (auto simp: pe_tx_post_def pg_ready_def pg_tables_def)

text \<open>The effect of \<open>WriteEvents\<close> on the tables and on the number of open transactions.\<close>

lemma pe_WriteEvents_post:
  assumes "pgenv_ok env" "pg_ready env (st_pair s)" "pe_WriteEvents L (fst env) es s = (r, s')"
  shows "pe_tx_post env (pe_insert_all (map (\<lambda>e. row_of_event L (or_zero zero_event e)) es) (pg_tables env (st_pair s)))
    (r = Ok () \<or> (\<forall>e \<in> set es. marshals L (ev_Event (or_zero zero_event e))) \<and>
      (\<forall>ys. ys \<noteq> [] \<longrightarrow> is_ok (to_sql (fst env) (Insert (pe_pending ys))))) s r s'" (is "pe_tx_post _ ?after _ _ _ _")
proof (cases "st_connected s \<and> es \<noteq> []")
  case False
  then show ?thesis using assms(2,3)
    by (auto simp: pe_WriteEvents_def pe_tx_post_def pe_insert_all_simps split: if_splits)
next
  case True
  obtain r0 p where b: "pg_BeginTx (fst env) (st_pair s) = (r0, p)" by (cases "pg_BeginTx (fst env) (st_pair s)")
  show ?thesis
  proof (cases "\<exists>tx. r0 = Ok tx")
    case False
    then have "s' = st_put p s" "\<exists>e. r = (if r0 = Panic then Panic else Err e)"
      using True assms(3) b by (cases r0; auto simp: pe_WriteEvents_def)+
    then show ?thesis using pe_begin_fails [OF assms(1,2) b] False by auto
  next
    case begun: True
    then obtain tx db w where tx: "r0 = Ok tx" "p = (db, w)" by (cases p) auto
    note bg = pe_begin(1,2) [OF assms(1,2) b, unfolded tx] pe_begin(3,4,6) [OF assms(1,2) b tx(1), unfolded tx snd_conv]
    obtain r1 w1 where loop: "pe_write_loop L (fst env) tx (pe_insertBatchSize s) (length es) es 0 (pe_pending []) w = (r1, w1)"
      by (cases "pe_write_loop L (fst env) tx (pe_insertBatchSize s) (length es) es 0 (pe_pending []) w")
    have "gh_valid (snd env) w" using bg(1) by (simp add: pg_ready_def)
    note spec = pe_write_loop_spec [OF assms(1) _ this bg(5), of L "pe_insertBatchSize s" 0 es "[]" r1 w1, simplified, OF loop,
        unfolded pe_loop_post_def append_Nil]
    have tabs: "gh_tables (snd env) w1 = pg_tables env (st_pair s)" using spec bg(2) by (simp add: pg_tables_def)
    show ?thesis
    proof (cases "r1 = Ok ()")
      case False
      then obtain e where "r1 = Err e" using spec by (cases r1) auto
      then have "r = Err e" "s' = st_put (db, w1) s"
        using True assms(3) b tx loop by (simp_all add: pe_WriteEvents_def pe_pending_simps)
      then show ?thesis using spec bg(4) tabs False by (simp add: pe_tx_post_def pg_ready_def pg_tables_def)
    next
      case ok: True
      obtain r2 w2 where c: "tx_commit (fst env) tx w1 = (r2, w2)" by (cases "tx_commit (fst env) tx w1")
      have v: "gh_valid (snd env) w1" "gh_live (snd env) w1 tx" using spec ok by simp_all
      have s': "s' = st_put (db, w2) s" "r = Ok () \<longleftrightarrow> r2 = Ok ()"
        using True assms(3) b tx loop ok c pe_tx_facts(4) [OF assms(1) v c]
        by (cases r2; auto simp: pe_WriteEvents_def pe_pending_simps)+
      show ?thesis unfolding s'(1)
        by (rule pe_commit_post [OF assms(1) v(1) tabs _ _ v(2) c s'(2)]) (use spec ok bg(3,4) in simp_all)
    qed
  qed
qed

lemma pe_WriteEvents_tables:
  assumes "pgenv_ok env" "pg_ready env (st_pair s)" "pe_WriteEvents L (fst env) es s = (r, s')"
  defines "after \<equiv> pe_insert_all (map (\<lambda>e. row_of_event L (or_zero zero_event e)) es) (pg_tables env (st_pair s))"
  shows "pg_ready env (st_pair s')"
    and "r = Ok () \<Longrightarrow> pg_tables env (st_pair s') = after"
    and "pg_tables env (st_pair s') = pg_tables env (st_pair s) \<or> pg_tables env (st_pair s') = after"
    and "r = Ok () \<or> (\<forall>e \<in> set es. marshals L (ev_Event (or_zero zero_event e))) \<and>
        (\<forall>ys. ys \<noteq> [] \<longrightarrow> is_ok (to_sql (fst env) (Insert (pe_pending ys)))) \<Longrightarrow>
      gh_open (snd env) (st_world s') = gh_open (snd env) (st_world s)"
  using pe_WriteEvents_post [OF assms(1-3), folded after_def] unfolding pe_tx_post_def by blast+

lemma pe_WriteEvents_all:
  assumes "pe_rely env" "pe_inv env s" "\<forall>e \<in> set es. pe_storable (fst env) e"
    and "pe_WriteEvents (fst env) (fst (snd env)) (map Some es) s = (r, s')"
  shows "pe_inv env s'" and "r = Ok () \<Longrightarrow> pe_events env s' = pe_events env s + mset (map pe_obs es)"
    and "pe_events env s' = pe_events env s \<or> pe_events env s' = pe_events env s + mset (map pe_obs es)"
proof -
  have rely: "proto_contract (fst env)" "pgenv_ok (snd env)" using assms(1) by (simp_all add: pe_rely_def)
  have inv: "pg_ready (snd env) (st_pair s)" "pe_rows_ok (fst env) (pe_T env (st_pair s))"
    using assms(2) by (simp_all add: pe_inv_def)
  have rows: "map (\<lambda>e. row_of_event (fst env) (or_zero zero_event e)) (map Some es) = map (row_of_event (fst env)) es"
    by simp
  note w = pe_WriteEvents_tables [OF rely(2) inv(1) assms(4), unfolded rows]
  note ins = pe_insert_all_bag [of _ "pg_tables (snd env) (st_pair s)", OF rely(1) inv(2) assms(3)]
  show "pe_inv env s'" using w(1,3) inv(2) ins(1) by (auto simp: pe_inv_def)
  show "r = Ok () \<Longrightarrow> pe_events env s' = pe_events env s + mset (map pe_obs es)"
    using w(2) ins(2) by (simp add: pe_events_def)
  show "pe_events env s' = pe_events env s \<or> pe_events env s' = pe_events env s + mset (map pe_obs es)"
    using w(3) ins(2) by (auto simp: pe_events_def)
qed

lemma pe_DeleteEvents_post:
  assumes "pgenv_ok env" "pg_ready env (st_pair s)" "pe_DeleteEvents (fst env) p n s = (r, s')"
  shows "pe_tx_post env (exec_stmt (gh_coll (snd env)) (Delete (pe_delete p n)) (pg_tables env (st_pair s)))
    (r \<noteq> Panic) s r s'"
proof (cases "st_connected s \<and> is_ok (to_sql (fst env) (Delete (pe_delete p n)))")
  case False
  then show ?thesis using assms(2,3)
    by (cases "to_sql (fst env) (Delete (pe_delete p n))")
      (auto simp: pe_DeleteEvents_def pe_tx_post_same split: if_splits)
next
  case True
  then obtain q where q: "to_sql (fst env) (Delete (pe_delete p n)) = Ok q" and conn: "st_connected s" by (auto simp: is_ok_iff)
  obtain r0 u where b: "pg_BeginTx (fst env) (st_pair s) = (r0, u)" by (cases "pg_BeginTx (fst env) (st_pair s)")
  show ?thesis
  proof (cases "\<exists>tx. r0 = Ok tx")
    case False
    then have "s' = st_put u s" "\<exists>e. r = (if r0 = Panic then Panic else Err e)"
      using conn q assms(3) b by (cases r0; auto simp: pe_DeleteEvents_def)+
    then show ?thesis using pe_begin_fails [OF assms(1,2) b] False by auto
  next
    case begun: True
    then obtain tx db w where tx: "r0 = Ok tx" "u = (db, w)" by (cases u) auto
    note bg = pe_begin(1,2) [OF assms(1,2) b, unfolded tx] pe_begin(3,4,6) [OF assms(1,2) b tx(1), unfolded tx snd_conv]
    have v: "gh_valid (snd env) w" using bg(1) by (simp add: pg_ready_def)
    obtain r1 w1 where e: "tx_exec (fst env) tx q w = (r1, w1)" by (cases "tx_exec (fst env) tx q w")
    note ex = pe_tx_facts(2) [OF assms(1) v q e]
    then have v1: "gh_valid (snd env) w1" "gh_live (snd env) w1 tx" and tabs: "gh_tables (snd env) w1 = pg_tables env (st_pair s)"
      using bg(2,5) by (simp_all add: pg_tables_def)
    show ?thesis
    proof (cases "r1 = Ok ()")
      case True
      obtain r2 w2 where c: "tx_commit (fst env) tx w1 = (r2, w2)" by (cases "tx_commit (fst env) tx w1")
      have s': "s' = st_put (db, w2) s" "r = Ok () \<longleftrightarrow> r2 = Ok ()"
        using conn q assms(3) b tx e True c pe_tx_facts(4) [OF assms(1) v1 c]
        by (cases r2; auto simp: pe_DeleteEvents_def)+
      show ?thesis unfolding s'(1)
        by (rule pe_commit_post [OF assms(1) v1(1) tabs _ _ v1(2) c s'(2)]) (use ex True bg(3,4) in \<open>simp_all del: exec_stmt.simps\<close>)
    next
      case False
      obtain r3 w3 where rb: "tx_rollback (fst env) tx w1 = (r3, w3)" by (cases "tx_rollback (fst env) tx w1")
      have "s' = st_put (db, w3) s" "r \<noteq> Ok ()"
        using conn q assms(3) b tx e False ex rb by (cases r1; cases r3; auto simp: pe_DeleteEvents_def)+
      then show ?thesis using pe_tx_facts(3) [OF assms(1) v1 rb] ex tabs bg(4)
        by (simp add: pe_tx_post_def pg_ready_def pg_tables_def)
    qed
  qed
qed

lemma pe_DeleteEvents_tables:
  assumes "pgenv_ok env" "pg_ready env (st_pair s)" "pe_DeleteEvents (fst env) p n s = (r, s')"
  defines "after \<equiv> exec_stmt (gh_coll (snd env)) (Delete (pe_delete p n)) (pg_tables env (st_pair s))"
  shows "pg_ready env (st_pair s')"
    and "r = Ok () \<Longrightarrow> pg_tables env (st_pair s') = after"
    and "pg_tables env (st_pair s') = pg_tables env (st_pair s) \<or> pg_tables env (st_pair s') = after"
    and "r \<noteq> Panic \<Longrightarrow> gh_open (snd env) (st_world s') = gh_open (snd env) (st_world s)"
  using pe_DeleteEvents_post [OF assms(1-3), folded after_def] unfolding pe_tx_post_def by blast+

lemma pe_delete_fields:
  "del_from (pe_delete p n) = ''events_store''"
  "reflects scan_event_row (\<lambda>r. \<not> matches coll (del_where (pe_delete p n)) r)
     (\<lambda>x. \<not> (ew_PersistenceID x = p \<and> ew_SequenceNumber x \<le> n))"
  by (auto simp: pe_delete_def sq_defs pe_tableName_def matches_def reflects_def scan_event_row_def
      bind_res_Ok_iff dest!: scan_Ok)

lemma pe_DeleteEvents_all:
  assumes "pe_rely env" "pe_inv env s" "pe_DeleteEvents (fst (snd env)) p n s = (r, s')"
  defines "after \<equiv> filter_mset (\<lambda>e. \<not> upto_seq p n e) (pe_events env s)"
  shows "pe_inv env s'" and "r = Ok () \<Longrightarrow> pe_events env s' = after"
    and "pe_events env s' = pe_events env s \<or> pe_events env s' = after"
proof -
  have rely: "pgenv_ok (snd env)" using assms(1) by (simp add: pe_rely_def)
  have inv: "pg_ready (snd env) (st_pair s)" "pe_rows_ok (fst env) (pe_T env (st_pair s))"
    using assms(2) by (simp_all add: pe_inv_def)
  note d = pe_DeleteEvents_tables [OF rely inv(1) assms(3)]
  have at: "exec_stmt (gh_coll (snd (snd env))) (Delete (pe_delete p n)) (pg_tables (snd env) (st_pair s)) ''events_store'' =
      filter_mset (\<lambda>r. \<not> matches (gh_coll (snd (snd env))) (del_where (pe_delete p n)) r) (pe_T env (st_pair s))"
    unfolding exec_stmt.simps pe_delete_fields(1) by (simp only: fun_upd_same)
  have key: "ToEvent (fst env) x = Ok e \<Longrightarrow>
      (\<not> (ew_PersistenceID x = p \<and> ew_SequenceNumber x \<le> n)) = (\<not> upto_seq p n e)" for x e
    using ToEvent_fields by (auto simp: upto_seq_def)
  note bag = pe_bag_filter [OF inv(2) pe_delete_fields(2) [where coll = "gh_coll (snd (snd env))"],
      where Q = "\<lambda>e. \<not> upto_seq p n e", OF key, folded at]
  show "pe_inv env s'" using d(1,3) inv(2) bag(1) by (auto simp: pe_inv_def simp del: exec_stmt.simps)
  show "r = Ok () \<Longrightarrow> pe_events env s' = after"
    using d(2) bag(2) by (simp add: pe_events_def after_def del: exec_stmt.simps)
  show "pe_events env s' = pe_events env s \<or> pe_events env s' = after"
    using d(3) bag(2) by (auto simp: pe_events_def after_def simp del: exec_stmt.simps)
qed

text \<open>A query over all columns, decoded: the events in the order of the query, cut at the limit.\<close>

text \<open>Decoding a sorted selection of structs: the events are selected and sorted alike.\<close>

lemma pe_decoded:
  assumes "\<forall>x \<in># A. is_ok (ToEvent L x)" "mset ys = filter_mset P A" "sorted_wrt S ys"
    and "\<And>x e. ToEvent L x = Ok e \<Longrightarrow> P x = Q e"
    and "\<And>x y e f. ToEvent L x = Ok e \<Longrightarrow> ToEvent L y = Ok f \<Longrightarrow> S x y = R e f"
  shows "\<exists>es. mset es = filter_mset Q (image_mset (\<lambda>x. the_ok (ToEvent L x)) A) \<and> sorted_wrt R es \<and>
    ToEvents L (limited l ys) [] = Ok (limited l es)"
proof -
  let ?es = "map (\<lambda>x. the_ok (ToEvent L x)) ys"
  have "set ys \<subseteq> set_mset A" using arg_cong [OF assms(2), of set_mset] by auto
  then have okys: "\<forall>x \<in> set ys. is_ok (ToEvent L x)" using assms(1) by blast
  have "filter_mset P A = filter_mset (\<lambda>x. Q (the_ok (ToEvent L x))) A"
    using assms(1,4) by (intro filter_mset_cong0) (fastforce simp: is_ok_iff)
  then have "mset ?es = filter_mset Q (image_mset (\<lambda>x. the_ok (ToEvent L x)) A)"
    by (simp add: assms(2) filter_mset_image_mset)
  moreover have "R (the_ok (ToEvent L x)) (the_ok (ToEvent L y))" if h: "x \<in> set ys" "y \<in> set ys" "S x y" for x y
  proof -
    obtain e f where "ToEvent L x = Ok e" "ToEvent L y = Ok f" using okys h(1,2) by (metis is_ok_iff)
    then show ?thesis using assms(5) h(3) by simp
  qed
  then have "sorted_wrt R ?es"
    unfolding sorted_wrt_map by (rule sorted_wrt_mono_rel [OF _ assms(3)])
  moreover have "\<forall>x \<in> set (limited l ys). is_ok (ToEvent L x)"
    using okys by (auto simp: limited_def split: option.splits dest: in_set_takeD)
  then have "ToEvents L (limited l ys) [] = Ok (limited l ?es)"
    by (simp add: ToEvents_ok limited_def take_map split: option.split)
  ultimately show ?thesis by blast
qed

lemma pe_query:
  assumes "pe_rely env" "pe_inv env s" "to_sql (fst (snd env)) (Select q) = Ok qq"
    and "bind_res (pg_SelectAll (fst (snd env)) qq (st_pair s)) (scan_rows scan_event_row) = Ok rows"
    and "sel_from q = ''events_store''" "sel_columns q = pe_columns" "\<not> sel_distinct q"
    and "reflects scan_event_row (matches (gh_coll (snd (snd env))) (sel_where q)) P"
    and "\<And>x e. ToEvent (fst env) x = Ok e \<Longrightarrow> P x = Q e"
    and "sel_order q = Some (c, True)" "c \<in> set pe_columns"
    and "\<And>x y e f. ToEvent (fst env) x = Ok e \<Longrightarrow> ToEvent (fst env) y = Ok f \<Longrightarrow>
      sql_le (gh_coll (snd (snd env))) (row_of pe_columns (event_row_values x) c) (row_of pe_columns (event_row_values y) c)
        = R e f"
  shows "\<exists>es. mset es = filter_mset Q (pe_events env s) \<and> sorted_wrt R es \<and>
    ToEvents (fst env) rows [] = Ok (limited (sel_limit q) es)"
proof -
  let ?L = "fst env" and ?T = "pe_T env (st_pair s)" and ?coll = "gh_coll (snd (snd env))"
  let ?v = "\<lambda>x. row_of pe_columns (event_row_values x) c"
  have ok: "pgenv_ok (snd env)" "pg_ready (snd env) (st_pair s)" "pe_rows_ok ?L ?T"
    using assms(1,2) by (simp_all add: pe_rely_def pe_inv_def)
  have wt: "well_typed scan_event_row ?T" and dec: "\<forall>x \<in># content scan_event_row ?T. is_ok (ToEvent ?L x)"
    using ok(3) by (simp_all add: pe_rows_ok_def)
  obtain rs where rs: "pg_SelectAll (fst (snd env)) qq (st_pair s) = Ok rs" "scan_rows scan_event_row rs = Ok rows"
    using assms(4) by (auto simp: bind_res_Ok_iff)
  have "pg_renders (snd env) (Select q) qq" using assms(3) by (simp add: pg_renders_def)
  from pgdb.select_all_ok [OF ok(1,2) this rs(1)] have "sel_result ?coll q ?T rs" by (simp add: assms(5))
  from pe_table.select_content [OF this assms(6,7) wt assms(8)] obtain ys
    where ys: "mset ys = filter_mset P (content scan_event_row ?T)" and rows: "rows = limited (sel_limit q) ys"
      and sorted: "sorted_wrt (\<lambda>x y. sql_le ?coll (?v x) (?v y)) ys"
    using rs(2) assms(10,11) by auto
  show ?thesis unfolding pe_events_def pe_bag_def rows
    by (rule pe_decoded [OF dec ys sorted assms(9) assms(12)])
qed

lemma pe_select_fields:
  "sel_from (pe_replay_select p lo hi l) = ''events_store''" "sel_columns (pe_replay_select p lo hi l) = pe_columns"
  "\<not> sel_distinct (pe_replay_select p lo hi l)" "sel_limit (pe_replay_select p lo hi l) = Some l"
  "sel_order (pe_replay_select p lo hi l) = Some (''sequence_number'', True)"
  "sel_from (pe_shard_select n off l) = ''events_store''" "sel_columns (pe_shard_select n off l) = pe_columns"
  "\<not> sel_distinct (pe_shard_select n off l)" "sel_limit (pe_shard_select n off l) = Some l"
  "sel_order (pe_shard_select n off l) = Some (''timestamp'', True)"
  "sel_from (pe_latest_select p) = ''events_store''" "sel_columns (pe_latest_select p) = pe_columns"
  "\<not> sel_distinct (pe_latest_select p)" "sel_limit (pe_latest_select p) = Some 1"
  "sel_order (pe_latest_select p) = Some (''sequence_number'', False)"
  by (simp_all add: pe_replay_select_def pe_shard_select_def pe_latest_select_def sq_defs pe_tableName_def)

lemma sint_word_inj: "sint a = sint b \<longleftrightarrow> a = (b :: i64)"
  by (auto intro: signed_word_eqI)

lemma bind_u64_not_null: "bind_u64 n \<noteq> SNull"
  by (simp add: bind_u64_def)

lemma pe_select_reflects:
  "reflects scan_event_row (matches coll (sel_where (pe_replay_select p lo hi l)))
     (\<lambda>x. ew_PersistenceID x = p \<and> lo \<le> ew_SequenceNumber x \<and> ew_SequenceNumber x \<le> hi)"
  "reflects scan_event_row (matches coll (sel_where (pe_shard_select n off l)))
     (\<lambda>x. ew_ShardNumber x = n \<and> sint off < sint (ew_Timestamp x))"
  "reflects scan_event_row (matches coll (sel_where (pe_latest_select p))) (\<lambda>x. ew_PersistenceID x = p)"
  by (auto simp: pe_replay_select_def pe_shard_select_def pe_latest_select_def sq_defs matches_def reflects_def
      scan_event_row_def bind_res_Ok_iff less_le sint_word_inj bind_u64_not_null dest!: scan_Ok)

lemma pe_order_columns: "''sequence_number'' \<in> set pe_columns" "''timestamp'' \<in> set pe_columns"
  by (simp_all add: pe_columns_def)

lemma pe_order_values:
  "row_of pe_columns (event_row_values x) ''sequence_number'' = bind_u64 (ew_SequenceNumber x)"
  "row_of pe_columns (event_row_values x) ''timestamp'' = bind_i64 (ew_Timestamp x)"
  by (simp_all add: row_of_def pe_columns_def event_row_values_def)

lemma pe_replay:
  assumes "pe_rely env" "pe_inv env s" "pe_ReplayEvents (fst env) (fst (snd env)) p lo hi l s = Ok xs"
  shows "\<exists>es. mset es = filter_mset (in_range p lo hi) (pe_events env s) \<and>
    sorted (map ev_SequenceNumber es) \<and> xs = take (unat l) es"
proof -
  let ?D = "fst (snd env)" and ?q = "pe_replay_select p lo hi l"
  have conn: "st_connected s" using assms(3) by (auto simp: pe_ReplayEvents_def split: if_splits)
  obtain qq where qq: "to_sql ?D (Select ?q) = Ok qq"
    using assms(3) conn by (cases "to_sql ?D (Select ?q)") (auto simp: pe_ReplayEvents_def)
  obtain rows where rows: "bind_res (pg_SelectAll ?D qq (st_pair s)) (scan_rows scan_event_row) = Ok rows"
    using assms(3) conn qq
    by (cases "bind_res (pg_SelectAll ?D qq (st_pair s)) (scan_rows scan_event_row)") (auto simp: pe_ReplayEvents_def)
  then have xs: "ToEvents (fst env) rows [] = Ok xs" using assms(3) conn qq by (simp add: pe_ReplayEvents_def)
  have "\<exists>es. mset es = filter_mset (in_range p lo hi) (pe_events env s) \<and>
      sorted_wrt (\<lambda>e f. ev_SequenceNumber e \<le> ev_SequenceNumber f) es \<and>
      ToEvents (fst env) rows [] = Ok (limited (sel_limit ?q) es)"
    by (rule pe_query [OF assms(1,2) qq rows pe_select_fields(1,2,3) pe_select_reflects(1) _ pe_select_fields(5)])
      (auto simp: in_range_def pe_order_values pe_order_columns dest!: ToEvent_fields)
  then show ?thesis using xs by (auto simp: pe_select_fields limited_def sorted_wrt_map)
qed

lemma pe_shard:
  assumes "pe_rely env" "pe_inv env s" "pe_GetShardEvents (fst env) (fst (snd env)) n off l s = Ok (xs, nxt)"
  shows "\<exists>es. mset es = filter_mset (\<lambda>e. ev_Shard e = n \<and> sint off < sint (ev_Timestamp e)) (pe_events env s) \<and>
    sorted (map (\<lambda>e. sint (ev_Timestamp e)) es) \<and> xs = take (unat l) es \<and>
    nxt = (if xs = [] then 0 else ev_Timestamp (last xs))"
proof -
  let ?D = "fst (snd env)" and ?q = "pe_shard_select n off l"
  have conn: "st_connected s" using assms(3) by (auto simp: pe_GetShardEvents_def split: if_splits)
  obtain qq where qq: "to_sql ?D (Select ?q) = Ok qq"
    using assms(3) conn by (cases "to_sql ?D (Select ?q)") (auto simp: pe_GetShardEvents_def)
  obtain rows where rows: "bind_res (pg_SelectAll ?D qq (st_pair s)) (scan_rows scan_event_row) = Ok rows"
    using assms(3) conn qq
    by (cases "bind_res (pg_SelectAll ?D qq (st_pair s)) (scan_rows scan_event_row)") (auto simp: pe_GetShardEvents_def)
  have "\<exists>es. mset es = filter_mset (\<lambda>e. ev_Shard e = n \<and> sint off < sint (ev_Timestamp e)) (pe_events env s) \<and>
      sorted_wrt (\<lambda>e f. sint (ev_Timestamp e) \<le> sint (ev_Timestamp f)) es \<and>
      ToEvents (fst env) rows [] = Ok (limited (sel_limit ?q) es)"
    by (rule pe_query [OF assms(1,2) qq rows pe_select_fields(6,7,8) pe_select_reflects(2) _ pe_select_fields(10)])
      (auto simp: pe_order_values pe_order_columns dest!: ToEvent_fields)
  then obtain es where es: "mset es = filter_mset (\<lambda>e. ev_Shard e = n \<and> sint off < sint (ev_Timestamp e)) (pe_events env s)"
      "sorted_wrt (\<lambda>e f. sint (ev_Timestamp e) \<le> sint (ev_Timestamp f)) es"
    and dec: "ToEvents (fst env) rows [] = Ok (take (unat l) es)"
    by (auto simp: pe_select_fields limited_def)
  have "length rows = length (take (unat l) es)" using ToEvents_length [OF dec] by simp
  then have "xs = take (unat l) es \<and> nxt = (if xs = [] then 0 else ev_Timestamp (last xs))"
    using assms(3) conn qq rows dec by (auto simp: pe_GetShardEvents_def split: if_splits)
  then show ?thesis using es by (auto simp: sorted_wrt_map)
qed

lemma pe_latest:
  assumes "pe_rely env" "pe_inv env s" "p \<noteq> []" "pe_GetLatestEvent (fst env) (fst (snd env)) p s = Ok y"
  shows "case y of
      None \<Rightarrow> \<forall>e \<in># pe_events env s. ev_PersistenceId e \<noteq> p
    | Some e \<Rightarrow> e \<in># pe_events env s \<and> ev_PersistenceId e = p \<and>
        (\<forall>e' \<in># pe_events env s. ev_PersistenceId e' = p \<longrightarrow> ev_SequenceNumber e' \<le> ev_SequenceNumber e)"
proof -
  let ?D = "fst (snd env)" and ?T = "pe_T env (st_pair s)" and ?L = "fst env" and ?q = "pe_latest_select p"
  have conn: "st_connected s" using assms(4) by (auto simp: pe_GetLatestEvent_def split: if_splits)
  have ok: "pgenv_ok (snd env)" "pg_ready (snd env) (st_pair s)" "pe_rows_ok ?L ?T"
    using assms(1,2) by (simp_all add: pe_rely_def pe_inv_def)
  have wt: "well_typed scan_event_row ?T" and dec: "\<And>x. x \<in># content scan_event_row ?T \<Longrightarrow> is_ok (ToEvent ?L x)"
    using ok(3) by (simp_all add: pe_rows_ok_def)
  have field: "ev_PersistenceId (the_ok (ToEvent ?L x)) = ew_PersistenceID x"
    "ev_SequenceNumber (the_ok (ToEvent ?L x)) = ew_SequenceNumber x" if x: "x \<in># content scan_event_row ?T" for x
    using dec [OF x] ToEvent_fields by (fastforce simp: is_ok_iff)+
  obtain q where q: "to_sql ?D (Select ?q) = Ok q"
    using assms(4) conn by (cases "to_sql ?D (Select ?q)") (auto simp: pe_GetLatestEvent_def)
  obtain z where z: "pg_Select ?D q (st_pair s) = Ok z"
    using assms(4) conn q by (cases "pg_Select ?D q (st_pair s)") (auto simp: pe_GetLatestEvent_def)
  have "pg_renders (snd env) (Select ?q) q" using q by (simp add: pg_renders_def)
  from pgdb.select_ok [OF ok(1,2) this z] have "sel_result (gh_coll (snd (snd env))) ?q ?T
      (case z of None \<Rightarrow> [] | Some r \<Rightarrow> [r])" by (simp add: pe_select_fields)
  from pe_table.select_top [OF this pe_select_fields(12,13) wt pe_select_reflects(3) pe_select_fields(14,15),
      of ew_SequenceNumber]
  have top: "case z of
      None \<Rightarrow> \<forall>x \<in># content scan_event_row ?T. ew_PersistenceID x \<noteq> p
    | Some r \<Rightarrow> \<exists>x. scan_event_row r = Ok x \<and> x \<in># content scan_event_row ?T \<and> ew_PersistenceID x = p \<and>
        (\<forall>y \<in># content scan_event_row ?T. ew_PersistenceID y = p \<longrightarrow> ew_SequenceNumber y \<le> ew_SequenceNumber x)"
    by (simp add: pe_order_values pe_order_columns)
  show ?thesis
  proof (cases z)
    case None
    then have "y = None" using assms(4) conn q z by (simp add: pe_GetLatestEvent_def zero_event_row_def)
    then show ?thesis using top None field by (auto simp: pe_events_def pe_bag_def)
  next
    case (Some r)
    then obtain x where x: "scan_event_row r = Ok x" "x \<in># content scan_event_row ?T" "ew_PersistenceID x = p"
      and max: "\<forall>y \<in># content scan_event_row ?T. ew_PersistenceID y = p \<longrightarrow> ew_SequenceNumber y \<le> ew_SequenceNumber x"
      using top by auto
    obtain d where d: "ToEvent ?L x = Ok d" using dec [OF x(2)] by (auto simp: is_ok_iff)
    then have y: "y = Some (the_ok (ToEvent ?L x))"
      using assms(3,4) conn q z Some x(1,3) by (simp add: pe_GetLatestEvent_def)
    show ?thesis using x max field by (auto simp: y pe_events_def pe_bag_def)
  qed
qed

lemma pe_seq_unique:
  assumes "pe_rely env" "pe_inv env s" "e \<in># pe_events env s" "e' \<in># pe_events env s"
    and "ev_PersistenceId e = ev_PersistenceId e'" "ev_SequenceNumber e = ev_SequenceNumber e'"
  shows "e = e'"
proof -
  let ?T = "pe_T env (st_pair s)" and ?L = "fst env"
  have ok: "pgenv_ok (snd env)" "pg_ready (snd env) (st_pair s)" "pe_rows_ok ?L ?T"
    using assms(1,2) by (simp_all add: pe_rely_def pe_inv_def)
  have wt: "well_typed scan_event_row ?T" and dec: "\<And>x. x \<in># content scan_event_row ?T \<Longrightarrow> is_ok (ToEvent ?L x)"
    using ok(3) by (simp_all add: pe_rows_ok_def)
  have keyed: "keyed pe_keys ?T"
    using pgdb.pk_keyed [of "snd env" "st_pair s" "''events_store''"] ok(1,2) assms(1) by (simp add: pe_rely_def)
  obtain x where x: "x \<in># content scan_event_row ?T" "e = the_ok (ToEvent ?L x)"
    using assms(3) by (auto simp: pe_events_def pe_bag_def)
  obtain y where y: "y \<in># content scan_event_row ?T" "e' = the_ok (ToEvent ?L y)"
    using assms(4) by (auto simp: pe_events_def pe_bag_def)
  obtain dx dy where d: "ToEvent ?L x = Ok dx" "ToEvent ?L y = Ok dy"
    using dec [OF x(1)] dec [OF y(1)] by (metis is_ok_iff)
  have keys: "ew_PersistenceID y = ew_PersistenceID x" "ew_SequenceNumber y = ew_SequenceNumber x"
    using ToEvent_fields [OF d(1)] ToEvent_fields [OF d(2)] assms(5,6) x(2) y(2) d by simp_all
  let ?v = "[SText (ew_PersistenceID x), bind_u64 (ew_SequenceNumber x)]"
  have key: "map (row_of pe_columns (event_row_values z)) pe_keys = [SText (ew_PersistenceID z), bind_u64 (ew_SequenceNumber z)]" for z
    by (simp add: row_of_def pe_columns_def event_row_values_def)
  have sub: "set pe_keys \<subseteq> set pe_columns" by (simp add: pe_columns_def)
  have "lookup scan_event_row pe_keys ?T ?v = Some x" "lookup scan_event_row pe_keys ?T ?v = Some y"
    unfolding pe_table.lookup_iff [OF keyed wt sub] key using x(1) y(1) keys by simp_all
  then show ?thesis using x(2) y(2) by simp
qed

interpretation pe: latest_event_store pe_rely pe_inv "\<lambda>env. pe_storable (fst env)" "\<lambda>_. True" pe_obs pe_events
  "\<lambda>env. pe_WriteEvents (fst env) (fst (snd env))" "\<lambda>env. pe_DeleteEvents (fst (snd env))"
  "\<lambda>env. pe_ReplayEvents (fst env) (fst (snd env))" "\<lambda>env. pe_GetLatestEvent (fst env) (fst (snd env))"
proof unfold_locales
  fix env :: "('t, 'm, 'q, 'cfg, 'pool, 'tx, 'w) peenv" and s :: "('pool, 'w) pe_store" and p lo hi l xs
  assume "pe_rely env" "pe_inv env s" "pe_ReplayEvents (fst env) (fst (snd env)) p lo hi l s = Ok xs"
    and "size (filter_mset (in_range p lo hi) (pe_events env s)) \<le> unat l"
  then show "mset xs = filter_mset (in_range p lo hi) (pe_events env s) \<and> sorted (map ev_SequenceNumber xs)"
    using pe_replay [of env s p lo hi l xs] by (metis size_mset take_all)
qed (((erule (3) pe_WriteEvents_all(1)) | (erule (3) pe_WriteEvents_all(2), rule refl) |
    (erule (3) pe_WriteEvents_all(3)) | (erule (2) pe_DeleteEvents_all(1)) |
    (erule (2) pe_DeleteEvents_all(2), rule refl) | (erule (2) pe_DeleteEvents_all(3)) |
    (erule (3) pe_latest) | (erule (5) pe_seq_unique) | (simp add: pe_obs_def; fail))+)

section \<open>Distinct ids and shard numbers\<close>

text \<open>The values of a column over all decoded rows.\<close>

lemma pe_column_values:
  assumes "pe_rows_ok L T" "\<And>r x. scan_event_row r = Ok x \<Longrightarrow> C r = P (g x) \<and> r c = v (g x)"
    and "\<And>x e. ToEvent L x = Ok e \<Longrightarrow> f e = g x"
  shows "(\<lambda>r. r c) ` {r. r \<in># T \<and> C r} = v ` {y \<in> f ` set_mset (pe_bag L T). P y}"
proof -
  have at: "C r = P (f (the_ok (ToEvent L (the_ok (scan_event_row r))))) \<and>
      r c = v (f (the_ok (ToEvent L (the_ok (scan_event_row r)))))" if "r \<in># T" for r
  proof -
    obtain x where x: "scan_event_row r = Ok x" using assms(1) \<open>r \<in># T\<close>
      by (auto simp: pe_rows_ok_def well_typed_def is_ok_iff)
    then have "x \<in># content scan_event_row T" using that by (force simp: content_def)
    then obtain e where "ToEvent L x = Ok e" using assms(1) by (auto simp: pe_rows_ok_def is_ok_iff)
    then show ?thesis using assms(2) [OF x] assms(3) x by simp
  qed
  show ?thesis using at by (force simp: pe_bag_def content_def image_iff)
qed

lemma scan_rows_column:
  "scan_rows (\<lambda>r. sc (r c)) rs = Ok xs \<Longrightarrow> (\<And>v x. sc v = Ok x \<Longrightarrow> v = b x) \<Longrightarrow> map (\<lambda>r. r c) rs = map b xs"
  by (induction rs arbitrary: xs) (auto simp: bind_res_Ok_iff)

lemma pe_shards:
  assumes "pe_rely env" "pe_inv env s" "pe_ShardNumbers (fst (snd env)) s = Ok ns"
  shows "distinct ns \<and> set ns = ev_Shard ` set_mset (pe_events env s)"
proof -
  let ?D = "fst (snd env)" and ?T = "pe_T env (st_pair s)" and ?q = "sq_Distinct (sq_Select [''shard_number''] pe_tableName)"
  have conn: "st_connected s" using assms(3) by (auto simp: pe_ShardNumbers_def split: if_splits)
  have ok: "pgenv_ok (snd env)" "pg_ready (snd env) (st_pair s)" "pe_rows_ok (fst env) ?T"
    using assms(1,2) by (simp_all add: pe_rely_def pe_inv_def)
  obtain q where q: "to_sql ?D (Select ?q) = Ok q"
    using assms(3) conn by (cases "to_sql ?D (Select ?q)") (auto simp: pe_ShardNumbers_def)
  let ?run = "bind_res (pg_SelectAll ?D q (st_pair s)) (scan_rows (\<lambda>r. scan_u64 (r ''shard_number'')))"
  have "?run = Ok ns" using assms(3) conn q by (cases ?run) (auto simp: pe_ShardNumbers_def)
  then obtain rs where rs: "pg_SelectAll ?D q (st_pair s) = Ok rs"
    and ns: "scan_rows (\<lambda>r. scan_u64 (r ''shard_number'')) rs = Ok ns" by (auto simp: bind_res_Ok_iff)
  have "pg_renders (snd env) (Select ?q) q" using q by (simp add: pg_renders_def)
  from pgdb.select_all_ok [OF ok(1,2) this rs] have "sel_result (gh_coll (snd (snd env))) ?q ?T rs"
    by (simp add: sq_defs pe_tableName_def)
  from sel_result_column [OF this, of "''shard_number''"] obtain vs where vs: "distinct vs"
    "set vs = (\<lambda>r. r ''shard_number'') ` {r. r \<in># ?T \<and> True}" "map (\<lambda>r. r ''shard_number'') rs = vs"
    by (auto simp: sq_defs limited_def matches_def)
  have "vs = map bind_u64 ns" using scan_rows_column [OF ns scan_Ok(1)] vs(3) by simp
  moreover have "(\<lambda>r. r ''shard_number'') ` {r. r \<in># ?T \<and> True} =
      bind_u64 ` {y \<in> ev_Shard ` set_mset (pe_bag (fst env) ?T). True}"
    by (rule pe_column_values [OF ok(3), where g = ew_ShardNumber])
      (auto simp: scan_event_row_def bind_res_Ok_iff dest!: scan_Ok ToEvent_fields)
  ultimately have "distinct ns" "bind_u64 ` set ns = bind_u64 ` (ev_Shard ` set_mset (pe_events env s))"
    using vs(1,2) by (auto simp: distinct_map pe_events_def)
  moreover have "inj bind_u64" by (simp add: inj_def)
  ultimately show ?thesis by (simp add: inj_image_eq_iff)
qed

text \<open>
  A page of persistence ids: the first ids after the token, in the order of the collation, each
  once, and the last of them as the next token.
\<close>

lemma pe_ids_page:
  assumes "pe_rely env" "pe_inv env s" "pe_PersistenceIDs (fst (snd env)) n tok s = Ok (ids, next_token)"
  shows "\<exists>ps. distinct ps \<and> sorted_wrt (gh_coll (snd (snd env))) ps \<and>
      set ps = {p \<in> ev_PersistenceId ` set_mset (pe_events env s).
                  tok = '''' \<or> gh_coll (snd (snd env)) tok p \<and> p \<noteq> tok} \<and>
      ids = take (unat n) ps \<and> next_token = (if ids = [] then '''' else last ids)"
proof -
  let ?D = "fst (snd env)" and ?T = "pe_T env (st_pair s)" and ?q = "pe_ids_select n tok"
    and ?coll = "gh_coll (snd (snd env))" and ?c = "''persistence_id''"
  have conn: "st_connected s" using assms(3) by (auto simp: pe_PersistenceIDs_def split: if_splits)
  have ok: "pgenv_ok (snd env)" "pg_ready (snd env) (st_pair s)" "pe_rows_ok (fst env) ?T"
    using assms(1,2) by (simp_all add: pe_rely_def pe_inv_def)
  have q_fields: "sel_from ?q = ''events_store''" "sel_columns ?q = [?c]" "sel_distinct ?q"
    "sel_order ?q = Some (?c, True)" "sel_limit ?q = Some n"
    "sel_where ?q = (if tok = '''' then [] else [CondGt ?c (SText tok)])"
    by (simp_all add: pe_ids_select_def sq_defs pe_tableName_def Let_def)
  obtain q where q: "to_sql ?D (Select ?q) = Ok q"
    using assms(3) conn by (cases "to_sql ?D (Select ?q)") (auto simp: pe_PersistenceIDs_def)
  let ?run = "bind_res (pg_SelectAll ?D q (st_pair s)) (scan_rows (\<lambda>r. scan_string (r ?c)))"
  obtain rows where run: "?run = Ok rows" using assms(3) conn q by (cases ?run) (auto simp: pe_PersistenceIDs_def)
  then have ids: "ids = rows" "next_token = (if ids = [] then '''' else last ids)"
    using assms(3) conn q by (auto simp: pe_PersistenceIDs_def split: if_splits)
  from run obtain rs where rs: "pg_SelectAll ?D q (st_pair s) = Ok rs"
    and sc: "scan_rows (\<lambda>r. scan_string (r ?c)) rs = Ok ids" by (auto simp: bind_res_Ok_iff ids)
  have "pg_renders (snd env) (Select ?q) q" using q by (simp add: pg_renders_def)
  from pgdb.select_all_ok [OF ok(1,2) this rs] have "sel_result ?coll ?q ?T rs" by (simp add: q_fields)
  from sel_result_column [OF this q_fields(2,3)] obtain vs where vs: "distinct vs"
    "set vs = (\<lambda>r. r ?c) ` {r. r \<in># ?T \<and> matches ?coll (sel_where ?q) r}"
    "map (\<lambda>r. r ?c) rs = take (unat n) vs" "sorted_wrt (sql_le ?coll) vs"
    by (auto simp: q_fields(4,5) limited_def)
  let ?P = "\<lambda>p. tok = '''' \<or> ?coll tok p \<and> p \<noteq> tok"
  have set_vs: "set vs = SText ` {p \<in> ev_PersistenceId ` set_mset (pe_events env s). ?P p}"
    unfolding vs(2) pe_events_def
    by (rule pe_column_values [OF ok(3), where g = ew_PersistenceID])
      (auto simp: q_fields(6) matches_def scan_event_row_def bind_res_Ok_iff dest!: scan_Ok ToEvent_fields)
  then have "\<forall>v \<in> set vs. \<exists>p. v = SText p" by auto
  then obtain ps where ps: "vs = map SText ps" by (metis ex_map_conv)
  have "map (\<lambda>r. r ?c) rs = map SText ids" by (rule scan_rows_column [OF sc scan_Ok(3)])
  then have "map SText ids = map SText (take (unat n) ps)" by (simp add: vs(3) ps take_map)
  then have "ids = take (unat n) ps" by (simp add: inj_map_eq_map inj_def)
  moreover have "distinct ps" "sorted_wrt ?coll ps" using vs(1,4) by (simp_all add: ps distinct_map sorted_wrt_map)
  moreover have "set ps = {p \<in> ev_PersistenceId ` set_mset (pe_events env s). ?P p}"
    using set_vs unfolding ps by (simp add: inj_image_eq_iff inj_def)
  ultimately show ?thesis using ids(2) by blast
qed

end
