(* ===== verification/EventProps.thy ===== *)
theory EventProps
  imports EventsMemoryRuns EventsPgStore RefEngine
begin

text \<open>
  The properties of the two event stores. Where the memory store departs from the documented
  behaviour the property says what the code does, and its witness shows the departure on a
  concrete journal.
\<close>

section \<open>Sample values\<close>

definition ev_wit :: "string \<Rightarrow> u64 \<Rightarrow> i64 \<Rightarrow> event" where
  "ev_wit p n ts = \<lparr>ev_PersistenceId = p, ev_SequenceNumber = n, ev_IsDeleted = False,
     ev_Event = Some \<lparr>any_TypeUrl = ''t/E'', any_Value = [ucast n]\<rparr>, ev_Timestamp = ts, ev_Shard = 1,
     ev_EncryptionKeyId = '''', ev_IsEncrypted = False\<rparr>"

text \<open>UUIDs of which the first is the greatest, as random ones may be.\<close>

definition wit_uuid :: "nat \<Rightarrow> string" where
  "wit_uuid n = (if n = 0 then ''z'' else replicate n (CHR ''u''))"

type_synonym ref_mem = "journal dbstate mem_events"

definition me_wit_env :: "(unit, unit, journal dbstate, journal dbstate) meenv" where
  "me_wit_env = (ref_protolib, ref_memdb, ref_mdghost, wit_uuid)"

definition me_wit :: ref_mem where
  "me_wit = snd (me_Connect ref_memdb NewEventsStore)"

abbreviation wit_write :: "event list \<Rightarrow> ref_mem \<Rightarrow> unit res \<times> ref_mem" where
  "wit_write es \<equiv> me_WriteEvents ref_protolib ref_memdb wit_uuid (map Some es)"

definition wit_journal :: ref_mem where
  "wit_journal = snd (wit_write [ev_wit ''p'' 1 10, ev_wit ''p'' 2 20, ev_wit ''p'' 3 30] me_wit)"

lemma wit_uuid_ok: "uuid_ok wit_uuid"
proof -
  have "wit_uuid i = wit_uuid j \<Longrightarrow> i = j" for i j
  proof -
    assume eq: "wit_uuid i = wit_uuid j"
    have "hd (wit_uuid n) = CHR ''z'' \<longleftrightarrow> n = 0" for n by (simp add: wit_uuid_def)
    moreover have "n \<noteq> 0 \<Longrightarrow> length (wit_uuid n) = n" for n by (simp add: wit_uuid_def)
    ultimately show "i = j" using eq by metis
  qed
  moreover have "wit_uuid i \<noteq> []" for i by (simp add: wit_uuid_def)
  ultimately show ?thesis unfolding uuid_ok_def inj_def by blast
qed

lemma me_rely_wit: "me_rely me_wit_env"
  by (simp add: me_wit_env_def me_rely_def ref_protolib_contract ref_memdb_contract wit_uuid_ok)

lemma me_wit_inv: "me_inv me_wit_env me_wit" "me_rows me_wit_env me_wit = []" "me_connected me_wit"
proof -
  have "me_connected (NewEventsStore :: ref_mem) = False" by (simp add: NewEventsStore_def)
  then obtain s' where s': "me_Connect ref_memdb (NewEventsStore :: ref_mem) = (Ok (), s')"
    "me_ok me_wit_env s'" "me_connected s'" "me_rows me_wit_env s' = []"
    using me_Connect_spec [OF me_rely_wit me_ok_New _ me_wit_env_def] by auto
  then have "me_wit = s'" by (simp add: me_wit_def)
  then show "me_inv me_wit_env me_wit" "me_rows me_wit_env me_wit = []" "me_connected me_wit"
    using s' by (simp_all add: me_inv_def)
qed

lemma me_storable_wit: "nul_free p \<Longrightarrow> me_storable ref_protolib (ev_wit p n ts)"
  by (simp add: me_storable_def ev_wit_def)

lemma ok_pair: "fst p = Ok () \<Longrightarrow> p = (Ok (), snd p)"
  by (cases p) simp

lemma wit_write_inv:
  assumes "me_inv me_wit_env s" "\<forall>e \<in> set es. me_storable ref_protolib e"
  shows "me_inv me_wit_env (snd (wit_write es s))"
  using me.write_inv [OF me_rely_wit assms(1), of es] assms(2) by (auto simp: me_wit_env_def prod_eq_iff)

lemma wit_nul_free: "nul_free ''p''" "nul_free ''q''" "nul_free ''a''" "nul_free ''b''" "nul_free ''''"
  by (simp_all add: nul_free_def)

lemma wit_journal_inv: "me_inv me_wit_env wit_journal"
  unfolding wit_journal_def by (rule wit_write_inv) (simp_all add: me_wit_inv me_storable_wit wit_nul_free)

section \<open>The memory event store\<close>

text \<open>
  C21. A journal written to the memory store in one call, with growing sequence numbers and for
  a new persistence id, is replayed in the order of its numbers, complete and unchanged, except
  that the encryption key id and the encryption flag are lost.
\<close>

theorem memory_replay_written:
  assumes "me_rely (L, M, G, uuid)" "me_inv (L, M, G, uuid) s" "\<forall>e \<in> set es. me_storable L e" "nul_free p"
    and "me_WriteEvents L M uuid (map Some es) s = (Ok (), s')"
    and "\<forall>e \<in># me_events (L, M, G, uuid) s. ev_PersistenceId e \<noteq> p" "\<forall>e \<in> set es. in_range p lo hi e"
    and "sorted (map ev_SequenceNumber es)" "distinct (map ev_SequenceNumber es)" "length es \<le> unat limit"
    and "me_ReplayEvents L M p lo hi limit s' = Ok xs"
  shows "xs = map (\<lambda>e. e\<lparr>ev_Event := Some (or_zero zero_any (ev_Event e)), ev_EncryptionKeyId := '''', ev_IsEncrypted := False\<rparr>) es"
  using me.replay_written [of "(L, M, G, uuid)" s es p s' lo hi limit xs] assms by (simp add: me_obs_def)

theorem memory_replay_written_witness:
  "me_ReplayEvents ref_protolib ref_memdb ''p'' 1 3 3 wit_journal =
     Ok [ev_wit ''p'' 1 10, ev_wit ''p'' 2 20, ev_wit ''p'' 3 30]"
proof -
  let ?es = "[ev_wit ''p'' 1 10, ev_wit ''p'' 2 20, ev_wit ''p'' 3 30]"
  have "fst (wit_write ?es me_wit) = Ok ()" by code_simp
  then have w: "wit_write ?es me_wit = (Ok (), wit_journal)" unfolding wit_journal_def by (rule ok_pair)
  have "is_ok (me_ReplayEvents ref_protolib ref_memdb ''p'' 1 3 3 wit_journal)" by code_simp
  then obtain xs where xs: "me_ReplayEvents ref_protolib ref_memdb ''p'' 1 3 3 wit_journal = Ok xs"
    by (auto simp: is_ok_iff)
  have st: "\<forall>e \<in> set ?es. me_storable ref_protolib e" by (simp add: me_storable_wit wit_nul_free)
  have "\<forall>e \<in># me_events me_wit_env me_wit. ev_PersistenceId e \<noteq> ''p''" by (simp add: me_events_def me_wit_inv)
  moreover have "\<forall>e \<in> set ?es. in_range ''p'' 1 3 e" by (simp add: in_range_def ev_wit_def)
  ultimately show ?thesis
    using memory_replay_written [OF me_rely_wit [unfolded me_wit_env_def] me_wit_inv(1) [unfolded me_wit_env_def] st
        wit_nul_free(1) w _ _ _ _ _ xs] xs
    by (simp add: me_wit_env_def ev_wit_def)
qed

text \<open>
  C3. A write of the memory store is all or nothing: it succeeds exactly if the store is
  connected and every event has a persistence id, it then adds one record per event, and
  otherwise the database is the one before; it never panics and keeps the indexes consistent.
\<close>

theorem memory_write_atomic:
  assumes "me_rely (L, M, G, uuid)" "me_ok (L, M, G, uuid) s"
    and "\<forall>e \<in> set es. nul_free (ev_PersistenceId (or_zero zero_event e))"
    and "me_WriteEvents L M uuid es s = (r, s')"
  shows "me_ok (L, M, G, uuid) s' \<and> r \<noteq> Panic \<and>
    (r = Ok () \<longleftrightarrow> me_connected s \<and> (\<forall>e \<in> set es. ev_PersistenceId (or_zero zero_event e) \<noteq> '''')) \<and>
    (if r = Ok () then mset (me_rows (L, M, G, uuid) s') =
        mset (me_rows (L, M, G, uuid) s) + mset (written L uuid (me_drawn s) es)
     else me_db s' = me_db s)"
  using me_WriteEvents_spec [OF assms(1,2) refl assms(3,4)] by simp

theorem memory_write_atomic_witness:
  "\<exists>e. me_WriteEvents ref_protolib ref_memdb wit_uuid [Some (ev_wit ''p'' 4 40), None] wit_journal = (Err e, wit_journal\<lparr>me_drawn := 5\<rparr>)"
proof -
  let ?run = "me_WriteEvents ref_protolib ref_memdb wit_uuid [Some (ev_wit ''p'' 4 40), None] wit_journal"
  have ids: "\<forall>e \<in> set [Some (ev_wit ''p'' 4 40), None]. nul_free (ev_PersistenceId (or_zero zero_event e))"
    by (simp add: ev_wit_def zero_event_def nul_free_def)
  have ok: "me_ok me_wit_env wit_journal" using wit_journal_inv by (simp add: me_inv_def)
  have run: "?run = (fst ?run, snd ?run)" by simp
  note w = memory_write_atomic [OF me_rely_wit [unfolded me_wit_env_def] ok [unfolded me_wit_env_def] ids run]
  then have "fst ?run \<noteq> Ok ()" "fst ?run \<noteq> Panic" by (auto simp: zero_event_def)
  then obtain e where e: "fst ?run = Err e" by (cases "fst ?run") auto
  have "me_db (snd ?run) = me_db wit_journal" using w e by simp
  moreover have "me_drawn (snd ?run) = 5" by code_simp
  moreover have "me_connected (snd ?run) = me_connected wit_journal"
    "me_KeepRecordsAfterDisconnect (snd ?run) = me_KeepRecordsAfterDisconnect wit_journal" by code_simp+
  ultimately have "snd ?run = wit_journal\<lparr>me_drawn := 5\<rparr>" by simp
  then show ?thesis using e by (intro exI [of _ e] prod_eqI) simp_all
qed

text \<open>
  C14. Deleting up to a sequence number removes exactly the records of that persistence id with
  at most that number, keeps the others in order, and fails only on a store not connected.
\<close>

theorem memory_delete_exact:
  assumes "me_rely (L, M, G, uuid)" "me_ok (L, M, G, uuid) s" "nul_free p"
    and "me_DeleteEvents M p k s = (r, s')"
  shows "me_ok (L, M, G, uuid) s' \<and> (r = Ok () \<longleftrightarrow> me_connected s) \<and>
    (if r = Ok () then me_rows (L, M, G, uuid) s' =
        filter (\<lambda>j. \<not> (jr_PersistenceID j = p \<and> jr_SequenceNumber j \<le> k)) (me_rows (L, M, G, uuid) s)
     else s' = s)"
  using me_DeleteEvents_spec [OF assms(1,2) refl assms(3,4)] by simp

theorem memory_delete_exact_witness:
  "map jr_SequenceNumber (me_rows me_wit_env (snd (me_DeleteEvents ref_memdb ''p'' 2 wit_journal))) = [3]"
proof -
  let ?run = "me_DeleteEvents ref_memdb ''p'' 2 wit_journal"
  have ok: "me_ok me_wit_env wit_journal" using wit_journal_inv by (simp add: me_inv_def)
  have "fst ?run = Ok ()" by code_simp
  from memory_delete_exact [OF me_rely_wit [unfolded me_wit_env_def] ok [unfolded me_wit_env_def] wit_nul_free(1) ok_pair [OF this]]
  have "me_rows me_wit_env (snd ?run) =
      filter (\<lambda>j. \<not> (jr_PersistenceID j = ''p'' \<and> jr_SequenceNumber j \<le> 2)) (me_rows me_wit_env wit_journal)"
    by (simp add: me_wit_env_def)
  moreover have "map jr_SequenceNumber (filter (\<lambda>j. \<not> (jr_PersistenceID j = ''p'' \<and> jr_SequenceNumber j \<le> 2))
      (me_rows me_wit_env wit_journal)) = [3]" by code_simp
  ultimately show ?thesis by simp
qed

text \<open>
  C30. A replay of the memory store takes the first \<open>limit + 1\<close> matching records in the order
  of their UUIDs, one more than the limit, and sorts only these by sequence number: a replay
  that is cut need not start at the first event.
\<close>

theorem memory_replay_cut:
  assumes "me_rely (L, M, G, uuid)" "me_inv (L, M, G, uuid) s" "me_connected s" "nul_free p"
    and "size (filter_mset (in_range p lo hi) (me_events (L, M, G, uuid) s)) < 2 ^ 64"
  shows "me_ReplayEvents L M p lo hi limit s =
    Ok (sort_key ev_SequenceNumber (take (Suc (unat limit))
          (filter (in_range p lo hi) (map (me_event L) (me_rows (L, M, G, uuid) s)))))"
  using me_replay_all [OF assms(1,2) refl assms(3-5)] .

theorem memory_replay_cut_witness:
  "me_ReplayEvents ref_protolib ref_memdb ''p'' 1 3 1 wit_journal = Ok [ev_wit ''p'' 2 20, ev_wit ''p'' 3 30]"
proof -
  have rows: "map (me_event ref_protolib) (me_rows me_wit_env wit_journal) =
      [ev_wit ''p'' 2 20, ev_wit ''p'' 3 30, ev_wit ''p'' 1 10]" by code_simp
  have conn: "me_connected wit_journal" by code_simp
  have "me_events me_wit_env wit_journal = mset (map (me_event ref_protolib) (me_rows me_wit_env wit_journal))"
    by (simp add: me_events_def me_wit_env_def)
  then have "size (filter_mset (in_range ''p'' 1 3) (me_events me_wit_env wit_journal)) < 2 ^ 64"
    by (simp add: rows in_range_def ev_wit_def)
  from memory_replay_cut [OF me_rely_wit [unfolded me_wit_env_def] wit_journal_inv [unfolded me_wit_env_def] conn
      wit_nul_free(1) this [unfolded me_wit_env_def], of 1] rows [unfolded me_wit_env_def]
  show ?thesis by (simp add: in_range_def ev_wit_def)
qed

lemma sorted_pkeys:
  assumes "journal_trees uuid n T"
  shows "sorted_wrt (\<lambda>a b. jr_pkey a \<le> jr_pkey b) (journal_rows T)"
proof -
  have "sorted_wrt (\<lambda>a b. fst a < fst b) (T persistenceIDIndex)"
    and key: "\<forall>e \<in> set (T persistenceIDIndex). fst e = jr_pkey (snd e)"
    using assms by (simp_all add: journal_trees_def tree_ok_def sorted_wrt_map)
  then have "sorted_wrt (\<lambda>a b. jr_pkey (snd a) \<le> jr_pkey (snd b)) (T persistenceIDIndex)"
    by (elim sorted_wrt_mono_rel [rotated]) (auto intro: order.strict_implies_order)
  then show ?thesis by (simp add: journal_rows_def sorted_wrt_map)
qed

text \<open>
  C31. The latest event of the memory store is the one with the greatest UUID of its persistence
  id, which need not be the one with the greatest sequence number.
\<close>

theorem memory_latest_by_uuid:
  assumes "me_rely (L, M, G, uuid)" "me_inv (L, M, G, uuid) s" "nul_free p"
    and "me_GetLatestEvent L M p s = Ok y"
  shows "case y of
      None \<Rightarrow> \<forall>j \<in> set (me_rows (L, M, G, uuid) s). jr_PersistenceID j \<noteq> p
    | Some e \<Rightarrow> \<exists>j \<in> set (me_rows (L, M, G, uuid) s). jr_PersistenceID j = p \<and> e = me_event L j \<and>
        (\<forall>j' \<in> set (me_rows (L, M, G, uuid) s). jr_PersistenceID j' = p \<longrightarrow> jr_pkey j' \<le> jr_pkey j)"
proof -
  let ?env = "(L, M, G, uuid)"
  let ?xs = "filter (\<lambda>j. jr_PersistenceID j = p) (me_rows ?env s)"
  have ok: "me_ok ?env s" using assms(2) by (simp add: me_inv_def)
  have conn: "me_connected s" using assms(4) by (auto simp: me_GetLatestEvent_def split: if_splits)
  from me_ok_connected [OF ok conn] obtain db where "journal_trees uuid (me_drawn s) (snd (mg_db G db) journalTableName)"
    "journal_rows (snd (mg_db G db) journalTableName) = me_rows ?env s" by metis
  then have "sorted_wrt (\<lambda>a b. jr_pkey a \<le> jr_pkey b) (me_rows ?env s)" using sorted_pkeys by metis
  then have sorted: "sorted_wrt (\<lambda>a b. jr_pkey a \<le> jr_pkey b) ?xs" by (rule sorted_wrt_filter)
  note get = me_reads(2) [OF assms(1) ok refl conn assms(3), unfolded assms(4)]
  show ?thesis
  proof (cases "?xs = []")
    case True
    then show ?thesis using get by (auto simp: filter_empty_conv)
  next
    case False
    then obtain ys j where ys: "?xs = ys @ [j]" by (metis rev_exhaust)
    then have j: "j \<in> set ?xs" "last ?xs = j" by simp_all
    then obtain evt where "toProto L (jr_EventManifest j) (jr_EventPayload j) = Ok evt"
      using assms(2) by (auto simp: me_inv_def me_decodes_def is_ok_iff)
    then have y: "y = Some (me_event L j)" using get False j by (simp add: me_event_def)
    have "jr_pkey j' \<le> jr_pkey j" if "j' \<in> set ?xs" for j'
      using that sorted unfolding ys by (auto simp: sorted_wrt_append)
    then show ?thesis using j(1) by (auto simp: y)
  qed
qed

theorem memory_latest_by_uuid_witness:
  "me_GetLatestEvent ref_protolib ref_memdb ''p'' wit_journal = Ok (Some (ev_wit ''p'' 1 10))"
proof -
  let ?P = "\<lambda>e. (\<exists>j \<in> set (me_rows me_wit_env wit_journal). jr_PersistenceID j = ''p'' \<and> e = me_event ref_protolib j \<and>
      (\<forall>j' \<in> set (me_rows me_wit_env wit_journal). jr_PersistenceID j' = ''p'' \<longrightarrow> jr_pkey j' \<le> jr_pkey j))"
  have "is_ok (me_GetLatestEvent ref_protolib ref_memdb ''p'' wit_journal)" by code_simp
  then obtain y where y: "me_GetLatestEvent ref_protolib ref_memdb ''p'' wit_journal = Ok y" by (auto simp: is_ok_iff)
  note l = memory_latest_by_uuid [OF me_rely_wit [unfolded me_wit_env_def] wit_journal_inv [unfolded me_wit_env_def] wit_nul_free(1) y,
      folded me_wit_env_def]
  have "\<not> (\<forall>j \<in> set (me_rows me_wit_env wit_journal). jr_PersistenceID j \<noteq> ''p'')" by code_simp
  then obtain e where e: "y = Some e" "?P e" using l by (cases y) auto
  have one: "filter (\<lambda>j. list_all (\<lambda>j'. jr_PersistenceID j' = ''p'' \<longrightarrow> jr_pkey j' \<le> jr_pkey j) (me_rows me_wit_env wit_journal))
      (me_rows me_wit_env wit_journal) = [journal_of ref_protolib ''z'' (Some (ev_wit ''p'' 1 10))]" by code_simp
  from e(2) obtain j where j: "j \<in> set (filter (\<lambda>j. list_all (\<lambda>j'. jr_PersistenceID j' = ''p'' \<longrightarrow> jr_pkey j' \<le> jr_pkey j)
      (me_rows me_wit_env wit_journal)) (me_rows me_wit_env wit_journal))" "e = me_event ref_protolib j"
    by (auto simp: list_all_iff)
  have "me_event ref_protolib (journal_of ref_protolib ''z'' (Some (ev_wit ''p'' 1 10))) = ev_wit ''p'' 1 10" by code_simp
  then show ?thesis using j one y e(1) by simp
qed

text \<open>
  C32. A page of shard events of the memory store holds the first \<open>limit + 1\<close> records of the
  shard beyond the offset, in the order of the index and not of time; it is then sorted by
  timestamp, and the next offset is the greatest timestamp of the page. Events that the cut
  left out may be older than that: the next page never returns them.
\<close>

theorem memory_shard_page:
  assumes "me_rely (L, M, G, uuid)" "me_inv (L, M, G, uuid) s"
    and "me_GetShardEvents L M shard off limit s = Ok (xs, next_offset)"
  defines "wanted \<equiv> filter (\<lambda>e. ev_Shard e = shard \<and> sint off < sint (ev_Timestamp e))
      (map (me_event L) (me_rows (L, M, G, uuid) s))"
  assumes "length wanted < 2 ^ 64"
  shows "mset xs = mset (take (Suc (unat limit)) wanted) \<and> sorted (map (\<lambda>e. sint (ev_Timestamp e)) xs) \<and>
    next_offset = (if xs = [] then 0 else ev_Timestamp (last xs))"
proof -
  let ?env = "(L, M, G, uuid)"
  have ok: "me_ok ?env s" and dec: "\<forall>j \<in> set (me_rows ?env s). me_decodes L j" using assms(2) by (simp_all add: me_inv_def)
  have conn: "me_connected s" using assms(3) by (auto simp: me_GetShardEvents_def split: if_splits)
  let ?js = "filter (\<lambda>j. jr_ShardNumber j = shard) (me_rows ?env s)" and ?w = "\<lambda>j. sint off < sint (jr_Timestamp j)"
  have w: "wanted = map (me_event L) (filter ?w ?js)"
    by (simp add: wanted_def filter_map comp_def conj_commute)
  have "length (filter ?w ?js) < 2 ^ 64" using assms(5) by (simp add: w)
  then have loop: "me_select_loop L ?w limit ?js [] = Ok (take (Suc (unat limit)) wanted)"
    using me_select_loop_spec [of ?js ?w L "[]" limit] dec by (simp add: w)
  then show ?thesis
    using assms(3) me_reads(3) [OF assms(1) ok refl conn, of shard off limit] slice_stable_sorted_le
    by (auto simp: Let_def split: if_splits)
qed

definition wit_shards :: ref_mem where
  "wit_shards = snd (wit_write [ev_wit ''b'' 1 5, ev_wit ''a'' 1 10] me_wit)"

theorem memory_shard_page_witness:
  "me_GetShardEvents ref_protolib ref_memdb 1 0 0 wit_shards = Ok ([ev_wit ''a'' 1 10], 10) \<and>
   me_GetShardEvents ref_protolib ref_memdb 1 10 0 wit_shards = Ok ([], 0)"
proof -
  have inv: "me_inv me_wit_env wit_shards"
    unfolding wit_shards_def by (rule wit_write_inv) (simp_all add: me_wit_inv me_storable_wit wit_nul_free)
  have rows: "map (me_event ref_protolib) (me_rows me_wit_env wit_shards) = [ev_wit ''a'' 1 10, ev_wit ''b'' 1 5]" by code_simp
  have first: "filter (\<lambda>e. ev_Shard e = 1 \<and> sint (0 :: i64) < sint (ev_Timestamp e))
      (map (me_event ref_protolib) (me_rows me_wit_env wit_shards)) = [ev_wit ''a'' 1 10, ev_wit ''b'' 1 5]"
    unfolding rows by (simp add: ev_wit_def)
  have second: "filter (\<lambda>e. ev_Shard e = 1 \<and> sint (10 :: i64) < sint (ev_Timestamp e))
      (map (me_event ref_protolib) (me_rows me_wit_env wit_shards)) = []"
    unfolding rows by (simp add: ev_wit_def)
  note page = memory_shard_page [OF me_rely_wit [unfolded me_wit_env_def] inv [unfolded me_wit_env_def], folded me_wit_env_def]
  have "is_ok (me_GetShardEvents ref_protolib ref_memdb 1 0 0 wit_shards)"
    "is_ok (me_GetShardEvents ref_protolib ref_memdb 1 10 0 wit_shards)" by code_simp+
  then obtain xs nxt ys nyt where g: "me_GetShardEvents ref_protolib ref_memdb 1 0 0 wit_shards = Ok (xs, nxt)"
    "me_GetShardEvents ref_protolib ref_memdb 1 10 0 wit_shards = Ok (ys, nyt)" by (auto simp: is_ok_iff)
  have "xs = [ev_wit ''a'' 1 10] \<and> nxt = 10" using page [OF g(1)] unfolding first by (auto simp: ev_wit_def)
  moreover have "ys = [] \<and> nyt = 0" using page [OF g(2)] unfolding second by auto
  ultimately show ?thesis using g by simp
qed

text \<open>
  A page of persistence ids of the memory store is made of records: the ids of the first
  \<open>pageSize\<close> records from the token on, one for each record, without those of the token. An id
  with as many records as a page fills the page alone, and the next page is then empty although
  other ids follow.
\<close>

theorem memory_ids_page:
  assumes "me_rely (L, M, G, uuid)" "me_ok (L, M, G, uuid) s" "me_connected s" "nul_free tok" "unat n < 2 ^ 63"
  shows "me_PersistenceIDs M n tok s =
    (let ids = filter (\<lambda>p. p \<noteq> tok) (take (unat n)
           (filter (\<lambda>p. tok = '''' \<or> tok \<le> p) (map jr_PersistenceID (me_rows (L, M, G, uuid) s))))
     in Ok (ids, if ids = [] then '''' else last ids))"
  using me_ids_page [OF assms(1,2) refl assms(3-5)] .

definition wit_ids :: ref_mem where
  "wit_ids = snd (wit_write [ev_wit ''p'' 1 10, ev_wit ''q'' 1 20, ev_wit ''p'' 2 30] me_wit)"

theorem memory_ids_page_witness:
  "me_PersistenceIDs ref_memdb 2 '''' wit_ids = Ok ([''p'', ''p''], ''p'') \<and>
   me_PersistenceIDs ref_memdb 2 ''p'' wit_ids = Ok ([], '''')"
proof -
  have "me_inv me_wit_env wit_ids"
    unfolding wit_ids_def by (rule wit_write_inv) (simp_all add: me_wit_inv me_storable_wit wit_nul_free)
  then have ok: "me_ok me_wit_env wit_ids" by (simp add: me_inv_def)
  have conn: "me_connected wit_ids" by code_simp
  have rows: "map jr_PersistenceID (me_rows me_wit_env wit_ids) = [''p'', ''p'', ''q'']" by code_simp
  note page = memory_ids_page [OF me_rely_wit [unfolded me_wit_env_def] ok [unfolded me_wit_env_def] conn, folded me_wit_env_def,
      unfolded rows, of _ 2]
  show ?thesis using page [OF wit_nul_free(5)] page [OF wit_nul_free(1)] by simp
qed

text \<open>
  C37. A disconnected memory store is empty when it is connected again, whatever
  \<open>KeepRecordsAfterDisconnect\<close> says: \<open>Connect\<close> replaces the database. The flag only keeps
  the records of the old database until then.
\<close>

theorem memory_reconnect_empty:
  assumes "me_rely (L, M, G, uuid)" "me_ok (L, M, G, uuid) s" "me_Disconnect M s = (Ok (), s')"
    and "me_Connect M s' = (r, s'')"
  shows "r = Ok () \<and> me_connected s'' \<and> me_rows (L, M, G, uuid) s'' = [] \<and> me_ok (L, M, G, uuid) s'' \<and>
    (me_connected s \<and> me_KeepRecordsAfterDisconnect s \<longrightarrow>
       me_rows (L, M, G, uuid) s' = me_rows (L, M, G, uuid) s)"
proof -
  have s': "me_ok (L, M, G, uuid) s'" "\<not> me_connected s'"
    using me_Disconnect_spec [OF assms(1,2) refl] assms(3) by auto
  have "me_connected s \<and> me_KeepRecordsAfterDisconnect s \<Longrightarrow> me_rows (L, M, G, uuid) s' = me_rows (L, M, G, uuid) s"
    using assms(3) by (auto simp: me_Disconnect_def me_rows_def)
  then show ?thesis using me_Connect_spec [OF assms(1) s' refl] assms(4) by auto
qed

definition wit_kept :: ref_mem where
  "wit_kept = wit_journal\<lparr>me_KeepRecordsAfterDisconnect := True\<rparr>"

theorem memory_reconnect_empty_witness:
  "length (me_rows me_wit_env (snd (me_Disconnect ref_memdb wit_kept))) = 3 \<and>
   me_rows me_wit_env (snd (me_Connect ref_memdb (snd (me_Disconnect ref_memdb wit_kept)))) = []"
proof -
  have ok: "me_ok me_wit_env wit_kept"
    using wit_journal_inv by (auto simp: me_inv_def wit_kept_def me_ok_def me_wit_env_def split: option.splits)
  have "fst (me_Disconnect ref_memdb wit_kept) = Ok ()" by code_simp
  from memory_reconnect_empty [OF me_rely_wit [unfolded me_wit_env_def] ok [unfolded me_wit_env_def] ok_pair [OF this] surjective_pairing]
  have "me_rows me_wit_env (snd (me_Connect ref_memdb (snd (me_Disconnect ref_memdb wit_kept)))) = []"
    "me_connected wit_kept \<and> me_KeepRecordsAfterDisconnect wit_kept \<longrightarrow>
      me_rows me_wit_env (snd (me_Disconnect ref_memdb wit_kept)) = me_rows me_wit_env wit_kept"
    by (simp_all add: me_wit_env_def)
  moreover have "me_connected wit_kept" "me_KeepRecordsAfterDisconnect wit_kept"
    "length (me_rows me_wit_env wit_kept) = 3" by code_simp+
  ultimately show ?thesis by simp
qed

text \<open>
  C15. In every history of calls of the memory store whose persistence ids have no NUL character,
  from a new store with either setting of the flag, the indexes of the journal stay consistent
  and nothing panics, although the code never looks whether \<open>s.db\<close> is nil: neither the next call
  (\<open>Connect\<close>, \<open>Disconnect\<close>, \<open>Ping\<close>, a write or a delete) nor any read (the ids, a replay, the
  latest event, the events of a shard, the shard numbers), whatever its arguments.
\<close>

theorem memory_history_safe:
  assumes "me_rely (L, M, G, uuid)" "me_reach (L, M, G, uuid) s"
  shows "me_ok (L, M, G, uuid) s \<and> (\<forall>q. \<not> me_panics (me_ask L M q s)) \<and>
    (\<forall>c. me_call_ok c \<longrightarrow> fst (me_run L M uuid c s) \<noteq> Panic \<and> me_reach (L, M, G, uuid) (snd (me_run L M uuid c s)))"
proof -
  have ok: "me_ok (L, M, G, uuid) s" by (rule me_reach_ok [OF assms(2,1)])
  have "fst (me_run L M uuid c s) \<noteq> Panic \<and> me_reach (L, M, G, uuid) (snd (me_run L M uuid c s))" if "me_call_ok c" for c
  proof -
    have "me_step (L, M, G, uuid) s c (fst (me_run L M uuid c s)) (snd (me_run L M uuid c s))"
      by (rule me_stepI) (simp_all add: that)
    then show ?thesis using me_step_ok [OF assms(1) ok] me_reach_step [OF assms(2)] by blast
  qed
  then show ?thesis using ok me_ask_not_Panic [OF assms(1) ok refl] by blast
qed

theorem memory_history_safe_witness:
  "let run = me_run ref_protolib ref_memdb wit_uuid;
       s = snd (run (MeWrite [Some (ev_wit ''p'' 1 10)]) (snd (run MePing (NewEventsStore\<lparr>me_KeepRecordsAfterDisconnect := True\<rparr>))))
   in fst (run (MeDelete ''p'' 1) s) \<noteq> Panic \<and>
      me_ReplayEvents ref_protolib ref_memdb ''p'' 0 9 9 (snd (run MeDisconnect s)) \<noteq> Panic \<and> \<not> me_connected (snd (run MeDisconnect s))"
proof -
  let ?run = "me_run ref_protolib ref_memdb wit_uuid"
  let ?s0 = "NewEventsStore\<lparr>me_KeepRecordsAfterDisconnect := True\<rparr> :: ref_mem"
  let ?s1 = "snd (?run MePing ?s0)" let ?s = "snd (?run (MeWrite [Some (ev_wit ''p'' 1 10)]) ?s1)"
  have c: "me_call_ok MePing" "me_call_ok (MeWrite [Some (ev_wit ''p'' 1 10)])" "me_call_ok (MeDelete ''p'' 1)"
    "me_call_ok MeDisconnect" by code_simp+
  have h: "me_reach me_wit_env (snd (?run c s)) \<and> fst (?run c s) \<noteq> Panic \<and> \<not> me_panics (me_ask ref_protolib ref_memdb q s)"
    if "me_reach me_wit_env s" "me_call_ok c" for s c q
    using memory_history_safe [OF me_rely_wit [unfolded me_wit_env_def] that(1) [unfolded me_wit_env_def]] that(2)
    by (simp add: me_wit_env_def)
  note reach = h [THEN conjunct1]
  have s: "me_reach me_wit_env ?s" by (rule reach [OF reach [OF me_reach_init c(1)] c(2)])
  have "\<not> me_panics (me_ask ref_protolib ref_memdb (QReplay ''p'' 0 9 9) (snd (?run MeDisconnect ?s)))"
    by (rule h [OF reach [OF s c(4)] c(1), THEN conjunct2, THEN conjunct2])
  moreover have "\<not> me_connected (snd (?run MeDisconnect ?s))" by code_simp
  moreover have "fst (?run (MeDelete ''p'' 1) ?s) \<noteq> Panic" using h [OF s c(3)] by simp
  ultimately show ?thesis by (simp add: me_panics_def me_ask_def Let_def)
qed

end
