(* ===== verification/Paging.thy ===== *)
theory Paging
  imports Prelude
begin

text \<open>
  Clients list a store page by page: they ask for a page from a token (or an offset), pass the
  token of the page to the next call, and stop at an empty page. \<open>read_pages\<close> is that loop,
  with fuel; the locale \<open>pager\<close> says what a store must promise of one page for the loop to end
  with the whole listing.
\<close>

fun read_pages :: "nat \<Rightarrow> ('tok \<Rightarrow> ('a list \<times> 'tok) res) \<Rightarrow> 'tok \<Rightarrow> 'a list res option" where
  "read_pages 0 page tok = None"
| "read_pages (Suc fuel) page tok =
     (case page tok of
        Err err \<Rightarrow> Some (Err err)
      | Panic \<Rightarrow> Some Panic
      | Ok (xs, next_tok) \<Rightarrow>
          if xs = [] then Some (Ok [])
          else (case read_pages fuel page next_tok of
                  Some (Ok ys) \<Rightarrow> Some (Ok (xs @ ys))
                | r \<Rightarrow> r))"

text \<open>
  \<open>at env tok rest\<close> says that \<open>rest\<close> is what a client still has to see when its token is
  \<open>tok\<close>; \<open>psize env\<close> is the size of a page.
\<close>

locale pager =
  fixes rely :: "'env \<Rightarrow> bool"
    and at :: "'env \<Rightarrow> 'tok \<Rightarrow> 'a list \<Rightarrow> bool"
    and page :: "'env \<Rightarrow> 'tok \<Rightarrow> ('a list \<times> 'tok) res"
    and psize :: "'env \<Rightarrow> nat"
  assumes page_ok: "\<lbrakk>rely env; at env tok rest; page env tok = Ok (xs, next_tok)\<rbrakk> \<Longrightarrow> xs = take (psize env) rest"
    and page_next: "\<lbrakk>rely env; at env tok rest; page env tok = Ok (xs, next_tok); xs \<noteq> []\<rbrakk>
      \<Longrightarrow> at env next_tok (drop (psize env) rest)"
    and psize_pos: "rely env \<Longrightarrow> 0 < psize env"
begin

text \<open>The loop ends, with the whole listing or with the failure of a page.\<close>

lemma read_pages_ends:
  assumes "rely env" "at env tok rest" "length rest < fuel"
  shows "read_pages fuel (page env) tok = Some (Ok rest) \<or>
    (\<exists>r. read_pages fuel (page env) tok = Some r \<and> \<not> is_ok r)"
  using assms(2,3)
proof (induction fuel arbitrary: tok rest)
  case (Suc fuel)
  show ?case
  proof (cases "page env tok")
    case (Ok p)
    then obtain xs nxt where p: "page env tok = Ok (xs, nxt)" by (cases p) auto
    have xs: "xs = take (psize env) rest" by (rule page_ok [OF assms(1) Suc.prems(1) p])
    show ?thesis
    proof (cases "xs = []")
      case True
      then have "rest = []" using xs psize_pos [OF assms(1)] by simp
      then show ?thesis using p True by simp
    next
      case False
      then have "length (drop (psize env) rest) < fuel"
        using Suc.prems(2) psize_pos [OF assms(1)] by (cases rest) (auto simp: xs)
      from Suc.IH [OF page_next [OF assms(1) Suc.prems(1) p False] this]
      show ?thesis using p False by (auto simp: xs split: res.splits)
    qed
  qed simp_all
qed simp

end

text \<open>A list without repetitions that is sorted by an antisymmetric relation is determined by its elements.\<close>

lemma sorted_wrt_unique:
  assumes "sorted_wrt R xs" "sorted_wrt R ys" "distinct xs" "distinct ys" "set xs = set ys"
    and "\<And>a b. R a b \<Longrightarrow> R b a \<Longrightarrow> a = b"
  shows "xs = ys"
  using assms(1-5)
proof (induction xs arbitrary: ys)
  case (Cons x xs)
  then obtain y zs where ys: "ys = y # zs" by (cases ys) auto
  have "x = y"
  proof (rule ccontr)
    assume "x \<noteq> y"
    then have "x \<in> set zs" "y \<in> set xs" using Cons.prems(5) ys by auto
    then have "R y x" "R x y" using Cons.prems(1,2) ys by auto
    then show False using assms(6) \<open>x \<noteq> y\<close> by blast
  qed
  moreover have "xs = zs"
    by (rule Cons.IH) (use Cons.prems ys \<open>x = y\<close> in auto)
  ultimately show ?case using ys by simp
qed simp

end
