(* ===== verification/EventsMemoryRace.thy ===== *)
theory EventsMemoryRace
  imports EventsMemoryRuns Paging
begin

text \<open>
  Goroutines that call one memory event store at the same time, one shared access per step:
  loading the flag, a read transaction, loading \<open>s.db\<close> for a write transaction, opening it (which
  waits while another one is open on that database), its commit, setting \<open>s.db\<close>, storing the flag. Between the
  two transactions of \<open>DeleteEvents\<close>, and between the accesses of \<open>Connect\<close>, the others go on.
\<close>

section \<open>The steps\<close>

text \<open>
  Where a goroutine stands: the call was entered, the flag let it pass, the records of a delete
  were fetched, \<open>s.db\<close> was loaded and the lock of that database is waited for, a write transaction
  is open on a database, the flag is all that is left to store; a read was entered, the flag let
  it pass.
\<close>

datatype 'txn ra_pc =
    RIdle
  | REntered me_call
  | RChecked me_call
  | RRead string u64 "journal list"
  | RWait me_call "journal list" nat
  | ROpen me_call "journal list" nat 'txn
  | RActed me_call
  | RAsked me_query
  | RAsking me_query

text \<open>
  Databases are numbered as \<open>Connect\<close> creates them, \<open>ra_cur\<close> is the one that \<open>s.db\<close> points to,
  \<open>ra_writer\<close> gives the goroutine with a write transaction on it, \<open>ra_done\<close> lists the calls that
  returned, with their results, and \<open>ra_answers\<close> the reads that returned, each with its answer and
  the number of calls that had returned when it read.
\<close>

record ('db, 'txn) ra_state =
  ra_flag :: bool
  ra_keep :: bool
  ra_cur :: "nat option"
  ra_dbs :: "'db list"
  ra_writer :: "nat \<Rightarrow> nat option"
  ra_drawn :: nat
  ra_pc :: "nat \<Rightarrow> 'txn ra_pc"
  ra_done :: "(nat \<times> me_call \<times> unit res) list"
  ra_answers :: "(nat \<times> nat \<times> me_query \<times> me_answer) list"

definition ra_init :: "'db mem_events \<Rightarrow> ('db, 'txn) ra_state" where
  "ra_init s =
     \<lparr>ra_flag = me_connected s, ra_keep = me_KeepRecordsAfterDisconnect s,
      ra_cur = map_option (\<lambda>_. 0) (me_db s), ra_dbs = (case me_db s of None \<Rightarrow> [] | Some db \<Rightarrow> [db]),
      ra_writer = (\<lambda>_. None), ra_drawn = me_drawn s, ra_pc = (\<lambda>_. RIdle), ra_done = [], ra_answers = []\<rparr>"

text \<open>The struct as it is now.\<close>

definition ra_store :: "('db, 'txn) ra_state \<Rightarrow> 'db mem_events" where
  "ra_store s =
     \<lparr>me_db = map_option (\<lambda>d. ra_dbs s ! d) (ra_cur s), me_KeepRecordsAfterDisconnect = ra_keep s,
      me_connected = ra_flag s, me_drawn = ra_drawn s\<rparr>"

definition ra_goto :: "nat \<Rightarrow> 'txn ra_pc \<Rightarrow> ('db, 'txn) ra_state \<Rightarrow> ('db, 'txn) ra_state" where
  "ra_goto i pc s = s\<lparr>ra_pc := (ra_pc s)(i := pc)\<rparr>"

definition ra_return :: "nat \<Rightarrow> me_call \<Rightarrow> unit res \<Rightarrow> ('db, 'txn) ra_state \<Rightarrow> ('db, 'txn) ra_state" where
  "ra_return i c r s = (ra_goto i RIdle s)\<lparr>ra_done := ra_done s @ [(i, c, r)]\<rparr>"

text \<open>Loading the flag. A \<open>Ping\<close> that has to connect is a call of \<open>Connect\<close> from then on.\<close>

definition ra_check :: "nat \<Rightarrow> me_call \<Rightarrow> ('db, 'txn) ra_state \<Rightarrow> ('db, 'txn) ra_state" where
  "ra_check i c s =
     (case c of
        MeConnect \<Rightarrow> if ra_flag s then ra_return i c (Ok ()) s else ra_goto i (RChecked c) s
      | MeDisconnect \<Rightarrow> if \<not> ra_flag s then ra_return i c (Ok ()) s else ra_goto i (RChecked c) s
      | MePing \<Rightarrow> if \<not> ra_flag s then ra_goto i (REntered MeConnect) s else ra_return i c (Ok ()) s
      | _ \<Rightarrow> if \<not> ra_flag s then ra_return i c (Err journal_not_connected) s else ra_goto i (RChecked c) s)"

text \<open>\<open>s.db.Txn(true)\<close>: it loads \<open>s.db\<close>, and then waits while another write transaction on that database is open.\<close>

definition ra_open :: "nat \<Rightarrow> me_call \<Rightarrow> journal list \<Rightarrow> ('db, 'txn) ra_state \<Rightarrow> ('db, 'txn) ra_state" where
  "ra_open i c journals s =
     (case ra_cur s of
        None \<Rightarrow> ra_return i c Panic s
      | Some d \<Rightarrow> ra_goto i (RWait c journals d) s)"

definition ra_lock ::
  "('db, 'txn, journal) memdb \<Rightarrow> nat \<Rightarrow> me_call \<Rightarrow> journal list \<Rightarrow> nat \<Rightarrow> ('db, 'txn) ra_state \<Rightarrow>
   ('db, 'txn) ra_state option" where
  "ra_lock M i c journals d s =
     (if ra_writer s d \<noteq> None then None
      else Some ((ra_goto i (ROpen c journals d (md_txn M (ra_dbs s ! d) True)) s)
             \<lparr>ra_writer := (ra_writer s)(d \<mapsto> i)\<rparr>))"

definition ra_commit ::
  "('db, 'txn, journal) memdb \<Rightarrow> nat \<Rightarrow> 'txn \<Rightarrow> ('db, 'txn) ra_state \<Rightarrow> ('db, 'txn) ra_state" where
  "ra_commit M d txn s = s\<lparr>ra_dbs := (ra_dbs s)[d := md_commit M txn], ra_writer := (ra_writer s)(d := None)\<rparr>"

definition ra_abort :: "nat \<Rightarrow> ('db, 'txn) ra_state \<Rightarrow> ('db, 'txn) ra_state" where
  "ra_abort d s = s\<lparr>ra_writer := (ra_writer s)(d := None)\<rparr>"

text \<open>The step after the flag was loaded.\<close>

definition ra_act ::
  "('db, 'txn, journal) memdb \<Rightarrow> nat \<Rightarrow> me_call \<Rightarrow> ('db, 'txn) ra_state \<Rightarrow> ('db, 'txn) ra_state option" where
  "ra_act M i c s =
     (case c of
        MeConnect \<Rightarrow>
          (case md_new M journalSchema of
             Err err \<Rightarrow> Some (ra_return i c (Err err) s)
           | Panic \<Rightarrow> Some (ra_return i c Panic s)
           | Ok db \<Rightarrow> Some ((ra_goto i (RActed c) s)
               \<lparr>ra_dbs := ra_dbs s @ [db], ra_cur := Some (length (ra_dbs s))\<rparr>))
      | MeDisconnect \<Rightarrow> Some (if ra_keep s then ra_goto i (RActed c) s else ra_open i c [] s)
      | MePing \<Rightarrow> None
      | MeWrite events \<Rightarrow> Some (ra_open i c [] s)
      | MeDelete persistenceID toSequenceNumber \<Rightarrow>
          (case ra_cur s of
             None \<Rightarrow> Some (ra_return i c Panic s)
           | Some d \<Rightarrow>
               (case md_get M journalTableName persistenceIDIndex [ArgString persistenceID]
                       (md_txn M (ra_dbs s ! d) False) of
                  Err err \<Rightarrow> Some (ra_return i c (Err (me_delete_err toSequenceNumber persistenceID err)) s)
                | Panic \<Rightarrow> Some (ra_return i c Panic s)
                | Ok rows \<Rightarrow> Some (ra_goto i (RRead persistenceID toSequenceNumber (collect_rows rows)) s))))"

text \<open>
  The work of a write transaction, which no other goroutine sees before the commit, and the
  commit or the abort. A panic leaves the transaction open.
\<close>

definition ra_finish ::
  "('t, 'm) protolib \<Rightarrow> ('db, 'txn, journal) memdb \<Rightarrow> (nat \<Rightarrow> string) \<Rightarrow> nat \<Rightarrow> me_call \<Rightarrow> journal list \<Rightarrow>
   nat \<Rightarrow> 'txn \<Rightarrow> ('db, 'txn) ra_state \<Rightarrow> ('db, 'txn) ra_state option" where
  "ra_finish L M uuid i c journals d txn s =
     (case c of
        MeWrite events \<Rightarrow>
          (case me_write_loop L M uuid events (ra_drawn s) txn of
             (Ok _, n, txn') \<Rightarrow> Some (ra_return i c (Ok ()) (ra_commit M d txn' (s\<lparr>ra_drawn := n\<rparr>)))
           | (Err err, n, _) \<Rightarrow> Some (ra_return i c (Err err) (ra_abort d (s\<lparr>ra_drawn := n\<rparr>)))
           | (Panic, n, _) \<Rightarrow> Some (ra_return i c Panic (s\<lparr>ra_drawn := n\<rparr>)))
      | MeDelete persistenceID toSequenceNumber \<Rightarrow>
          (case me_delete_loop M toSequenceNumber journals txn of
             (Ok _, txn') \<Rightarrow> Some (ra_return i c (Ok ()) (ra_commit M d txn' s))
           | (Err err, _) \<Rightarrow>
               Some (ra_return i c (Err (me_delete_err toSequenceNumber persistenceID err)) (ra_abort d s))
           | (Panic, _) \<Rightarrow> Some (ra_return i c Panic s))
      | MeDisconnect \<Rightarrow>
          (case md_delete_all M journal_fields journalTableName journalPK txn of
             (Ok _, txn') \<Rightarrow> Some (ra_goto i (RActed c) (ra_commit M d txn' s))
           | (Err err, _) \<Rightarrow>
               Some (ra_return i c (Err (ErrWrap ''failed to free memory resource'' err)) (ra_abort d s))
           | (Panic, _) \<Rightarrow> Some (ra_return i c Panic s))
      | _ \<Rightarrow> None)"

text \<open>
  A read: the flag, then one transaction, whose snapshot it works on to its end whatever the
  flag is by then.
\<close>

definition ra_answer :: "nat \<Rightarrow> me_query \<Rightarrow> me_answer \<Rightarrow> ('db, 'txn) ra_state \<Rightarrow> ('db, 'txn) ra_state" where
  "ra_answer i q a s = (ra_goto i RIdle s)\<lparr>ra_answers := ra_answers s @ [(i, length (ra_done s), q, a)]\<rparr>"

definition ra_ask_check ::
  "('t, 'm) protolib \<Rightarrow> ('db, 'txn, journal) memdb \<Rightarrow> nat \<Rightarrow> me_query \<Rightarrow> ('db, 'txn) ra_state \<Rightarrow> ('db, 'txn) ra_state" where
  "ra_ask_check L M i q s =
     (if \<not> ra_flag s then ra_answer i q (me_ask L M q (ra_store s)) s else ra_goto i (RAsking q) s)"

definition ra_ask ::
  "('t, 'm) protolib \<Rightarrow> ('db, 'txn, journal) memdb \<Rightarrow> nat \<Rightarrow> me_query \<Rightarrow> ('db, 'txn) ra_state \<Rightarrow> ('db, 'txn) ra_state" where
  "ra_ask L M i q s = ra_answer i q (me_ask L M q ((ra_store s)\<lparr>me_connected := True\<rparr>)) s"

text \<open>A goroutine calls, reads, or goes on with what it is in.\<close>

datatype ra_event = Call me_call | Ask me_query | Go

text \<open>
  One step of goroutine \<open>i\<close>, \<open>None\<close> where it cannot take it.
\<close>

definition ra_exec ::
  "('t, 'm) protolib \<Rightarrow> ('db, 'txn, journal) memdb \<Rightarrow> (nat \<Rightarrow> string) \<Rightarrow> nat \<Rightarrow> ra_event \<Rightarrow>
   ('db, 'txn) ra_state \<Rightarrow> ('db, 'txn) ra_state option" where
  "ra_exec L M uuid i x s =
     (case x of
        Call c \<Rightarrow> (case ra_pc s i of RIdle \<Rightarrow> Some (ra_goto i (REntered c) s) | _ \<Rightarrow> None)
      | Ask q \<Rightarrow> (case ra_pc s i of RIdle \<Rightarrow> Some (ra_goto i (RAsked q) s) | _ \<Rightarrow> None)
      | Go \<Rightarrow>
          (case ra_pc s i of
             RIdle \<Rightarrow> None
           | REntered c \<Rightarrow> Some (ra_check i c s)
           | RChecked c \<Rightarrow> ra_act M i c s
           | RRead p n journals \<Rightarrow> Some (ra_open i (MeDelete p n) journals s)
           | RWait c journals d \<Rightarrow> ra_lock M i c journals d s
           | ROpen c journals d txn \<Rightarrow> ra_finish L M uuid i c journals d txn s
           | RActed c \<Rightarrow> Some (ra_return i c (Ok ()) (s\<lparr>ra_flag := (c = MeConnect)\<rparr>))
           | RAsked q \<Rightarrow> Some (ra_ask_check L M i q s)
           | RAsking q \<Rightarrow> Some (ra_ask L M i q s)))"

fun ra_run ::
  "('t, 'm) protolib \<Rightarrow> ('db, 'txn, journal) memdb \<Rightarrow> (nat \<Rightarrow> string) \<Rightarrow> (nat \<times> ra_event) list \<Rightarrow>
   ('db, 'txn) ra_state \<Rightarrow> ('db, 'txn) ra_state option" where
  "ra_run L M uuid [] s = Some s"
| "ra_run L M uuid ((i, x) # es) s =
     (case ra_exec L M uuid i x s of None \<Rightarrow> None | Some s' \<Rightarrow> ra_run L M uuid es s')"

text \<open>Calls with the results they should have, made one after the other.\<close>

fun me_trace ::
  "('t, 'm) protolib \<Rightarrow> ('db, 'txn, journal) memdb \<Rightarrow> (nat \<Rightarrow> string) \<Rightarrow> (nat \<times> me_call \<times> unit res) list \<Rightarrow>
   'db mem_events \<Rightarrow> 'db mem_events option" where
  "me_trace L M uuid [] s = Some s"
| "me_trace L M uuid ((i, c, r) # cs) s =
     (case me_run L M uuid c s of (r', s') \<Rightarrow> if r' = r then me_trace L M uuid cs s' else None)"

lemmas ra_defs = ra_goto_def ra_return_def ra_check_def ra_open_def ra_lock_def ra_commit_def ra_abort_def ra_act_def

text \<open>The parts of the states and the single steps, for running a schedule symbolically.\<close>

lemma ra_goto_simps [simp]:
  "ra_answers (ra_goto i pc s) = ra_answers s"
  "ra_flag (ra_goto i pc s) = ra_flag s" "ra_keep (ra_goto i pc s) = ra_keep s" "ra_cur (ra_goto i pc s) = ra_cur s"
  "ra_dbs (ra_goto i pc s) = ra_dbs s" "ra_writer (ra_goto i pc s) = ra_writer s"
  "ra_drawn (ra_goto i pc s) = ra_drawn s" "ra_pc (ra_goto i pc s) = (ra_pc s)(i := pc)"
  "ra_done (ra_goto i pc s) = ra_done s"
  by (simp_all add: ra_goto_def)

lemma ra_return_simps [simp]:
  "ra_answers (ra_return i c r s) = ra_answers s"
  "ra_flag (ra_return i c r s) = ra_flag s" "ra_keep (ra_return i c r s) = ra_keep s"
  "ra_cur (ra_return i c r s) = ra_cur s" "ra_dbs (ra_return i c r s) = ra_dbs s"
  "ra_writer (ra_return i c r s) = ra_writer s" "ra_drawn (ra_return i c r s) = ra_drawn s"
  "ra_pc (ra_return i c r s) = (ra_pc s)(i := RIdle)" "ra_done (ra_return i c r s) = ra_done s @ [(i, c, r)]"
  by (simp_all add: ra_return_def)

lemma ra_commit_simps [simp]:
  "ra_answers (ra_commit M d t s) = ra_answers s"
  "ra_flag (ra_commit M d t s) = ra_flag s" "ra_keep (ra_commit M d t s) = ra_keep s" "ra_cur (ra_commit M d t s) = ra_cur s"
  "ra_dbs (ra_commit M d t s) = (ra_dbs s)[d := md_commit M t]" "ra_writer (ra_commit M d t s) = (ra_writer s)(d := None)"
  "ra_drawn (ra_commit M d t s) = ra_drawn s" "ra_pc (ra_commit M d t s) = ra_pc s" "ra_done (ra_commit M d t s) = ra_done s"
  by (simp_all add: ra_commit_def)

lemma ra_abort_simps [simp]:
  "ra_answers (ra_abort d s) = ra_answers s"
  "ra_flag (ra_abort d s) = ra_flag s" "ra_keep (ra_abort d s) = ra_keep s" "ra_cur (ra_abort d s) = ra_cur s"
  "ra_dbs (ra_abort d s) = ra_dbs s" "ra_writer (ra_abort d s) = (ra_writer s)(d := None)"
  "ra_drawn (ra_abort d s) = ra_drawn s" "ra_pc (ra_abort d s) = ra_pc s" "ra_done (ra_abort d s) = ra_done s"
  by (simp_all add: ra_abort_def)

lemma ra_start:
  "ra_pc (ra_init s) = (\<lambda>_. RIdle)" "ra_writer (ra_init s) = (\<lambda>_. None)" "ra_done (ra_init s) = []"
  "ra_flag (ra_init s) = me_connected s" "ra_drawn (ra_init s) = me_drawn s"
  "me_db s = Some db \<Longrightarrow> ra_cur (ra_init s) = Some 0" "me_db s = Some db \<Longrightarrow> ra_dbs (ra_init s) = [db]"
  by (simp_all add: ra_init_def)

lemma ra_steps:
  "ra_pc s i = RIdle \<Longrightarrow> ra_exec L M uuid i (Call c) s = Some (ra_goto i (REntered c) s)"
  "ra_pc s i = REntered c \<Longrightarrow> ra_exec L M uuid i Go s = Some (ra_check i c s)"
  "ra_pc s i = RChecked c \<Longrightarrow> ra_exec L M uuid i Go s = ra_act M i c s"
  "ra_pc s i = RRead p n js \<Longrightarrow> ra_exec L M uuid i Go s = Some (ra_open i (MeDelete p n) js s)"
  "ra_pc s i = RWait c js d \<Longrightarrow> ra_exec L M uuid i Go s = ra_lock M i c js d s"
  "ra_pc s i = ROpen c js d txn \<Longrightarrow> ra_exec L M uuid i Go s = ra_finish L M uuid i c js d txn s"
  "ra_pc s i = RActed c \<Longrightarrow>
    ra_exec L M uuid i Go s = Some (ra_return i c (Ok ()) (s\<lparr>ra_flag := (c = MeConnect)\<rparr>))"
  by (simp_all add: ra_exec_def)

lemma ra_store_init [simp]: "ra_store (ra_init s) = s"
  by (cases "me_db s") (simp_all add: ra_store_def ra_init_def)

lemma me_trace_append:
  "me_trace L M uuid (cs @ ds) s =
     (case me_trace L M uuid cs s of None \<Rightarrow> None | Some s' \<Rightarrow> me_trace L M uuid ds s')"
  by (induction L M uuid cs s rule: me_trace.induct) (auto split: prod.splits)

section \<open>One writer per persistence id\<close>

text \<open>
  An actor is the only one to write and delete under its persistence id: \<open>owner\<close> gives the
  goroutine of an id.
\<close>

definition ra_owned :: "(string \<Rightarrow> nat) \<Rightarrow> nat \<Rightarrow> me_call \<Rightarrow> bool" where
  "ra_owned owner i c \<longleftrightarrow> me_call_ok c \<and>
     (case c of
        MeWrite es \<Rightarrow> list_all (\<lambda>e. owner (ev_PersistenceId (or_zero zero_event e)) = i) es
      | MeDelete p n \<Rightarrow> owner p = i
      | _ \<Rightarrow> False)"

text \<open>
  Besides, any goroutine may ping the store or call \<open>Connect\<close> again while it is connected;
  \<open>Disconnect\<close>, and \<open>Connect\<close> of a store that is not, are not admitted.
\<close>

definition ra_admitted :: "bool \<Rightarrow> (string \<Rightarrow> nat) \<Rightarrow> nat \<Rightarrow> me_call \<Rightarrow> bool" where
  "ra_admitted connected owner i c \<longleftrightarrow> ra_owned owner i c \<or> connected \<and> (c = MeConnect \<or> c = MePing)"

lemma sorted_journal_keys:
  assumes "journal_trees uuid n T"
  shows "sorted_wrt (\<lambda>a b. jr_pkey a < jr_pkey b) (journal_rows T)"
proof -
  have "map fst (T persistenceIDIndex) = map jr_pkey (journal_rows T)"
    using assms by (auto simp: journal_trees_def journal_rows_def)
  moreover have "sorted_wrt (<) (map fst (T persistenceIDIndex))"
    using assms by (simp add: journal_trees_def tree_ok_def)
  ultimately show ?thesis by (simp add: sorted_wrt_map)
qed

lemma me_rows_sorted:
  assumes "me_ok env s"
  shows "sorted_wrt (\<lambda>a b. jr_pkey a < jr_pkey b) (me_rows env s)" and "distinct (me_rows env s)"
  using assms sorted_journal_keys distinct_journal_rows
  by (auto simp: me_ok_def me_rows_def split: prod.splits option.splits)

text \<open>What the index shows of an id depends on the records of the id only.\<close>

lemma me_rows_filter_unique:
  assumes "me_ok env s" "me_ok env s'" "set (filter P (me_rows env s)) = set (filter P (me_rows env s'))"
  shows "filter P (me_rows env s) = filter P (me_rows env s')"
proof (rule sorted_wrt_unique)
  show "sorted_wrt (\<lambda>a b. jr_pkey a < jr_pkey b) (filter P (me_rows env s))"
    and "sorted_wrt (\<lambda>a b. jr_pkey a < jr_pkey b) (filter P (me_rows env s'))"
    using me_rows_sorted(1) assms(1,2) by (blast intro: sorted_wrt_filter)+
  show "distinct (filter P (me_rows env s))" "distinct (filter P (me_rows env s'))"
    using me_rows_sorted(2) assms(1,2) by (blast intro: distinct_filter)+
qed (use assms(3) in \<open>auto dest: order.asym\<close>)

lemma written_ids:
  "j \<in> set (written L uuid n es) \<Longrightarrow> \<exists>e \<in> set es. jr_PersistenceID j = ev_PersistenceId (or_zero zero_event e)"
  by (induction es arbitrary: n) (fastforce simp: journal_of_def Let_def)+

abbreviation ra_rows_of :: "('t, 'm, 'db, 'txn) meenv \<Rightarrow> string \<Rightarrow> 'db mem_events \<Rightarrow> journal list" where
  "ra_rows_of env p s \<equiv> filter (\<lambda>j. jr_PersistenceID j = p) (me_rows env s)"

lemma me_run_frame:
  assumes "me_rely env" "me_ok env s" "env = (L, M, G, uuid)" "ra_owned owner i c" "owner p \<noteq> i"
    and "me_run L M uuid c s = (r, s')"
  shows "ra_rows_of env p s' = ra_rows_of env p s"
proof (cases c)
  case (MeWrite es)
  have ids: "\<forall>e \<in> set es. nul_free (ev_PersistenceId (or_zero zero_event e))"
    "\<forall>e \<in> set es. ev_PersistenceId (or_zero zero_event e) \<noteq> p"
    using assms(4,5) MeWrite by (auto simp: ra_owned_def me_call_ok_def list_all_iff)
  have run: "me_WriteEvents L M uuid es s = (r, s')" using assms(6) MeWrite by (simp add: me_run_def)
  note w = me_WriteEvents_spec [OF assms(1-3) ids(1) run]
  show ?thesis
  proof (cases "r = Ok ()")
    case True
    have "set (me_rows env s') = set (me_rows env s) \<union> set (written L uuid (me_drawn s) es)"
      using arg_cong [OF w(4) [OF True], of set_mset] by simp
    moreover have "jr_PersistenceID j \<noteq> p" if "j \<in> set (written L uuid (me_drawn s) es)" for j
      using written_ids [OF that] ids(2) by auto
    ultimately show ?thesis by (intro me_rows_filter_unique [OF w(1) assms(2)]) auto
  next
    case False
    then show ?thesis using w(5) by simp
  qed
next
  case (MeDelete q k)
  then have q: "nul_free q" "q \<noteq> p" using assms(4,5) by (auto simp: ra_owned_def me_call_ok_def)
  have run: "me_DeleteEvents M q k s = (r, s')" using assms(6) MeDelete by (simp add: me_run_def)
  note d = me_DeleteEvents_spec [OF assms(1-3) q(1) run]
  show ?thesis using d(4,5) q(2) by (cases "r = Ok ()") (auto intro: filter_cong)
qed (use assms(4) in \<open>simp_all add: ra_owned_def\<close>)

text \<open>
  The invariant: the store is the one that the calls returned so far leave when they are made
  one after the other; a fetched list of records is what the store shows of the id now, and a
  write transaction is on the current database as it is.
\<close>

fun ra_pc_inv ::
  "('t, 'm, 'db, 'txn) meenv \<Rightarrow> (string \<Rightarrow> nat) \<Rightarrow> nat \<Rightarrow> 'txn ra_pc \<Rightarrow> ('db, 'txn) ra_state \<Rightarrow> bool" where
  "ra_pc_inv env owner i RIdle s \<longleftrightarrow> True"
| "ra_pc_inv env owner i (REntered c) s \<longleftrightarrow> ra_admitted (ra_flag s) owner i c"
| "ra_pc_inv env owner i (RChecked c) s \<longleftrightarrow> ra_owned owner i c \<and> ra_flag s"
| "ra_pc_inv env owner i (RRead p n js) s \<longleftrightarrow>
     ra_owned owner i (MeDelete p n) \<and> ra_flag s \<and> js = ra_rows_of env p (ra_store s)"
| "ra_pc_inv env owner i (RWait c js d) s \<longleftrightarrow>
     ra_owned owner i c \<and> ra_flag s \<and> ra_cur s = Some d \<and>
     (\<forall>p n. c = MeDelete p n \<longrightarrow> js = ra_rows_of env p (ra_store s))"
| "ra_pc_inv env owner i (ROpen c js d txn) s \<longleftrightarrow>
     ra_owned owner i c \<and> ra_flag s \<and> ra_cur s = Some d \<and> ra_writer s d = Some i \<and>
     txn = md_txn (fst (snd env)) (ra_dbs s ! d) True \<and>
     (\<forall>p n. c = MeDelete p n \<longrightarrow> js = ra_rows_of env p (ra_store s))"
| "ra_pc_inv env owner i (RActed c) s \<longleftrightarrow> False"
| "ra_pc_inv env owner i (RAsked q) s \<longleftrightarrow> True"
| "ra_pc_inv env owner i (RAsking q) s \<longleftrightarrow> ra_flag s"

definition ra_inv ::
  "('t, 'm, 'db, 'txn) meenv \<Rightarrow> (string \<Rightarrow> nat) \<Rightarrow> 'db mem_events \<Rightarrow> ('db, 'txn) ra_state \<Rightarrow> bool" where
  "ra_inv env owner s0 s \<longleftrightarrow>
     me_trace (fst env) (fst (snd env)) (snd (snd (snd env))) (ra_done s) s0 = Some (ra_store s) \<and>
     me_ok env (ra_store s) \<and> ra_flag s = me_connected s0 \<and> (\<forall>i. ra_pc_inv env owner i (ra_pc s i) s) \<and>
     (\<forall>d. ra_cur s = Some d \<longrightarrow> d < length (ra_dbs s)) \<and>
     (\<forall>d i. ra_writer s d = Some i \<longrightarrow> (\<exists>c js txn. ra_pc s i = ROpen c js d txn))"

lemma ra_inv_init:
  fixes env :: "('t, 'm, 'db, 'txn) meenv"
  assumes "me_ok env s"
  shows "ra_inv env owner s (ra_init s)"
proof -
  let ?s = "ra_init s :: ('db, 'txn) ra_state"
  have "ra_pc ?s i = RIdle" "ra_writer ?s d = None" "ra_done ?s = []" "ra_flag ?s = me_connected s" for i d
    by (simp_all add: ra_init_def)
  moreover have "ra_cur ?s = Some d \<longrightarrow> d < length (ra_dbs ?s)" for d
    by (cases "me_db s") (simp_all add: ra_init_def)
  ultimately show ?thesis using assms by (simp add: ra_inv_def)
qed

text \<open>The work and the commit of a write transaction are the call, made on the store as it is.\<close>

lemma ra_finish_run:
  assumes "me_rely env" "me_ok env (ra_store s)" "env = (L, M, G, uuid)"
    and "ra_pc_inv env owner i (ROpen c js d txn) s" "d < length (ra_dbs s)"
  shows "\<exists>r s'. ra_finish L M uuid i c js d txn s = Some s' \<and>
    me_run L M uuid c (ra_store s) = (r, ra_store s') \<and> me_ok env (ra_store s') \<and>
    ra_done s' = ra_done s @ [(i, c, r)] \<and> ra_pc s' = (ra_pc s)(i := RIdle) \<and>
    ra_writer s' = (ra_writer s)(d := None) \<and> ra_flag s' = ra_flag s \<and> ra_cur s' = ra_cur s \<and>
    length (ra_dbs s') = length (ra_dbs s)"
proof -
  have inv: "ra_owned owner i c" "ra_flag s" "ra_cur s = Some d" "txn = md_txn M (ra_dbs s ! d) True"
    "\<forall>p n. c = MeDelete p n \<longrightarrow> js = ra_rows_of env p (ra_store s)"
    using assms(3,4) by auto
  obtain r s1 where run: "me_run L M uuid c (ra_store s) = (r, s1)" by (cases "me_run L M uuid c (ra_store s)")
  have "me_step env (ra_store s) c r s1"
    using inv(1) run by (intro me_stepI) (simp_all add: assms(3) ra_owned_def)
  from me_step_ok [OF assms(1,2) this] have ok: "me_ok env s1" "r \<noteq> Panic" by simp_all
  have store: "me_connected (ra_store s)" "me_db (ra_store s) = Some (ra_dbs s ! d)"
    "me_drawn (ra_store s) = ra_drawn s" using inv(2,3) by (simp_all add: ra_store_def)
  have "\<exists>s'. ra_finish L M uuid i c js d txn s = Some s' \<and> ra_store s' = s1 \<and>
    ra_done s' = ra_done s @ [(i, c, r)] \<and> ra_pc s' = (ra_pc s)(i := RIdle) \<and>
    ra_writer s' = (ra_writer s)(d := None) \<and> ra_flag s' = ra_flag s \<and> ra_cur s' = ra_cur s \<and>
    length (ra_dbs s') = length (ra_dbs s)"
  proof (cases c)
    case (MeWrite es)
    then show ?thesis using run store inv(2-4) ok(2) assms(5)
      by (auto simp: me_run_def me_WriteEvents_def ra_finish_def ra_defs ra_store_def split: res.splits prod.splits)
  next
    case (MeDelete p n)
    have p: "nul_free p" using inv(1) MeDelete by (simp add: ra_owned_def me_call_ok_def)
    have "md_get M journalTableName persistenceIDIndex [ArgString p] (md_txn M (ra_dbs s ! d) False) = Ok (map Boxed js)"
      by (rule me_queries [OF assms(1,2,3) store(1)]) (use store(2) p inv(5) MeDelete in simp)
    then show ?thesis using run store inv(2-4) ok(2) assms(5) MeDelete
      by (auto simp: me_run_def me_DeleteEvents_def ra_finish_def ra_defs ra_store_def split: res.splits prod.splits)
  qed (use inv(1) in \<open>simp_all add: ra_owned_def\<close>)
  then show ?thesis using run ok(1) by auto
qed

lemma ra_pc_inv_cong:
  assumes "ra_pc_inv env owner j pc s" "ra_flag s' = ra_flag s" "ra_cur s' = ra_cur s"
    "ra_dbs s' = ra_dbs s" "ra_store s' = ra_store s" "\<forall>d. ra_writer s d = Some j \<longrightarrow> ra_writer s' d = Some j"
  shows "ra_pc_inv env owner j pc s'"
  using assms by (cases pc) auto

text \<open>A step that leaves the store alone: only the goroutine's place, its lock and the log change.\<close>

lemma ra_local_inv:
  assumes "ra_inv env owner s0 s" "env = (L, M, G, uuid)"
    and "ra_pc s' = (ra_pc s)(i := pc)" "ra_pc_inv env owner i pc s'"
    and "ra_flag s' = ra_flag s" "ra_cur s' = ra_cur s" "ra_dbs s' = ra_dbs s" "ra_store s' = ra_store s"
    and "\<forall>j d. j \<noteq> i \<longrightarrow> (ra_writer s' d = Some j \<longleftrightarrow> ra_writer s d = Some j)"
    and "\<forall>d. ra_writer s' d = Some i \<longrightarrow> (\<exists>c js txn. pc = ROpen c js d txn)"
    and "me_trace L M uuid (ra_done s') s0 = Some (ra_store s)"
  shows "ra_inv env owner s0 s'"
proof -
  have "ra_pc_inv env owner j (ra_pc s' j) s'" for j
  proof (cases "j = i")
    case True
    then show ?thesis using assms(3,4) by simp
  next
    case False
    have "ra_pc_inv env owner j (ra_pc s j) s" using assms(1) by (simp add: ra_inv_def)
    from ra_pc_inv_cong [OF this assms(5-8)] show ?thesis using assms(3,9) False by simp
  qed
  moreover have "\<exists>c js txn. ra_pc s' j = ROpen c js d txn" if "ra_writer s' d = Some j" for d j
    using that assms(1,3,9,10) by (cases "j = i") (auto simp: ra_inv_def)
  ultimately show ?thesis using assms(1,2,5-8,11) by (simp add: ra_inv_def)
qed

lemma ra_writer_open:
  "ra_inv env owner s0 s \<Longrightarrow> ra_writer s d = Some i \<Longrightarrow> \<exists>c js txn. ra_pc s i = ROpen c js d txn"
  unfolding ra_inv_def by blast

lemma ra_no_writer:
  "ra_inv env owner s0 s \<Longrightarrow> \<forall>c js d txn. ra_pc s i \<noteq> ROpen c js d txn \<Longrightarrow> ra_writer s d \<noteq> Some i"
  using ra_writer_open by blast

lemma ra_goto_inv:
  assumes "ra_inv env owner s0 s" "env = (L, M, G, uuid)" "\<forall>c js d txn. ra_pc s i \<noteq> ROpen c js d txn"
    and "\<forall>c js d txn. pc \<noteq> ROpen c js d txn" "ra_pc_inv env owner i pc s"
  shows "ra_inv env owner s0 (ra_goto i pc s)"
proof (rule ra_local_inv [OF assms(1,2)])
  show "ra_store (ra_goto i pc s) = ra_store s" by (simp add: ra_store_def ra_goto_def)
  then show "ra_pc_inv env owner i pc (ra_goto i pc s)"
    by (intro ra_pc_inv_cong [OF assms(5)]) (simp_all add: ra_goto_def)
  show "me_trace L M uuid (ra_done (ra_goto i pc s)) s0 = Some (ra_store s)"
    using assms(1,2) by (simp add: ra_inv_def ra_goto_def)
  show "\<forall>d. ra_writer (ra_goto i pc s) d = Some i \<longrightarrow> (\<exists>c js txn. pc = ROpen c js d txn)"
    using ra_no_writer [OF assms(1,3)] by (simp add: ra_goto_def)
qed (simp_all add: ra_goto_def)

lemma ra_return_inv:
  assumes "ra_inv env owner s0 s" "env = (L, M, G, uuid)" "\<forall>c js d txn. ra_pc s i \<noteq> ROpen c js d txn"
    and "me_run L M uuid c (ra_store s) = (r, ra_store s)"
  shows "ra_inv env owner s0 (ra_return i c r s)"
proof (rule ra_local_inv [OF assms(1,2)])
  show "ra_store (ra_return i c r s) = ra_store s" by (simp add: ra_store_def ra_defs)
  show "ra_pc (ra_return i c r s) = (ra_pc s)(i := RIdle)" by (simp add: ra_defs)
  show "me_trace L M uuid (ra_done (ra_return i c r s)) s0 = Some (ra_store s)"
    using assms(1,2,4) by (simp add: ra_inv_def ra_defs me_trace_append)
  show "\<forall>d. ra_writer (ra_return i c r s) d = Some i \<longrightarrow> (\<exists>c js txn. RIdle = ROpen c js d txn)"
    using ra_no_writer [OF assms(1,3)] by (simp add: ra_defs)
qed (simp_all add: ra_defs)

lemma ra_open_inv:
  assumes "ra_inv env owner s0 s" "env = (L, M, G, uuid)" "\<forall>c js d txn. ra_pc s i \<noteq> ROpen c js d txn"
    and "ra_owned owner i c" "ra_flag s" "\<forall>p n. c = MeDelete p n \<longrightarrow> js = ra_rows_of env p (ra_store s)"
  shows "ra_inv env owner s0 (ra_open i c js s)"
proof -
  have "me_db (ra_store s) \<noteq> None"
    using assms(1,5) by (auto simp: ra_inv_def me_ok_def ra_store_def split: prod.splits option.splits)
  then obtain d where d: "ra_cur s = Some d" by (auto simp: ra_store_def)
  then have "ra_open i c js s = ra_goto i (RWait c js d) s" by (simp add: ra_open_def)
  then show ?thesis using ra_goto_inv [OF assms(1-3)] assms(4-6) d by simp
qed

lemma ra_lock_inv:
  assumes "ra_inv env owner s0 s" "env = (L, M, G, uuid)" "ra_pc s i = RWait c js d" "ra_lock M i c js d s = Some s'"
  shows "ra_inv env owner s0 s'"
proof -
  have "ra_pc_inv env owner i (ra_pc s i) s" using assms(1) by (simp add: ra_inv_def)
  then have w: "ra_owned owner i c" "ra_flag s" "ra_cur s = Some d"
    "\<forall>p n. c = MeDelete p n \<longrightarrow> js = ra_rows_of env p (ra_store s)" using assms(3) by simp_all
  let ?t = "(ra_goto i (ROpen c js d (md_txn M (ra_dbs s ! d) True)) s)\<lparr>ra_writer := (ra_writer s)(d \<mapsto> i)\<rparr>"
  have s': "s' = ?t" and free: "ra_writer s d = None"
    using assms(4) by (auto simp: ra_lock_def split: if_splits)
  have st: "ra_store s' = ra_store s" by (simp add: s' ra_store_def ra_goto_def)
  have f: "ra_flag s' = ra_flag s" "ra_cur s' = ra_cur s" "ra_dbs s' = ra_dbs s"
    "ra_writer s' = (ra_writer s)(d \<mapsto> i)" by (simp_all add: s' ra_goto_def)
  have no: "\<forall>c js d txn. ra_pc s i \<noteq> ROpen c js d txn" using assms(3) by simp
  show ?thesis
  proof (rule ra_local_inv [OF assms(1,2) _ _ _ _ _ st])
    show "ra_pc s' = (ra_pc s)(i := ROpen c js d (md_txn M (ra_dbs s ! d) True))" by (simp add: s' ra_goto_def)
    show "ra_pc_inv env owner i (ROpen c js d (md_txn M (ra_dbs s ! d) True)) s'"
      using assms(2) w by (simp add: st f)
    show "\<forall>j e. j \<noteq> i \<longrightarrow> (ra_writer s' e = Some j \<longleftrightarrow> ra_writer s e = Some j)" using free by (auto simp: s')
    show "\<forall>e. ra_writer s' e = Some i \<longrightarrow> (\<exists>c' js' txn. ROpen c js d (md_txn M (ra_dbs s ! d) True) = ROpen c' js' e txn)"
      using ra_no_writer [OF assms(1) no] by (auto simp: s' split: if_splits)
    show "me_trace L M uuid (ra_done s') s0 = Some (ra_store s)" using assms(1,2) by (simp add: s' ra_inv_def ra_goto_def)
  qed (simp_all add: s' ra_goto_def)
qed

lemma ra_finish_inv:
  assumes "me_rely env" "env = (L, M, G, uuid)" "ra_inv env owner s0 s" "ra_pc s i = ROpen c js d txn"
    and "ra_finish L M uuid i c js d txn s = Some s'"
  shows "ra_inv env owner s0 s'"
proof -
  have inv: "ra_pc_inv env owner j (ra_pc s j) s" for j using assms(3) by (simp add: ra_inv_def)
  then have open_i: "ra_pc_inv env owner i (ROpen c js d txn) s" using assms(4) by metis
  have ok: "me_ok env (ra_store s)" "d < length (ra_dbs s)" using assms(3) open_i by (simp_all add: ra_inv_def)
  obtain r where run: "me_run L M uuid c (ra_store s) = (r, ra_store s')" "me_ok env (ra_store s')"
    "ra_done s' = ra_done s @ [(i, c, r)]" "ra_pc s' = (ra_pc s)(i := RIdle)"
    "ra_writer s' = (ra_writer s)(d := None)" "ra_flag s' = ra_flag s" "ra_cur s' = ra_cur s"
    "length (ra_dbs s') = length (ra_dbs s)"
    using ra_finish_run [OF assms(1) ok(1) assms(2) open_i ok(2)] assms(5) by auto
  have "ra_pc_inv env owner j (ra_pc s' j) s'" for j
  proof (cases "j = i")
    case False
    have rows: "ra_rows_of env p (ra_store s') = ra_rows_of env p (ra_store s)" if "ra_owned owner j (MeDelete p n)" for p n
      using me_run_frame [OF assms(1) ok(1) assms(2) _ _ run(1), of owner i p] open_i that False
      by (simp add: ra_owned_def)
    have "ra_pc_inv env owner j (ra_pc s j) s'"
    proof (cases "ra_pc s j")
      case (ROpen c' js' d' txn')
      then have "ra_writer s d = Some i" "ra_writer s d = Some j" using inv [of j] open_i by auto
      then show ?thesis using False by simp
    qed (use inv [of j] rows run(6,7) in auto)
    then show ?thesis using False run(4) by simp
  qed (simp add: run(4))
  moreover have "\<exists>c js txn. ra_pc s' j = ROpen c js e txn" if "ra_writer s' e = Some j" for e j
  proof -
    have "ra_writer s e = Some j" "e \<noteq> d" using that run(5) by (auto split: if_splits)
    then obtain c' js' txn' where j: "ra_pc s j = ROpen c' js' e txn'"
      using ra_writer_open [OF assms(3)] by blast
    then have "j \<noteq> i" using assms(4) \<open>e \<noteq> d\<close> by auto
    then show ?thesis using j run(4) by simp
  qed
  ultimately show ?thesis using assms(2,3) run by (simp add: ra_inv_def me_trace_append)
qed

lemma ra_check_inv:
  assumes "env = (L, M, G, uuid)" "ra_inv env owner s0 s" "ra_pc s i = REntered c" "ra_admitted (ra_flag s) owner i c"
  shows "ra_inv env owner s0 (ra_check i c s)"
proof (cases "ra_owned owner i c")
  case own: True
  show ?thesis
  proof (cases "ra_flag s")
    case True
    then have "ra_check i c s = ra_goto i (RChecked c) s"
      using own by (cases c) (simp_all add: ra_check_def ra_owned_def)
    then show ?thesis using ra_goto_inv [OF assms(2,1)] assms(3) own True by simp
  next
    case False
    then have "ra_check i c s = ra_return i c (Err journal_not_connected) s"
      using own by (cases c) (simp_all add: ra_check_def ra_owned_def)
    moreover have "me_run L M uuid c (ra_store s) = (Err journal_not_connected, ra_store s)"
      using own False
      by (cases c) (simp_all add: ra_owned_def me_run_def me_WriteEvents_def me_DeleteEvents_def ra_store_def)
    ultimately show ?thesis using ra_return_inv [OF assms(2,1)] assms(3) by simp
  qed
next
  case False
  then have flag: "ra_flag s" "c = MeConnect \<or> c = MePing" using assms(4) by (simp_all add: ra_admitted_def)
  then have "ra_check i c s = ra_return i c (Ok ()) s" by (auto simp: ra_check_def)
  moreover have "me_run L M uuid c (ra_store s) = (Ok (), ra_store s)"
    using flag by (auto simp: me_run_def me_Connect_def me_Ping_def ra_store_def)
  ultimately show ?thesis using ra_return_inv [OF assms(2,1)] assms(3) by simp
qed

lemma ra_act_inv:
  assumes "me_rely env" "env = (L, M, G, uuid)" "ra_inv env owner s0 s" "ra_pc s i = RChecked c"
    and "ra_owned owner i c" "ra_flag s" "ra_act M i c s = Some s'"
  shows "ra_inv env owner s0 s'"
proof (cases c)
  case (MeWrite es)
  then show ?thesis
    using ra_open_inv [OF assms(3,2) _ assms(5,6), of "[]"] assms(4,7) by (auto simp: ra_act_def)
next
  case (MeDelete p n)
  have st: "me_ok env (ra_store s)" "me_connected (ra_store s)" "nul_free p"
    using assms(3,5,6) MeDelete by (simp_all add: ra_inv_def ra_store_def ra_owned_def me_call_ok_def)
  obtain d where d: "ra_cur s = Some d"
    "md_get M journalTableName persistenceIDIndex [ArgString p] (md_txn M (ra_dbs s ! d) False) =
      Ok (map Boxed (ra_rows_of env p (ra_store s)))"
    by (rule me_queries [OF assms(1) st(1) assms(2) st(2)]) (use st(3) in \<open>auto simp: ra_store_def\<close>)
  then have "s' = ra_goto i (RRead p n (ra_rows_of env p (ra_store s))) s"
    using assms(7) MeDelete by (simp add: ra_act_def)
  then show ?thesis using ra_goto_inv [OF assms(3,2)] assms(4-6) MeDelete by simp
qed (use assms(5) in \<open>simp_all add: ra_owned_def\<close>)

lemma ra_answer_inv:
  assumes "ra_inv env owner s0 s" "env = (L, M, G, uuid)" "\<forall>c js d txn. ra_pc s i \<noteq> ROpen c js d txn"
  shows "ra_inv env owner s0 (ra_answer i q a s)"
proof (rule ra_local_inv [OF assms(1,2)])
  show "ra_store (ra_answer i q a s) = ra_store s" by (simp add: ra_store_def ra_answer_def)
  show "ra_pc (ra_answer i q a s) = (ra_pc s)(i := RIdle)" by (simp add: ra_answer_def)
  show "me_trace L M uuid (ra_done (ra_answer i q a s)) s0 = Some (ra_store s)"
    using assms(1,2) by (simp add: ra_inv_def ra_answer_def)
  show "\<forall>d. ra_writer (ra_answer i q a s) d = Some i \<longrightarrow> (\<exists>c js txn. RIdle = ROpen c js d txn)"
    using ra_no_writer [OF assms(1,3)] by (simp add: ra_answer_def)
qed (simp_all add: ra_answer_def)

lemma ra_exec_inv:
  assumes "me_rely env" "env = (L, M, G, uuid)" "ra_inv env owner s0 s"
    and "\<forall>c. x = Call c \<longrightarrow> ra_admitted (me_connected s0) owner i c"
    and "ra_exec L M uuid i x s = Some s'"
  shows "ra_inv env owner s0 s'"
proof (cases x)
  case (Call c)
  then have "ra_pc s i = RIdle" "s' = ra_goto i (REntered c) s"
    using assms(5) by (auto simp: ra_exec_def split: ra_pc.splits)
  moreover have "ra_flag s = me_connected s0" using assms(3) by (simp add: ra_inv_def)
  ultimately show ?thesis using ra_goto_inv [OF assms(3,2)] assms(4) Call by simp
next
  case (Ask q)
  then have "ra_pc s i = RIdle" "s' = ra_goto i (RAsked q) s"
    using assms(5) by (auto simp: ra_exec_def split: ra_pc.splits)
  then show ?thesis using ra_goto_inv [OF assms(3,2)] by simp
next
  case Go
  have inv: "ra_pc_inv env owner i (ra_pc s i) s" using assms(3) by (simp add: ra_inv_def)
  note exec = assms(5) [unfolded Go]
  show ?thesis
  proof (cases "ra_pc s i")
    case (REntered c)
    then show ?thesis using ra_check_inv [OF assms(2,3) REntered] exec inv by (simp add: ra_exec_def)
  next
    case (RChecked c)
    then show ?thesis using ra_act_inv [OF assms(1-3) RChecked] exec inv by (simp add: ra_exec_def)
  next
    case (RRead p n js)
    then show ?thesis
      using ra_open_inv [OF assms(3,2), of i "MeDelete p n" js] exec inv by (auto simp: ra_exec_def)
  next
    case (RWait c js d)
    then show ?thesis using ra_lock_inv [OF assms(3,2) RWait] exec by (simp add: ra_exec_def)
  next
    case (ROpen c js d txn)
    then show ?thesis using ra_finish_inv [OF assms(1,2,3) ROpen] exec by (simp add: ra_exec_def)
  next
    case (RAsked q)
    then show ?thesis
      using ra_goto_inv [OF assms(3,2), of i "RAsking q"] ra_answer_inv [OF assms(3,2)] exec
      by (auto simp: ra_exec_def ra_ask_check_def split: if_splits)
  next
    case (RAsking q)
    then show ?thesis using ra_answer_inv [OF assms(3,2)] exec by (auto simp: ra_exec_def ra_ask_def)
  qed (use exec inv in \<open>simp_all add: ra_exec_def\<close>)
qed

lemma ra_run_inv:
  assumes "me_rely env" "env = (L, M, G, uuid)" "ra_inv env owner s0 s"
    and "\<forall>(i, x) \<in> set es. \<forall>c. x = Call c \<longrightarrow> ra_admitted (me_connected s0) owner i c" "ra_run L M uuid es s = Some s'"
  shows "ra_inv env owner s0 s'"
  using assms(3-5)
proof (induction es arbitrary: s)
  case (Cons e es)
  obtain i x where e: "e = (i, x)" by (cases e)
  then obtain t where t: "ra_exec L M uuid i x s = Some t" "ra_run L M uuid es t = Some s'"
    using Cons.prems(3) by (auto split: option.splits)
  have "ra_inv env owner s0 t"
    using ra_exec_inv [OF assms(1,2) Cons.prems(1) _ t(1)] Cons.prems(2) e by auto
  then show ?case using Cons.IH t(2) Cons.prems(2) by simp
qed simp

text \<open>
  The reads: each answer is the one that the store gives after the calls that had returned when
  it was read, made one after the other.
\<close>

definition ra_answered ::
  "('t, 'm, 'db, 'txn) meenv \<Rightarrow> 'db mem_events \<Rightarrow> ('db, 'txn) ra_state \<Rightarrow> bool" where
  "ra_answered env s0 s \<longleftrightarrow>
     (\<forall>(i, k, q, a) \<in> set (ra_answers s). k \<le> length (ra_done s) \<and>
        (\<exists>s'. me_trace (fst env) (fst (snd env)) (snd (snd (snd env))) (take k (ra_done s)) s0 = Some s' \<and>
           a = me_ask (fst env) (fst (snd env)) q s'))"

lemma ra_answered_init: "ra_answered env s (ra_init s)"
  by (simp add: ra_answered_def ra_init_def)

lemma ra_exec_logs:
  assumes "env = (L, M, G, uuid)" "ra_inv env owner s0 s" "ra_exec L M uuid i x s = Some s'"
  shows "(\<exists>cs. ra_done s' = ra_done s @ cs) \<and>
    (ra_answers s' = ra_answers s \<or>
     (\<exists>q. ra_answers s' = ra_answers s @ [(i, length (ra_done s), q, me_ask L M q (ra_store s))]))"
proof -
  have asking: "(ra_store s)\<lparr>me_connected := True\<rparr> = ra_store s" if "ra_pc s i = RAsking q" for q
  proof -
    have "ra_pc_inv env owner i (ra_pc s i) s" using assms(2) by (simp add: ra_inv_def)
    then show ?thesis using that by (simp add: ra_store_def)
  qed
  show ?thesis using assms(3) asking
    by (auto simp: ra_exec_def ra_check_def ra_act_def ra_open_def ra_lock_def ra_finish_def ra_ask_check_def ra_ask_def ra_answer_def
        split: ra_event.splits ra_pc.splits me_call.splits option.splits res.splits prod.splits if_splits)
qed

lemma ra_exec_answered:
  assumes "env = (L, M, G, uuid)" "ra_inv env owner s0 s" "ra_answered env s0 s" "ra_exec L M uuid i x s = Some s'"
  shows "ra_answered env s0 s'"
proof -
  obtain cs where cs: "ra_done s' = ra_done s @ cs" using ra_exec_logs [OF assms(1,2,4)] by blast
  have now: "me_trace L M uuid (ra_done s) s0 = Some (ra_store s)" using assms(1,2) by (simp add: ra_inv_def)
  let ?ok = "\<lambda>s (i :: nat, k, q, a). k \<le> length (ra_done s) \<and>
    (\<exists>t. me_trace L M uuid (take k (ra_done s)) s0 = Some t \<and> a = me_ask L M q t)"
  have mono: "?ok s e \<Longrightarrow> ?ok s' e" for e by (auto simp: cs)
  have old: "\<forall>e \<in> set (ra_answers s). ?ok s' e"
    using assms(1,3) by (intro ballI mono) (simp add: ra_answered_def)
  have new: "?ok s' (i, length (ra_done s), q, me_ask L M q (ra_store s))" for q
    using now by (simp add: cs)
  have "\<forall>e \<in> set (ra_answers s'). ?ok s' e"
    using ra_exec_logs [OF assms(1,2,4)]
  proof (elim conjE disjE exE)
    fix q assume "ra_answers s' = ra_answers s @ [(i, length (ra_done s), q, me_ask L M q (ra_store s))]"
    then show ?thesis using old new [of q] by simp
  qed (use old in simp)
  then show ?thesis using assms(1) by (simp add: ra_answered_def)
qed

lemma ra_run_answered:
  assumes "me_rely env" "env = (L, M, G, uuid)" "ra_inv env owner s0 s" "ra_answered env s0 s"
    and "\<forall>(i, x) \<in> set es. \<forall>c. x = Call c \<longrightarrow> ra_admitted (me_connected s0) owner i c" "ra_run L M uuid es s = Some s'"
  shows "ra_answered env s0 s'"
  using assms(3-6)
proof (induction es arbitrary: s)
  case (Cons e es)
  obtain i x where e: "e = (i, x)" by (cases e)
  then obtain t where t: "ra_exec L M uuid i x s = Some t" "ra_run L M uuid es t = Some s'"
    using Cons.prems(4) by (auto split: option.splits)
  have "ra_inv env owner s0 t"
    using ra_exec_inv [OF assms(1,2) Cons.prems(1) _ t(1)] Cons.prems(3) e by auto
  moreover have "ra_answered env s0 t" using ra_exec_answered [OF assms(2) Cons.prems(1,2) t(1)] .
  ultimately show ?case using Cons.IH t(2) Cons.prems(3) by simp
qed simp

text \<open>No deadlock: who waits for a write transaction waits for a goroutine that can commit.\<close>

lemma ra_commit_progress:
  assumes "me_rely env" "env = (L, M, G, uuid)" "ra_inv env owner s0 s" "ra_pc s j = ROpen c js d txn"
  shows "ra_exec L M uuid j Go s \<noteq> None"
proof -
  have "ra_pc_inv env owner j (ra_pc s j) s" using assms(3) by (simp add: ra_inv_def)
  then have op: "ra_pc_inv env owner j (ROpen c js d txn) s" by (simp add: assms(4))
  have ok: "me_ok env (ra_store s)" "d < length (ra_dbs s)" using assms(3) op by (simp_all add: ra_inv_def)
  from ra_finish_run [OF assms(1) ok(1) assms(2) op ok(2)] show ?thesis by (auto simp: ra_steps(6) [OF assms(4)])
qed

lemma ra_progress:
  assumes "me_rely env" "env = (L, M, G, uuid)" "ra_inv env owner s0 s" "ra_pc s i \<noteq> RIdle"
  shows "\<exists>j. ra_pc s j \<noteq> RIdle \<and> ra_exec L M uuid j Go s \<noteq> None"
proof -
  have inv: "ra_pc_inv env owner i (ra_pc s i) s" using assms(3) by (simp add: ra_inv_def)
  have go: ?thesis if "ra_exec L M uuid i Go s \<noteq> None" using that assms(4) by blast
  show ?thesis
  proof (cases "ra_pc s i")
    case (RChecked c)
    then have own: "ra_owned owner i c" using inv by simp
    have "ra_act M i c s \<noteq> None"
      using own by (cases c) (simp_all add: ra_owned_def ra_act_def split: option.splits res.splits)
    then show ?thesis using go RChecked by (simp add: ra_exec_def)
  next
    case (RWait c js d)
    show ?thesis
    proof (cases "ra_writer s d")
      case None
      then show ?thesis using go RWait by (simp add: ra_exec_def ra_lock_def)
    next
      case (Some k)
      then obtain c' js' txn where "ra_pc s k = ROpen c' js' d txn" using ra_writer_open [OF assms(3)] by blast
      then show ?thesis using ra_commit_progress [OF assms(1-3)] by (intro exI [of _ k]) auto
    qed
  next
    case (ROpen c js d txn)
    then show ?thesis using go ra_commit_progress [OF assms(1-3) ROpen] by blast
  qed (use assms(4) inv go in \<open>simp_all add: ra_exec_def\<close>)
qed

section \<open>Two deletes of one id\<close>

lemma delete_obj_missing:
  assumes "journal_ok uuid n j" "uuid_ok uuid" "map_of (T journalPK) (jr_Ordering j @ nul) = None"
  shows "delete_obj E journalTable journal_fields j T = None"
proof -
  have "jr_Ordering j \<noteq> []" "jr_PersistenceID j \<noteq> []"
    using assms(1,2) unfolding journal_ok_def uuid_ok_def by metis+
  from journal_keys_Some [OF this] obtain ks where
    "object_keys E journalTable (journal_fields j) = Some (jr_Ordering j @ nul, ks)" .
  then show ?thesis using assms(3) by (simp add: delete_obj_def journal_names)
qed

text \<open>A record that was deleted in the meantime makes the loop fail.\<close>

lemma me_delete_loop_missing:
  assumes "memdb_contract M G" "uuid_ok uuid"
    and "fst (mg_txn G t) = journalSchema" "journal_trees uuid n (jt G t)" "distinct js"
    and "\<forall>y \<in> set js. journal_ok uuid n y \<and> (\<forall>z \<in> set (journal_rows (jt G t)). jr_Ordering z = jr_Ordering y \<longrightarrow> z = y)"
    and "x \<in> set js" "x \<notin> set (journal_rows (jt G t))" "jr_SequenceNumber x \<le> k"
  shows "\<exists>e t'. me_delete_loop M k js t = (Err e, t')"
  using assms(3-8)
proof (induction js arbitrary: t)
  case (Cons j js)
  have tb: "map_of (fst (mg_txn G t)) journalTableName = Some journalTable"
    by (simp add: Cons.prems(1) journal_table)
  note eff = memdb_facts(5) [OF assms(1) tb, of journal_fields j]
  show ?case
  proof (cases "jr_SequenceNumber j \<le> k")
    case le: True
    show ?thesis
    proof (cases "j \<in> set (journal_rows (jt G t))")
      case True
      obtain T where T: "delete_obj (mg_enc G) journalTable journal_fields j (jt G t) = Some T"
        "journal_trees uuid n T" "journal_rows T = filter (\<lambda>x. x \<noteq> j) (journal_rows (jt G t))"
        using delete_journal [OF Cons.prems(2) assms(2) True] by blast
      with eff obtain t1 where t1: "md_delete M journal_fields journalTableName j t = (Ok (), t1)"
        "fst (mg_txn G t1) = journalSchema" "jt G t1 = T"
        by (auto dest!: effect_Some simp: Cons.prems(1))
      have "x \<in> set js" using Cons.prems(5,6) True by auto
      with Cons.IH [of t1] t1 T Cons.prems show ?thesis by (simp add: le)
    next
      case False
      have "map_of (jt G t journalPK) (jr_Ordering j @ nul) = None"
        using Cons.prems(4) False by (force simp: map_of_eq_None_iff journal_trees_mem(1) [OF Cons.prems(2)])
      then have "delete_obj (mg_enc G) journalTable journal_fields j (jt G t) = None"
        using Cons.prems(4) by (intro delete_obj_missing [OF _ assms(2), of n]) simp_all
      with eff obtain e t1 where "md_delete M journal_fields journalTableName j t = (Err e, t1)"
        by (auto dest: effect_None)
      then show ?thesis by (simp add: le)
    qed
  next
    case False
    then have "x \<in> set js" using Cons.prems(5) assms(9) by auto
    then show ?thesis using Cons.IH [of t] Cons.prems False by simp
  qed
qed simp

text \<open>What two deletes do that fetched the same records: the second finds one of them gone.\<close>

lemma two_deletes:
  assumes "me_rely env" "me_ok env s" "env = (L, M, G, uuid)" "me_db s = Some db" "me_connected s"
    and "x \<in> set (ra_rows_of env p s)" "jr_SequenceNumber x \<le> min m n"
  shows "\<exists>t1 e t2. me_delete_loop M m (ra_rows_of env p s) (md_txn M db True) = (Ok (), t1) \<and>
    me_delete_loop M n (ra_rows_of env p s) (md_txn M (md_commit M t1) True) = (Err e, t2) \<and>
    journal_rows (snd (mg_db G (md_commit M t1)) journalTableName) =
      filter (\<lambda>j. \<not> (jr_PersistenceID j = p \<and> jr_SequenceNumber j \<le> m)) (me_rows env s)"
proof -
  have C: "memdb_contract M G" "uuid_ok uuid" using assms(1,3) by (simp_all add: me_rely_def)
  have db: "fst (mg_db G db) = journalSchema" "journal_trees uuid (me_drawn s) (snd (mg_db G db) journalTableName)"
    "journal_rows (snd (mg_db G db) journalTableName) = me_rows env s"
    using assms(2,4,5) by (simp_all add: assms(3) me_ok_def me_rows_def)
  let ?js = "ra_rows_of env p s"
  have t: "mg_txn G (md_txn M d wr) = mg_db G d" for d wr by (rule memdb_facts(2) [OF C(1)])
  have dist: "distinct ?js" using me_rows_sorted(2) [OF assms(2)] by simp
  obtain t1 where t1: "me_delete_loop M m ?js (md_txn M db True) = (Ok (), t1)"
    "fst (mg_txn G t1) = journalSchema" "journal_trees uuid (me_drawn s) (jt G t1)"
    "journal_rows (jt G t1) = filter (\<lambda>j. \<not> (j \<in> set ?js \<and> jr_SequenceNumber j \<le> m)) (me_rows env s)"
    using me_delete_loop_spec [OF C, of "md_txn M db True" "me_drawn s" ?js m] db dist by (auto simp: t)
  have c1: "mg_db G (md_commit M t1) = mg_txn G t1" by (rule memdb_facts(3) [OF C(1)])
  have "\<forall>y \<in> set ?js. journal_ok uuid (me_drawn s) y \<and>
      (\<forall>z \<in> set (journal_rows (jt G t1)). jr_Ordering z = jr_Ordering y \<longrightarrow> z = y)"
    using journal_rows_ok [OF db(2)] journal_rows_inj(1) [OF db(2)] db(3) by (auto simp: t1(4))
  moreover have "x \<notin> set (journal_rows (jt G t1))" "jr_SequenceNumber x \<le> n" using assms(6,7) by (auto simp: t1(4))
  ultimately obtain e t2 where "me_delete_loop M n ?js (md_txn M (md_commit M t1) True) = (Err e, t2)"
    using me_delete_loop_missing [OF C, of "md_txn M (md_commit M t1) True" "me_drawn s" ?js x n] t1(2,3) dist assms(6)
    by (auto simp: t c1)
  moreover have "journal_rows (snd (mg_db G (md_commit M t1)) journalTableName) =
      filter (\<lambda>j. \<not> (jr_PersistenceID j = p \<and> jr_SequenceNumber j \<le> m)) (me_rows env s)"
    by (auto simp: c1 t1(4) intro!: filter_cong)
  ultimately show ?thesis using t1(1) by blast
qed

end
