(* ===== verification/EventRaceProps.thy ===== *)
theory EventRaceProps
  imports EventsMemoryRace EventProps
begin

text \<open>
  The memory event store under goroutines that call it at the same time: with one writer per
  persistence id the calls act one after the other; two deletes of one id, and two calls of
  \<open>Connect\<close>, do not.
\<close>

text \<open>
  C6. Where every persistence id is written and deleted by one goroutine only, as an actor does,
  the memory store serves any number of goroutines, and any number of readers, as if the calls
  were made one after the other, in the order in which they return: with the same results, the
  same records and the same database, however the accesses interleave. Every read (a replay, a
  latest event, a page) gives the answer of the store at one moment between two calls, namely
  after those that had returned when it read. No schedule deadlocks: as long as a call is under
  way, some goroutine inside a call can take its next step. The calls admitted are the writes
  and deletes of the owner, and, on a connected store, \<open>Ping\<close> and repeated calls of \<open>Connect\<close> by
  anyone. A \<open>Disconnect\<close>, and a \<open>Connect\<close> of a store that is not connected, are excluded: with
  them the calls do not serialize, as the schedule \<open>connect_write_schedule\<close> below shows.
\<close>

theorem actors_serialize:
  assumes "me_rely (L, M, G, uuid)" "me_ok (L, M, G, uuid) s"
    and "\<forall>(i, x) \<in> set es. \<forall>c. x = Call c \<longrightarrow> ra_admitted (me_connected s) owner i c"
    and "ra_run L M uuid es (ra_init s) = Some R"
  shows "me_trace L M uuid (ra_done R) s = Some (ra_store R) \<and>
    (\<forall>(i, k, q, a) \<in> set (ra_answers R). k \<le> length (ra_done R) \<and>
       (\<exists>s'. me_trace L M uuid (take k (ra_done R)) s = Some s' \<and> a = me_ask L M q s')) \<and>
    (\<forall>i. ra_pc R i \<noteq> RIdle \<longrightarrow> (\<exists>j. ra_pc R j \<noteq> RIdle \<and> ra_exec L M uuid j Go R \<noteq> None))"
proof -
  note start = ra_inv_init [OF assms(2)]
  have inv: "ra_inv (L, M, G, uuid) owner s R"
    by (rule ra_run_inv [OF assms(1) refl start assms(3,4)])
  have "ra_answered (L, M, G, uuid) s R"
    by (rule ra_run_answered [OF assms(1) refl start ra_answered_init assms(3,4)])
  moreover have "me_trace L M uuid (ra_done R) s = Some (ra_store R)" using inv by (simp add: ra_inv_def)
  ultimately show ?thesis using ra_progress [OF assms(1) refl inv] by (auto simp: ra_answered_def)
qed

definition wit_actors :: "(nat \<times> ra_event) list" where
  "wit_actors = [(0, Call (MeDelete ''p'' 2)), (1, Call (MeWrite [Some (ev_wit ''q'' 7 70)])),
     (2, Ask (QReplay ''p'' 1 3 3)), (0, Go), (1, Go), (3, Call MePing), (2, Go), (0, Go), (1, Go), (3, Go), (1, Go),
     (1, Go), (2, Go), (0, Go), (0, Go), (0, Go)]"

theorem actors_serialize_witness:
  "\<exists>R. ra_run ref_protolib ref_memdb wit_uuid wit_actors (ra_init wit_journal) = Some R \<and>
     map fst (ra_done R) = [3, 1, 0] \<and> map (\<lambda>(i, k, q, a). (i, k)) (ra_answers R) = [(2, 2)] \<and>
     me_trace ref_protolib ref_memdb wit_uuid (ra_done R) wit_journal = Some (ra_store R)"
proof -
  have "case ra_run ref_protolib ref_memdb wit_uuid wit_actors (ra_init wit_journal) of
      None \<Rightarrow> False | Some R \<Rightarrow> map fst (ra_done R) = [3, 1, 0] \<and> map (\<lambda>(i, k, q, a). (i, k)) (ra_answers R) = [(2, 2)]"
    by code_simp
  then obtain R where R: "ra_run ref_protolib ref_memdb wit_uuid wit_actors (ra_init wit_journal) = Some R"
    "map fst (ra_done R) = [3, 1, 0]" "map (\<lambda>(i, k, q, a). (i, k)) (ra_answers R) = [(2, 2)]"
    by (auto split: option.splits)
  have ok: "me_ok me_wit_env wit_journal" using wit_journal_inv by (simp add: me_inv_def)
  have "me_connected wit_journal" by code_simp
  then have own: "\<forall>(i, x) \<in> set wit_actors. \<forall>c. x = Call c \<longrightarrow>
      ra_admitted (me_connected wit_journal) (\<lambda>p. if p = ''p'' then 0 else 1) i c"
    by (simp add: wit_actors_def ra_admitted_def ra_owned_def me_call_ok_def ev_wit_def nul_free_def)
  from actors_serialize [OF me_rely_wit [unfolded me_wit_env_def] ok [unfolded me_wit_env_def] own R(1)] R
  show ?thesis by (intro exI [of _ R]) simp
qed

text \<open>Both fetch their records before either of them deletes.\<close>

definition delete_schedule :: "string \<Rightarrow> u64 \<Rightarrow> u64 \<Rightarrow> (nat \<times> ra_event) list" where
  "delete_schedule p m n =
     [(0, Call (MeDelete p m)), (1, Call (MeDelete p n)), (0, Go), (1, Go), (0, Go), (1, Go),
      (0, Go), (0, Go), (0, Go), (1, Go), (1, Go), (1, Go)]"

text \<open>
  C35. Two deletes of one persistence id in the memory store that overlap do not act one after the
  other: where both have fetched a record in their range, the one that commits second finds the
  record gone, gives an error, and deletes nothing, although a delete on a connected store never
  fails on its own; the records up to its sequence number that the first one left stay.
\<close>

theorem concurrent_deletes_fail:
  assumes "me_rely (L, M, G, uuid)" "me_ok (L, M, G, uuid) s" "me_connected s" "nul_free p"
    and "x \<in> set (me_rows (L, M, G, uuid) s)" "jr_PersistenceID x = p" "jr_SequenceNumber x \<le> min m n"
  shows "\<exists>R err. ra_run L M uuid (delete_schedule p m n) (ra_init s) = Some R \<and>
    ra_done R = [(0, MeDelete p m, Ok ()), (1, MeDelete p n, Err err)] \<and>
    me_rows (L, M, G, uuid) (ra_store R) =
      filter (\<lambda>j. \<not> (jr_PersistenceID j = p \<and> jr_SequenceNumber j \<le> m)) (me_rows (L, M, G, uuid) s)"
proof -
  define js where "js = filter (\<lambda>j. jr_PersistenceID j = p) (me_rows (L, M, G, uuid) s)"
  obtain db where db: "me_db s = Some db"
    "md_get M journalTableName persistenceIDIndex [ArgString p] (md_txn M db False) = Ok (map Boxed js)"
    unfolding js_def by (rule me_queries [OF assms(1,2) refl assms(3)]) (use assms(4) in simp)
  have x: "x \<in> set (filter (\<lambda>j. jr_PersistenceID j = p) (me_rows (L, M, G, uuid) s))" using assms(5,6) by simp
  obtain t1 e t2 where loops: "me_delete_loop M m js (md_txn M db True) = (Ok (), t1)"
    "me_delete_loop M n js (md_txn M (md_commit M t1) True) = (Err e, t2)"
    "journal_rows (snd (mg_db G (md_commit M t1)) journalTableName) =
      filter (\<lambda>j. \<not> (jr_PersistenceID j = p \<and> jr_SequenceNumber j \<le> m)) (me_rows (L, M, G, uuid) s)"
    using two_deletes [OF assms(1,2) refl db(1) assms(3) x assms(7)] unfolding js_def by blast
  have "\<exists>R err. ra_run L M uuid (delete_schedule p m n) (ra_init s) = Some R \<and>
    ra_done R = [(0, MeDelete p m, Ok ()), (1, MeDelete p n, Err err)] \<and> me_db (ra_store R) = Some (md_commit M t1)"
    using db assms(3) loops(1,2)
    by (simp add: delete_schedule_def ra_steps ra_check_def ra_act_def ra_open_def ra_lock_def ra_finish_def ra_start ra_store_def)
  then obtain R err where R: "ra_run L M uuid (delete_schedule p m n) (ra_init s) = Some R"
    "ra_done R = [(0, MeDelete p m, Ok ()), (1, MeDelete p n, Err err)]"
    "me_db (ra_store R) = Some (md_commit M t1)" by blast
  then have "me_rows (L, M, G, uuid) (ra_store R) = journal_rows (snd (mg_db G (md_commit M t1)) journalTableName)"
    by (simp add: me_rows_def)
  with loops(3) R(1,2) show ?thesis by (intro exI [of _ R] exI [of _ err]) simp
qed

theorem concurrent_deletes_fail_witness:
  "\<exists>R err. ra_run ref_protolib ref_memdb wit_uuid (delete_schedule ''p'' 1 3) (ra_init wit_journal) = Some R \<and>
     ra_done R = [(0, MeDelete ''p'' 1, Ok ()), (1, MeDelete ''p'' 3, Err err)] \<and>
     2 \<in> jr_SequenceNumber ` set (me_rows me_wit_env (ra_store R))"
proof -
  have ok: "me_ok me_wit_env wit_journal" using wit_journal_inv by (simp add: me_inv_def)
  have con: "me_connected wit_journal" by code_simp
  have "\<exists>x \<in> set (me_rows me_wit_env wit_journal). jr_PersistenceID x = ''p'' \<and> jr_SequenceNumber x = 1"
    and two: "2 \<in> jr_SequenceNumber ` set (filter (\<lambda>j. \<not> (jr_PersistenceID j = ''p'' \<and> jr_SequenceNumber j \<le> 1))
      (me_rows me_wit_env wit_journal))" by code_simp+
  then obtain x where x: "x \<in> set (me_rows me_wit_env wit_journal)" "jr_PersistenceID x = ''p''"
    "jr_SequenceNumber x \<le> min 1 3" by auto
  have run: "\<exists>R err. ra_run ref_protolib ref_memdb wit_uuid (delete_schedule ''p'' 1 3) (ra_init wit_journal) = Some R \<and>
      ra_done R = [(0, MeDelete ''p'' 1, Ok ()), (1, MeDelete ''p'' 3, Err err)] \<and>
      me_rows me_wit_env (ra_store R) =
        filter (\<lambda>j. \<not> (jr_PersistenceID j = ''p'' \<and> jr_SequenceNumber j \<le> 1)) (me_rows me_wit_env wit_journal)"
    using concurrent_deletes_fail [OF me_rely_wit [unfolded me_wit_env_def] ok [unfolded me_wit_env_def] con
        wit_nul_free(1) x(1) [unfolded me_wit_env_def] x(2,3)]
    unfolding me_wit_env_def by simp
  then obtain R err where R:
    "ra_run ref_protolib ref_memdb wit_uuid (delete_schedule ''p'' 1 3) (ra_init wit_journal) = Some R"
    "ra_done R = [(0, MeDelete ''p'' 1, Ok ()), (1, MeDelete ''p'' 3, Err err)]"
    "me_rows me_wit_env (ra_store R) =
        filter (\<lambda>j. \<not> (jr_PersistenceID j = ''p'' \<and> jr_SequenceNumber j \<le> 1)) (me_rows me_wit_env wit_journal)"
    by (elim exE conjE) rule
  from two R show ?thesis by (intro exI [of _ R] exI [of _ err] conjI) (simp_all only: R)
qed

text \<open>Both find the flag clear; the second call sets \<open>s.db\<close> after the first one has returned.\<close>

definition connect_write_schedule :: "event option list \<Rightarrow> (nat \<times> ra_event) list" where
  "connect_write_schedule es =
     [(0, Call MeConnect), (1, Call MeConnect), (0, Go), (1, Go), (0, Go), (0, Go),
      (0, Call (MeWrite es)), (0, Go), (0, Go), (0, Go), (0, Go), (1, Go), (1, Go)]"

text \<open>
  C36. Two calls of Connect of the memory store that overlap lose events: the second one puts a
  new database in place of the one that the first goroutine has connected to and written to. All
  three calls succeed, and the store is connected and empty.
\<close>

theorem concurrent_connect_loses:
  assumes "me_rely (L, M, G, uuid)" "\<not> me_connected s"
    and "\<forall>e \<in> set es. nul_free (ev_PersistenceId (or_zero zero_event e)) \<and> ev_PersistenceId (or_zero zero_event e) \<noteq> []"
  shows "\<exists>R. ra_run L M uuid (connect_write_schedule es) (ra_init s) = Some R \<and>
    ra_done R = [(0, MeConnect, Ok ()), (0, MeWrite es, Ok ()), (1, MeConnect, Ok ())] \<and>
    me_connected (ra_store R) \<and> me_rows (L, M, G, uuid) (ra_store R) = []"
proof -
  have C: "memdb_contract M G" "uuid_ok uuid" using assms(1) by (simp_all add: me_rely_def)
  obtain db where db: "md_new M journalSchema = Ok db" "mg_db G db = (journalSchema, \<lambda>_ _. [])"
    using memdb_facts(1) [OF C(1) journalSchema_ok] by blast
  have t: "mg_txn G (md_txn M db True) = (journalSchema, \<lambda>_ _. [])" by (simp add: memdb_facts(2) [OF C(1)] db(2))
  obtain r n t1 where loop: "me_write_loop L M uuid es (me_drawn s) (md_txn M db True) = (r, n, t1)"
    by (cases "me_write_loop L M uuid es (me_drawn s) (md_txn M db True)")
  then have "r = Ok ()" using me_write_loop_spec [OF C _ _ _ loop] assms(3) by (simp add: t)
  then have "\<exists>R. ra_run L M uuid (connect_write_schedule es) (ra_init s) = Some R \<and>
    ra_done R = [(0, MeConnect, Ok ()), (0, MeWrite es, Ok ()), (1, MeConnect, Ok ())] \<and>
    me_connected (ra_store R) \<and> me_db (ra_store R) = Some db"
    using db(1) assms(2) loop
    by (simp add: connect_write_schedule_def ra_steps ra_check_def ra_act_def ra_open_def ra_lock_def ra_finish_def ra_start
        ra_store_def nth_append)
  then obtain R where R: "ra_run L M uuid (connect_write_schedule es) (ra_init s) = Some R"
    "ra_done R = [(0, MeConnect, Ok ()), (0, MeWrite es, Ok ()), (1, MeConnect, Ok ())]"
    "me_connected (ra_store R)" "me_db (ra_store R) = Some db" by blast
  then have "me_rows (L, M, G, uuid) (ra_store R) = []" by (simp add: me_rows_def db(2))
  with R(1-3) show ?thesis by (intro exI [of _ R]) simp
qed

theorem concurrent_connect_loses_witness:
  "\<exists>R. ra_run ref_protolib ref_memdb wit_uuid (connect_write_schedule [Some (ev_wit ''p'' 1 10)])
       (ra_init NewEventsStore) = Some R \<and> me_connected (ra_store R) \<and> me_rows me_wit_env (ra_store R) = []"
proof -
  have "\<not> me_connected (NewEventsStore :: ref_mem)" by (simp add: NewEventsStore_def)
  moreover have "\<forall>e \<in> set [Some (ev_wit ''p'' 1 10)]. nul_free (ev_PersistenceId (or_zero zero_event e)) \<and>
      ev_PersistenceId (or_zero zero_event e) \<noteq> []"
    by (simp add: ev_wit_def nul_free_def)
  ultimately show ?thesis
    using concurrent_connect_loses [OF me_rely_wit [unfolded me_wit_env_def]] unfolding me_wit_env_def by blast
qed

end
