(* ===== verification/EventPgProps.thy ===== *)
theory EventPgProps
  imports EventProps
begin

text \<open>
  The properties of the Postgres event store: what its operations promise of the bag of events
  stored, how they use transactions and statements, and that it and the memory store are
  interchangeable where both keep their promises.
\<close>

section \<open>Sample values\<close>

definition wit_event_config :: event_config where
  "wit_event_config = \<lparr>ec_DBHost = ''localhost'', ec_DBPort = 5432, ec_DBName = ''ego'', ec_DBUser = ''ego'',
     ec_DBPassword = ''secret'', ec_DBSchema = ''''\<rparr>"

type_synonym ref_pg = "(unit, ref_world) pe_store"

definition pe_wit_env :: "(unit, unit, stmt, unit, unit, unit, ref_world) peenv" where
  "pe_wit_env = (ref_protolib, ref_drv, ref_ghost)"

definition pe_wit :: ref_pg where
  "pe_wit = snd (pe_Connect ref_drv (pe_NewEventsStore wit_event_config ref_world0))"

abbreviation wit_pg_write :: "event list \<Rightarrow> ref_pg \<Rightarrow> unit res \<times> ref_pg" where
  "wit_pg_write es \<equiv> pe_WriteEvents ref_protolib ref_drv (map Some es)"

definition wit_events :: "event list" where
  "wit_events = [ev_wit ''p'' 1 10, ev_wit ''q'' 1 15, ev_wit ''p'' 3 20, ev_wit ''p'' 2 20]"

definition wit_pg :: ref_pg where
  "wit_pg = snd (wit_pg_write wit_events pe_wit)"

lemma pe_rely_wit: "pe_rely pe_wit_env"
  by (simp add: pe_wit_env_def pe_rely_def ref_protolib_contract schema_pk_def)

lemma st_world_pe_wit: "st_world pe_wit = ref_world0"
  by (simp add: pe_wit_def pe_Connect_def pe_NewEventsStore_def pg_Connect_def ref_drv_def st_pair_def st_put_def
      plain_newDatabase_def Let_def)

lemma pe_wit_inv: "pe_inv pe_wit_env pe_wit" "pe_events pe_wit_env pe_wit = {#}"
  using st_world_pe_wit
  by (simp_all add: pe_inv_def pe_wit_env_def pg_ready_def st_pair_def pe_rows_ok_def pe_events_def pe_bag_def
      pg_tables_def ref_ghost_def ref_world0_def well_typed_def content_def keys_ok_def)

lemma pe_storable_wit: "\<forall>e \<in> set es. pe_storable ref_protolib e"
  by (simp add: pe_storable_def)

lemma wit_pg_ok:
  assumes "pe_inv pe_wit_env s" "fst (wit_pg_write es s) = Ok ()"
  shows "pe_inv pe_wit_env (snd (wit_pg_write es s))"
    and "pe_events pe_wit_env (snd (wit_pg_write es s)) = pe_events pe_wit_env s + mset (map pe_obs es)"
  using pe.write_inv [OF pe_rely_wit assms(1), of es] pe.write_ok [OF pe_rely_wit assms(1), of es]
    pe_storable_wit [of es] ok_pair [OF assms(2)] surjective_pairing [of "wit_pg_write es s"]
  by (simp_all add: pe_wit_env_def)

lemma pe_obs_wit: "pe_obs (ev_wit p n ts) = ev_wit p n ts"
  by (simp add: pe_obs_def ev_wit_def)

lemma wit_pg_inv: "pe_inv pe_wit_env wit_pg" "pe_events pe_wit_env wit_pg = mset wit_events"
proof -
  have "fst (wit_pg_write wit_events pe_wit) = Ok ()" by code_simp
  note w = wit_pg_ok [OF pe_wit_inv(1) this, folded wit_pg_def]
  then show "pe_inv pe_wit_env wit_pg" "pe_events pe_wit_env wit_pg = mset wit_events"
    by (simp_all add: pe_wit_inv(2) wit_events_def pe_obs_wit)
qed

section \<open>Writes and deletes\<close>

text \<open>
  C2. A write of the Postgres store is all or nothing whatever the number of its batches: for
  events whose payloads can be marshalled, it ends well only with every event stored, and
  otherwise leaves all of them or none; the store stays well-formed. A write that ends well
  leaves no transaction open, and so does one that fails, if the builder can build the inserts
  of at least one row.
\<close>

theorem pg_write_atomic:
  assumes "pe_rely (L, D, G)" "pe_inv (L, D, G) s" "\<forall>e \<in> set es. pe_storable L e"
    and "pe_WriteEvents L D (map Some es) s = (r, s')"
  shows "pe_inv (L, D, G) s' \<and>
    (r = Ok () \<longrightarrow> pe_events (L, D, G) s' = pe_events (L, D, G) s + mset (map pe_obs es)) \<and>
    (pe_events (L, D, G) s' = pe_events (L, D, G) s \<or>
     pe_events (L, D, G) s' = pe_events (L, D, G) s + mset (map pe_obs es)) \<and>
    (r = Ok () \<or> (\<forall>i. ins_into i = pe_tableName \<and> ins_values i \<noteq> [] \<longrightarrow> is_ok (to_sql D (Insert i))) \<longrightarrow>
       gh_open G (st_world s') = gh_open G (st_world s))"
proof -
  have "pgenv_ok (D, G)" "pg_ready (D, G) (st_pair s)" using assms(1,2) by (simp_all add: pe_rely_def pe_inv_def)
  note tables = pe_WriteEvents_tables(4) [OF this, of L "map Some es" r s']
  have "\<forall>ys. ys \<noteq> [] \<longrightarrow> is_ok (to_sql D (Insert (pe_pending ys)))"
    if "\<forall>i. ins_into i = pe_tableName \<and> ins_values i \<noteq> [] \<longrightarrow> is_ok (to_sql D (Insert i))"
    using that by (simp add: pe_pending_def pe_tableName_def)
  then show ?thesis
    using pe_WriteEvents_all [OF assms(1,2), of es r s'] assms(3,4) tables by (auto simp: pe_storable_def)
qed

theorem pg_write_atomic_witness:
  "fst (wit_pg_write [ev_wit ''p'' 4 30, ev_wit ''p'' 1 30] wit_pg) \<noteq> Ok () \<and>
   gh_open ref_ghost (st_world (snd (wit_pg_write [ev_wit ''p'' 4 30, ev_wit ''p'' 1 30] wit_pg))) = 0 \<and>
   pe_events pe_wit_env (snd (wit_pg_write [ev_wit ''p'' 4 30] wit_pg)) = mset (wit_events @ [ev_wit ''p'' 4 30])"
proof -
  have sql: "is_ok (to_sql ref_drv st)" for st by (simp add: ref_drv_def)
  note w = pg_write_atomic [OF pe_rely_wit [unfolded pe_wit_env_def] wit_pg_inv(1) [unfolded pe_wit_env_def]
      pe_storable_wit surjective_pairing, folded pe_wit_env_def]
  have "fst (wit_pg_write [ev_wit ''p'' 4 30, ev_wit ''p'' 1 30] wit_pg) \<noteq> Ok ()"
    "fst (wit_pg_write [ev_wit ''p'' 4 30] wit_pg) = Ok ()" "rw_open (st_world wit_pg) = 0" by code_simp+
  then show ?thesis
    using w [of "[ev_wit ''p'' 4 30, ev_wit ''p'' 1 30]"] w [of "[ev_wit ''p'' 4 30]"]
    by (simp add: wit_pg_inv(2) pe_obs_wit sql)
qed

text \<open>
  C33. A write with an event that cannot be marshalled, wherever it stands in the list, returns
  the marshal error with its index and leaves the transaction open, unless an earlier batch has
  failed before; so does a statement that cannot be built. Only an error of the execution is
  followed by a rollback. In particular, if the event comes before the first batch is full, the
  result is always the marshal error and an open transaction, whose connection never goes back
  to the pool.
\<close>

theorem pg_transaction_leak:
  assumes "pgenv_ok (D, G)" "pg_ready (D, G) (st_pair s)" "st_connected s"
    and "pg_BeginTx D (st_pair s) = (Ok tx, p)"
    and "\<forall>e \<in> set pre. snd (marshal L (ev_Event (or_zero zero_event e))) = None"
    and "snd (marshal L (ev_Event (or_zero zero_event bad))) = Some err"
    and "pe_WriteEvents L D (pre @ bad # post) s = (r, s')"
  shows "(r = Err (ErrWrap (''failed to marshal event at index '' @ fmt_nat (length pre)) err) \<and>
       gh_open G (st_world s') = Suc (gh_open G (st_world s))) \<or>
     (pe_insertBatchSize s \<le> length pre \<and> (\<exists>e. r = Err (ErrWrap ''unable to build sql insert statement'' e)) \<and>
       gh_open G (st_world s') = Suc (gh_open G (st_world s))) \<or>
     (pe_insertBatchSize s \<le> length pre \<and> gh_open G (st_world s') = gh_open G (st_world s) \<and>
       (\<exists>e. r = Err (ErrWrap ''failed to record events'' e) \<or> r = Err (ErrWrap ''unable to rollback db transaction'' e)))"
proof -
  obtain db w where p: "p = (db, w)" by (cases p)
  have begun: "gh_open G w = Suc (gh_open G (st_world s))" "gh_valid G w" "gh_live G w tx"
    using pe_begin(1) [OF assms(1,2), of "Ok tx" p] pe_begin(4,6) [OF assms(1,2), of "Ok tx" p tx] assms(4) p
    by (simp_all add: pg_ready_def)
  obtain r1 w1 where loop: "pe_write_loop L D tx (pe_insertBatchSize s) (length (pre @ bad # post)) (pre @ bad # post) 0
      (pe_pending []) w = (r1, w1)" by (metis surj_pair)
  have leak: "(r1 = Err (ErrWrap (''failed to marshal event at index '' @ fmt_nat (length pre)) err) \<and> gh_open G w1 = gh_open G w) \<or>
     (pe_insertBatchSize s \<le> length pre \<and> (\<exists>e. r1 = Err (ErrWrap ''unable to build sql insert statement'' e)) \<and>
       gh_open G w1 = gh_open G w) \<or>
     (pe_insertBatchSize s \<le> length pre \<and> gh_open G w1 = gh_open G w - 1 \<and>
       (\<exists>e. r1 = Err (ErrWrap ''failed to record events'' e) \<or> r1 = Err (ErrWrap ''unable to rollback db transaction'' e)))"
    using pe_write_loop_leak [OF assms(1), of pre L bad err w tx "pe_insertBatchSize s" 0 post "[]" r1 w1]
      assms(5,6) begun(2,3) loop by (simp add: marshals_def)
  then have "\<exists>e. r1 = Err e" by blast
  then have "r = r1 \<and> s' = st_put (db, w1) s"
    using assms(3,4,7) p loop by (auto simp: pe_WriteEvents_def pe_pending_simps)
  then show ?thesis using leak begun(1) by simp
qed

definition wit_failing :: "(unit, unit) protolib" where
  "wit_failing = ref_protolib\<lparr>marshal := \<lambda>a. if a = None then (None, Some (ErrExt ''invalid UTF-8'')) else marshal ref_protolib a\<rparr>"

definition wit_bad :: event where
  "wit_bad = (ev_wit ''p'' 5 40)\<lparr>ev_Event := None\<rparr>"

theorem pg_transaction_leak_witness:
  "fst (pe_WriteEvents wit_failing ref_drv [Some (ev_wit ''p'' 4 30), Some wit_bad, Some (ev_wit ''p'' 6 40)] wit_pg) =
     Err (ErrWrap ''failed to marshal event at index 1'' (ErrExt ''invalid UTF-8'')) \<and>
   gh_open ref_ghost (st_world (snd (pe_WriteEvents wit_failing ref_drv
     [Some (ev_wit ''p'' 4 30), Some wit_bad, Some (ev_wit ''p'' 6 40)] wit_pg))) = 1"
proof -
  have ready: "pg_ready (ref_drv, ref_ghost) (st_pair wit_pg)"
    using wit_pg_inv(1) by (simp add: pe_inv_def pe_wit_env_def)
  have st: "st_connected wit_pg" "rw_open (st_world wit_pg) = 0" "\<not> pe_insertBatchSize wit_pg \<le> 1" by code_simp+
  have begun: "fst (pg_BeginTx ref_drv (st_pair wit_pg)) = Ok ()" by code_simp
  have m: "\<forall>e \<in> set [Some (ev_wit ''p'' 4 30)]. snd (marshal wit_failing (ev_Event (or_zero zero_event e))) = None"
    "snd (marshal wit_failing (ev_Event (or_zero zero_event (Some wit_bad)))) = Some (ErrExt ''invalid UTF-8'')"
    by (simp_all add: wit_failing_def wit_bad_def ev_wit_def ref_protolib_def)
  have "fmt_nat (Suc 0) = ''1''" by code_simp
  with pg_transaction_leak [OF ref_env_ok ready st(1) ok_pair [OF begun] m(1,2) surjective_pairing, of "[Some (ev_wit ''p'' 6 40)]"] st(2,3)
  show ?thesis by simp
qed

text \<open>
  C10. A delete of the Postgres store removes exactly the events of its persistence id up to the
  sequence number, or nothing, and never leaves a transaction open.
\<close>

theorem pg_delete_exact:
  assumes "pe_rely (L, D, G)" "pe_inv (L, D, G) s" "pe_DeleteEvents D p n s = (r, s')"
  shows "pe_inv (L, D, G) s' \<and>
    (r = Ok () \<longrightarrow> pe_events (L, D, G) s' = filter_mset (\<lambda>e. \<not> upto_seq p n e) (pe_events (L, D, G) s)) \<and>
    (pe_events (L, D, G) s' = pe_events (L, D, G) s \<or>
     pe_events (L, D, G) s' = filter_mset (\<lambda>e. \<not> upto_seq p n e) (pe_events (L, D, G) s)) \<and>
    (r \<noteq> Panic \<longrightarrow> gh_open G (st_world s') = gh_open G (st_world s))"
proof -
  have "pgenv_ok (D, G)" "pg_ready (D, G) (st_pair s)" using assms(1,2) by (simp_all add: pe_rely_def pe_inv_def)
  from pe_DeleteEvents_tables(4) [OF this, of p n r s'] assms(3)
  show ?thesis using pe_DeleteEvents_all [OF assms(1,2), of p n r s'] by simp
qed

theorem pg_delete_exact_witness:
  "pe_events pe_wit_env (snd (pe_DeleteEvents ref_drv ''p'' 2 wit_pg)) = {#ev_wit ''q'' 1 15, ev_wit ''p'' 3 20#}"
proof -
  have "fst (pe_DeleteEvents ref_drv ''p'' 2 wit_pg) = Ok ()" by code_simp
  from pg_delete_exact [OF pe_rely_wit [unfolded pe_wit_env_def] wit_pg_inv(1) [unfolded pe_wit_env_def] ok_pair [OF this],
      folded pe_wit_env_def]
  show ?thesis by (simp add: wit_pg_inv(2) wit_events_def ev_wit_def upto_seq_def)
qed

text \<open>
  C27. No statement of a write has more than 500 rows of nine values, 4500 parameters: the write
  gives the same result with any SQL builder that agrees on the statements within that bound,
  which keeps it under the 65535 parameters of the protocol.
\<close>

theorem pg_batch_bound:
  assumes "\<forall>i. length (ins_values i) \<le> 500 \<and> (\<forall>vs \<in> set (ins_values i). length vs = 9) \<longrightarrow>
      f (Insert i) = to_sql D (Insert i)"
    and "pe_insertBatchSize s = 500"
  shows "pe_WriteEvents L (D\<lparr>to_sql := f\<rparr>) es s = pe_WriteEvents L D es s"
proof -
  have "\<forall>i. pe_batched 500 i \<longrightarrow> f (Insert i) = to_sql D (Insert i)"
    using assms(1) by (simp add: pe_batched_def pe_columns_def)
  then have "pe_write_loop L (D\<lparr>to_sql := f\<rparr>) tx 500 (length es) es 0 (sq_Insert pe_tableName pe_columns) w =
      pe_write_loop L D tx 500 (length es) es 0 (sq_Insert pe_tableName pe_columns) w" for tx w
    by (intro pe_write_loop_batched) (simp_all add: sq_Insert_def pe_batched_def)
  note loop = this
  have tx: "pg_BeginTx (D\<lparr>to_sql := f\<rparr>) p = pg_BeginTx D p" for p
    by (simp add: pg_BeginTx_def split: prod.split option.split)
  obtain r db w where "pg_BeginTx D (st_pair s) = (r, (db, w))" by (cases "pg_BeginTx D (st_pair s)") auto
  then show ?thesis by (cases r) (simp_all add: pe_WriteEvents_def tx loop assms(2) split: prod.split res.split)
qed

theorem pg_batch_bound_witness:
  "pe_WriteEvents ref_protolib
     (ref_drv\<lparr>to_sql := \<lambda>st. case st of Insert i \<Rightarrow> if length (ins_values i) \<le> 500 then Ok st else Err (ErrExt ''too many'')
                          | _ \<Rightarrow> Ok st\<rparr>) (replicate 1001 (Some (ev_wit ''p'' 9 9))) pe_wit =
   pe_WriteEvents ref_protolib ref_drv (replicate 1001 (Some (ev_wit ''p'' 9 9))) pe_wit"
proof -
  have "pe_insertBatchSize pe_wit = 500" by code_simp
  then show ?thesis by (intro pg_batch_bound) (simp_all add: ref_drv_def)
qed

section \<open>Queries\<close>

text \<open>
  C18. A replay of the Postgres store gives the first \<open>limit\<close> events of the range in the order
  of their sequence numbers.
\<close>

theorem pg_replay_exact:
  assumes "pe_rely (L, D, G)" "pe_inv (L, D, G) s" "pe_ReplayEvents L D p lo hi limit s = Ok xs"
  shows "\<exists>es. mset es = filter_mset (in_range p lo hi) (pe_events (L, D, G) s) \<and>
    sorted (map ev_SequenceNumber es) \<and> xs = take (unat limit) es"
  using pe_replay [OF assms(1,2), of p lo hi limit xs] assms(3) by simp

theorem pg_replay_exact_witness:
  "pe_ReplayEvents ref_protolib ref_drv ''p'' 1 3 2 wit_pg = Ok [ev_wit ''p'' 1 10, ev_wit ''p'' 2 20]"
proof -
  have "is_ok (pe_ReplayEvents ref_protolib ref_drv ''p'' 1 3 2 wit_pg)" by code_simp
  then obtain xs where xs: "pe_ReplayEvents ref_protolib ref_drv ''p'' 1 3 2 wit_pg = Ok xs" by (auto simp: is_ok_iff)
  from pg_replay_exact [OF pe_rely_wit [unfolded pe_wit_env_def] wit_pg_inv(1) [unfolded pe_wit_env_def] xs, folded pe_wit_env_def]
  obtain es where es: "mset es = filter_mset (in_range ''p'' 1 3) (mset wit_events)"
    "sorted (map ev_SequenceNumber es)" "xs = take 2 es" by (auto simp: wit_pg_inv(2))
  let ?ys = "[ev_wit ''p'' 1 10, ev_wit ''p'' 2 20, ev_wit ''p'' 3 20]"
  have "mset es = mset ?ys" using es(1) by (simp add: wit_events_def in_range_def ev_wit_def)
  then have "es = ?ys" using sorted_key_unique [of ?ys es ev_SequenceNumber] es(2) by (simp add: ev_wit_def)
  then show ?thesis using xs es(3) by simp
qed

text \<open>
  C12. The latest event of the Postgres store is the last event of a replay that reaches every
  sequence number stored for the id and is not cut by its limit, and there is none exactly if
  that replay is empty. The column is a signed \<open>BIGINT\<close>: a bound of \<open>2 ^ 63 - 1\<close> reaches
  every event that the database can hold.
\<close>

theorem pg_latest_is_last:
  assumes "pe_rely (L, D, G)" "pe_inv (L, D, G) s" "p \<noteq> []" "pe_GetLatestEvent L D p s = Ok y"
    and "\<forall>e \<in># pe_events (L, D, G) s. ev_PersistenceId e = p \<longrightarrow> ev_SequenceNumber e \<le> hi"
    and "pe_ReplayEvents L D p 0 hi limit s = Ok xs"
    and "size (filter_mset (in_range p 0 hi) (pe_events (L, D, G) s)) \<le> unat limit"
  shows "y = (if xs = [] then None else Some (last xs))"
  using pe.latest_is_last_replayed [OF assms(1,2), of p y hi limit xs] assms(3-7) by simp

theorem pg_latest_is_last_witness:
  "pe_GetLatestEvent ref_protolib ref_drv ''p'' wit_pg = Ok (Some (ev_wit ''p'' 3 20))"
proof -
  let ?hi = "9223372036854775807 :: u64"
  have ok: "is_ok (pe_GetLatestEvent ref_protolib ref_drv ''p'' wit_pg)" by code_simp
  have replay: "case pe_ReplayEvents ref_protolib ref_drv ''p'' 0 ?hi 9 wit_pg of
      Ok xs \<Rightarrow> xs \<noteq> [] \<and> last xs = ev_wit ''p'' 3 20 | _ \<Rightarrow> False" by code_simp
  obtain y where y: "pe_GetLatestEvent ref_protolib ref_drv ''p'' wit_pg = Ok y" using ok by (auto simp: is_ok_iff)
  obtain xs where xs: "pe_ReplayEvents ref_protolib ref_drv ''p'' 0 ?hi 9 wit_pg = Ok xs" "xs \<noteq> []" "last xs = ev_wit ''p'' 3 20"
    using replay by (auto split: res.splits)
  have reach: "\<forall>e \<in># pe_events pe_wit_env wit_pg. ev_PersistenceId e = ''p'' \<longrightarrow> ev_SequenceNumber e \<le> ?hi"
    by (simp add: wit_pg_inv(2) wit_events_def ev_wit_def)
  have "size (filter_mset (in_range ''p'' 0 ?hi) (pe_events pe_wit_env wit_pg)) \<le> unat (9 :: u64)"
    using size_filter_mset_lesseq [of "in_range ''p'' 0 ?hi" "mset wit_events"] by (simp add: wit_pg_inv(2) wit_events_def)
  from pg_latest_is_last [OF pe_rely_wit [unfolded pe_wit_env_def] wit_pg_inv(1) [unfolded pe_wit_env_def] _ y
      reach [unfolded pe_wit_env_def] xs(1) this [unfolded pe_wit_env_def]] xs(2,3) y
  show ?thesis by simp
qed

text \<open>
  A page of persistence ids of the Postgres store holds the first \<open>pageSize\<close> ids after the
  token, each once and in the order of the collation, and its token is the last of them.
\<close>

theorem pg_ids_page:
  assumes "pe_rely (L, D, G)" "pe_inv (L, D, G) s" "pe_PersistenceIDs D n tok s = Ok (ids, next_token)"
  shows "\<exists>ps. distinct ps \<and> sorted_wrt (gh_coll G) ps \<and>
    set ps = {p \<in> ev_PersistenceId ` set_mset (pe_events (L, D, G) s). tok = '''' \<or> gh_coll G tok p \<and> p \<noteq> tok} \<and>
    ids = take (unat n) ps \<and> next_token = (if ids = [] then '''' else last ids)"
  using pe_ids_page [OF assms(1,2), of n tok ids next_token] assms(3) by simp

theorem pg_ids_page_witness:
  "pe_PersistenceIDs ref_drv 5 ''p'' wit_pg = Ok ([''q''], ''q'')"
proof -
  have "is_ok (pe_PersistenceIDs ref_drv 5 ''p'' wit_pg)" by code_simp
  then obtain ids nxt where ids: "pe_PersistenceIDs ref_drv 5 ''p'' wit_pg = Ok (ids, nxt)" by (auto simp: is_ok_iff)
  note page = pg_ids_page [OF pe_rely_wit [unfolded pe_wit_env_def] wit_pg_inv(1) [unfolded pe_wit_env_def] ids, folded pe_wit_env_def]
  have ids_all: "ev_PersistenceId ` set_mset (pe_events pe_wit_env wit_pg) = {''p'', ''q''}"
    unfolding wit_pg_inv(2) by (auto simp: wit_events_def ev_wit_def)
  have "{p \<in> ev_PersistenceId ` set_mset (pe_events pe_wit_env wit_pg). ''p'' = '''' \<or> gh_coll ref_ghost ''p'' p \<and> p \<noteq> ''p''} = {''q''}"
    unfolding ids_all by (auto simp: ref_ghost_def ref_coll_def)
  from page [unfolded this] obtain ps where ps: "distinct ps" "set ps = {''q''}" "ids = take (unat (5 :: u64)) ps"
    "nxt = (if ids = [] then '''' else last ids)" by blast
  then have "length ps = 1" using distinct_card [OF ps(1)] ps(2) by simp
  then have "ps = [''q'']" using ps(2) by (cases ps) auto
  then show ?thesis using ps(3,4) ids by simp
qed

text \<open>
  Two successive pages of shard events of the Postgres store are in the order of their
  timestamps and have no event in common; the first has every event of the shard that is older
  than its offset, and the second only events that are newer. Events with the very timestamp
  of the offset that the first page had no room for are on neither.
\<close>

theorem pg_shard_pages:
  assumes "pe_rely (L, D, G)" "pe_inv (L, D, G) s"
    and "pe_GetShardEvents L D n off limit s = Ok (xs, nxt)" "xs \<noteq> []"
    and "pe_GetShardEvents L D n nxt limit s = Ok (ys, nxt')"
  shows "sorted (map (\<lambda>e. sint (ev_Timestamp e)) (xs @ ys)) \<and> (\<forall>y \<in> set ys. sint nxt < sint (ev_Timestamp y)) \<and>
    mset xs \<subseteq># filter_mset (\<lambda>e. ev_Shard e = n \<and> sint off < sint (ev_Timestamp e)) (pe_events (L, D, G) s) \<and>
    filter_mset (\<lambda>e. ev_Shard e = n \<and> sint off < sint (ev_Timestamp e) \<and> sint (ev_Timestamp e) < sint nxt)
      (pe_events (L, D, G) s) \<subseteq># mset xs"
proof -
  let ?ts = "\<lambda>e. sint (ev_Timestamp e)" and ?E = "pe_events (L, D, G) s"
  obtain es where es: "mset es = filter_mset (\<lambda>e. ev_Shard e = n \<and> sint off < ?ts e) ?E"
    "sorted (map ?ts es)" "xs = take (unat limit) es" "nxt = ev_Timestamp (last xs)"
    using pe_shard [OF assms(1,2), of n off limit xs nxt] assms(3,4) by auto
  obtain fs where fs: "mset fs = filter_mset (\<lambda>e. ev_Shard e = n \<and> sint nxt < ?ts e) ?E"
    "sorted (map ?ts fs)" "ys = take (unat limit) fs"
    using pe_shard [OF assms(1,2), of n nxt limit ys nxt'] assms(5) by auto
  have "set fs = {e \<in> set_mset ?E. ev_Shard e = n \<and> sint nxt < ?ts e}"
    using arg_cong [OF fs(1), of set_mset] by simp
  then have new: "\<forall>y \<in> set ys. sint nxt < ?ts y" using fs(3) set_take_subset [of "unat limit" fs] by auto
  let ?rest = "drop (unat limit) es"
  have split: "es = xs @ ?rest" by (simp add: es(3))
  have sorted: "sorted (map ?ts xs)" "\<forall>x \<in> set xs. \<forall>r \<in> set ?rest. ?ts x \<le> ?ts r"
    using es(2) by (subst (asm) split, auto simp: sorted_append)+
  obtain zs z where z: "xs = zs @ [z]" using assms(4) by (metis rev_exhaust)
  then have old: "\<forall>x \<in> set xs. ?ts x \<le> sint nxt" using sorted(1) es(4) by (auto simp: sorted_append)
  have "\<not> ?ts r < sint nxt" if "r \<in> set ?rest" for r using sorted(2) that z es(4) by auto
  then have "filter (\<lambda>e. ?ts e < sint nxt) ?rest = []" by (simp add: filter_empty_conv)
  then have "filter (\<lambda>e. ?ts e < sint nxt) es = filter (\<lambda>e. ?ts e < sint nxt) xs"
    by (subst split) (simp only: filter_append append_Nil2)
  then have "filter_mset (\<lambda>e. ?ts e < sint nxt) (mset es) \<subseteq># mset xs"
    by (metis mset_filter multiset_filter_subset)
  moreover have "filter_mset (\<lambda>e. ?ts e < sint nxt) (mset es) =
      filter_mset (\<lambda>e. ev_Shard e = n \<and> sint off < ?ts e \<and> ?ts e < sint nxt) ?E"
    by (simp add: es(1) filter_filter_mset conj_ac)
  moreover have "mset xs \<subseteq># mset es" by (subst split) simp
  moreover have "sorted (map ?ts (xs @ ys))"
  proof -
    have "sorted (map ?ts ys)" using fs(2,3) by (simp add: take_map [symmetric] sorted_wrt_take)
    moreover have "?ts x \<le> ?ts y" if "x \<in> set xs" "y \<in> set ys" for x y
      using bspec [OF old that(1)] bspec [OF new that(2)] by simp
    ultimately show ?thesis using sorted(1) by (auto simp: sorted_append)
  qed
  ultimately show ?thesis using new by (simp add: es(1))
qed

theorem pg_shard_pages_witness:
  "case pe_GetShardEvents ref_protolib ref_drv 1 15 1 wit_pg of
     Ok (xs, nxt) \<Rightarrow> (case pe_GetShardEvents ref_protolib ref_drv 1 nxt 1 wit_pg of
        Ok (ys, _) \<Rightarrow> length xs = 1 \<and> size (filter_mset (\<lambda>e. ev_Timestamp e = 20) (pe_events pe_wit_env wit_pg)) = 2 \<and> ys = []
      | _ \<Rightarrow> False)
   | _ \<Rightarrow> False"
proof -
  have "case pe_GetShardEvents ref_protolib ref_drv 1 15 1 wit_pg of
      Ok (xs, nxt) \<Rightarrow> length xs = 1 \<and> nxt = 20 \<and> is_ok (pe_GetShardEvents ref_protolib ref_drv 1 20 1 wit_pg) | _ \<Rightarrow> False"
    by code_simp
  then obtain xs ys nyt where g: "pe_GetShardEvents ref_protolib ref_drv 1 15 1 wit_pg = Ok (xs, 20)" "length xs = 1"
    "pe_GetShardEvents ref_protolib ref_drv 1 20 1 wit_pg = Ok (ys, nyt)"
    by (auto simp: is_ok_iff split: res.splits prod.splits)
  have "xs \<noteq> []" using g(2) by auto
  from pg_shard_pages [OF pe_rely_wit [unfolded pe_wit_env_def] wit_pg_inv(1) [unfolded pe_wit_env_def] g(1) this g(3)]
  have "\<forall>y \<in> set ys. sint (20 :: i64) < sint (ev_Timestamp y)" by simp
  moreover have "set ys \<subseteq> set wit_events"
  proof -
    have "case pe_GetShardEvents ref_protolib ref_drv 1 20 1 wit_pg of
        Ok (ys, _) \<Rightarrow> list_all (\<lambda>y. y \<in> set wit_events) ys | _ \<Rightarrow> False" by code_simp
    then show ?thesis using g(3) by (auto simp: list_all_iff)
  qed
  moreover have "\<forall>e \<in> set wit_events. sint (ev_Timestamp e) \<le> 20" by (simp add: wit_events_def ev_wit_def)
  ultimately have "\<not> y \<in> set ys" for y by fastforce
  then have "ys = []" by (cases ys) auto
  moreover have "size (filter_mset (\<lambda>e. ev_Timestamp e = 20) (pe_events pe_wit_env wit_pg)) = 2"
    by (simp add: wit_pg_inv(2) wit_events_def ev_wit_def)
  ultimately show ?thesis using g by simp
qed

text \<open>
  The shard numbers of the Postgres store are those of the events stored, each once.
\<close>

theorem pg_shard_numbers:
  assumes "pe_rely (L, D, G)" "pe_inv (L, D, G) s" "pe_ShardNumbers D s = Ok ns"
  shows "distinct ns \<and> set ns = ev_Shard ` set_mset (pe_events (L, D, G) s)"
  using pe_shards [OF assms(1,2), of ns] assms(3) by simp

theorem pg_shard_numbers_witness:
  "pe_ShardNumbers ref_drv wit_pg = Ok [1]"
proof -
  have "is_ok (pe_ShardNumbers ref_drv wit_pg)" by code_simp
  then obtain ns where ns: "pe_ShardNumbers ref_drv wit_pg = Ok ns" by (auto simp: is_ok_iff)
  have "ev_Shard ` set_mset (pe_events pe_wit_env wit_pg) = {1}"
    unfolding wit_pg_inv(2) by (auto simp: wit_events_def ev_wit_def)
  then have "distinct ns" "set ns = {1}"
    using pg_shard_numbers [OF pe_rely_wit [unfolded pe_wit_env_def] wit_pg_inv(1) [unfolded pe_wit_env_def] ns]
    by (simp_all add: pe_wit_env_def)
  then have "length ns = 1" using distinct_card [of ns] by simp
  then have "ns = [1]" using \<open>set ns = {1}\<close> by (cases ns) auto
  then show ?thesis using ns by simp
qed

section \<open>The two journals\<close>

text \<open>What the memory store loses of an event.\<close>

definition no_encryption :: "event \<Rightarrow> event" where
  "no_encryption e = e\<lparr>ev_EncryptionKeyId := '''', ev_IsEncrypted := False\<rparr>"

lemma no_encryption_key:
  "ev_PersistenceId (no_encryption e) = ev_PersistenceId e \<and> ev_SequenceNumber (no_encryption e) = ev_SequenceNumber e"
  "in_range p lo hi (no_encryption e) = in_range p lo hi e" "me_obs e = no_encryption (pe_obs e)"
  by (simp_all add: no_encryption_def in_range_def me_obs_def pe_obs_def)

text \<open>
  C1. The memory store and the Postgres store refine the same journal: after the same commands
  (writes and deletes that end well) from stores with the same events, they have the same
  events, and a replay within its limit gives the same list, up to the encryption metadata.
\<close>

theorem journals_agree:
  assumes "me_rely (L, M, Gm, uuid)" "me_inv (L, M, Gm, uuid) m" "pe_rely (L, D, G)" "pe_inv (L, D, G) s"
    and "me_events (L, M, Gm, uuid) m = image_mset no_encryption (pe_events (L, D, G) s)"
    and "list_all (cmd_ok (me_storable L) nul_free) cs" "nul_free p"
    and "run_cmds (me_WriteEvents L M uuid) (me_DeleteEvents M) cs m = (Ok (), m')"
    and "run_cmds (pe_WriteEvents L D) (pe_DeleteEvents D) cs s = (Ok (), s')"
    and "me_ReplayEvents L M p lo hi limit m' = Ok xs" "pe_ReplayEvents L D p lo hi limit s' = Ok ys"
    and "size (filter_mset (in_range p lo hi) (pe_events (L, D, G) s')) \<le> unat limit"
  shows "xs = map no_encryption ys \<and>
    me_events (L, M, Gm, uuid) m' = image_mset no_encryption (pe_events (L, D, G) s')"
proof -
  let ?me = "(L, M, Gm, uuid)" and ?pe = "(L, D, G)"
  have m: "me_inv ?me m'" "me_events ?me m' = fold (apply_cmd me_obs) cs (me_events ?me m)"
    using me.run_cmds_events [OF assms(1), of cs m m'] assms(2,6,8) by simp_all
  have "list_all (cmd_ok (pe_storable L) (\<lambda>_. True)) cs"
    using assms(6) by (rule list.pred_mono_strong)
      (case_tac z, auto simp: list_all_iff me_storable_def pe_storable_def)
  then have s: "pe_inv ?pe s'" "pe_events ?pe s' = fold (apply_cmd pe_obs) cs (pe_events ?pe s)"
    using pe.run_cmds_events [OF assms(3), of cs s s'] assms(4,9) by simp_all
  have same: "me_events ?me m' = image_mset no_encryption (pe_events ?pe s')"
    unfolding m(2) s(2) assms(5) by (rule fold_apply_cmd_image [OF no_encryption_key(1,3)])
  then have range: "filter_mset (in_range p lo hi) (me_events ?me m') =
      image_mset no_encryption (filter_mset (in_range p lo hi) (pe_events ?pe s'))"
    by (simp add: filter_mset_image_mset comp_def no_encryption_key(2))
  have xs: "mset xs = filter_mset (in_range p lo hi) (me_events ?me m')" "sorted (map ev_SequenceNumber xs)"
    using me.replay_ok [OF assms(1) m(1) assms(7), of lo hi limit xs] assms(10,12) range by simp_all
  have ys: "mset ys = filter_mset (in_range p lo hi) (pe_events ?pe s')" "sorted (map ev_SequenceNumber ys)"
    using pe.replay_ok [OF assms(3) s(1), of p lo hi limit ys] assms(11,12) by simp_all
  have eq: "mset (map no_encryption ys) = mset xs" by (simp add: xs(1) ys(1) range)
  have "e = e'" if "e \<in> set ys" "e' \<in> set ys" "ev_SequenceNumber e = ev_SequenceNumber e'" for e e'
  proof -
    have "set ys = {e \<in> set_mset (pe_events ?pe s'). in_range p lo hi e}"
      using arg_cong [OF ys(1), of set_mset] by simp
    then show ?thesis using that pe.seq_unique [OF assms(3) s(1), of e e'] by (auto simp: in_range_def)
  qed
  then have "inj_on ev_SequenceNumber (set (map no_encryption ys))"
    by (auto simp: inj_on_def no_encryption_key(1))
  then have inj: "inj_on ev_SequenceNumber (set xs)" using eq by (metis set_mset_mset)
  have "sorted (map ev_SequenceNumber (map no_encryption ys))" using ys(2) by (simp add: comp_def no_encryption_key(1))
  from sort_key_inj_key_eq [OF eq [symmetric] inj this] have "sort_key ev_SequenceNumber xs = map no_encryption ys" .
  moreover have "sort_key ev_SequenceNumber xs = xs" by (rule sort_key_inj_key_eq [OF refl inj xs(2)])
  ultimately show ?thesis using same by simp
qed

theorem journals_agree_witness:
  "me_ReplayEvents ref_protolib ref_memdb ''p'' 1 9 9
     (snd (run_cmds (me_WriteEvents ref_protolib ref_memdb wit_uuid) (me_DeleteEvents ref_memdb)
        [CmdWrite wit_events, CmdDelete ''p'' 1] me_wit)) = Ok [ev_wit ''p'' 2 20, ev_wit ''p'' 3 20]"
proof -
  let ?cs = "[CmdWrite wit_events, CmdDelete ''p'' 1]"
  let ?me = "run_cmds (me_WriteEvents ref_protolib ref_memdb wit_uuid) (me_DeleteEvents ref_memdb) ?cs me_wit"
    and ?pg = "run_cmds (pe_WriteEvents ref_protolib ref_drv) (pe_DeleteEvents ref_drv) ?cs pe_wit"
  have "fst ?me = Ok ()" "fst ?pg = Ok ()" by code_simp+
  then have run: "?me = (Ok (), snd ?me)" "?pg = (Ok (), snd ?pg)" by (auto intro: ok_pair)
  have "is_ok (me_ReplayEvents ref_protolib ref_memdb ''p'' 1 9 9 (snd ?me))" by code_simp
  then obtain xs where xs: "me_ReplayEvents ref_protolib ref_memdb ''p'' 1 9 9 (snd ?me) = Ok xs" by (auto simp: is_ok_iff)
  have "case pe_ReplayEvents ref_protolib ref_drv ''p'' 1 9 9 (snd ?pg) of
      Ok ys \<Rightarrow> map no_encryption ys = [ev_wit ''p'' 2 20, ev_wit ''p'' 3 20] | _ \<Rightarrow> False" by code_simp
  then obtain ys where ys: "pe_ReplayEvents ref_protolib ref_drv ''p'' 1 9 9 (snd ?pg) = Ok ys"
    "map no_encryption ys = [ev_wit ''p'' 2 20, ev_wit ''p'' 3 20]" by (auto split: res.splits)
  have cs: "list_all (cmd_ok (me_storable ref_protolib) nul_free) ?cs" "list_all (cmd_ok (pe_storable ref_protolib) (\<lambda>_. True)) ?cs"
    by (simp_all add: wit_events_def me_storable_wit wit_nul_free pe_storable_def)
  have same: "me_events me_wit_env me_wit = image_mset no_encryption (pe_events pe_wit_env pe_wit)"
    by (simp add: me_events_def me_wit_inv(2) pe_wit_inv(2))
  have "pe_events pe_wit_env (snd ?pg) = fold (apply_cmd pe_obs) ?cs (pe_events pe_wit_env pe_wit)"
    using pe.run_cmds_events [OF pe_rely_wit _ _ pe_wit_inv(1), of ?cs] cs(2) run(2) by (simp add: pe_wit_env_def)
  then have "size (pe_events pe_wit_env (snd ?pg)) \<le> 4"
    using size_filter_mset_lesseq [of "\<lambda>e. \<not> upto_seq ''p'' 1 e" "mset wit_events"]
    by (simp add: pe_wit_inv(2) wit_events_def pe_obs_wit)
  then have "size (filter_mset (in_range ''p'' 1 9) (pe_events pe_wit_env (snd ?pg))) \<le> unat (9 :: u64)"
    by (intro order.trans [OF size_filter_mset_lesseq]) simp
  from journals_agree [OF me_rely_wit [unfolded me_wit_env_def] me_wit_inv(1) [unfolded me_wit_env_def]
      pe_rely_wit [unfolded pe_wit_env_def] pe_wit_inv(1) [unfolded pe_wit_env_def]
      same [unfolded me_wit_env_def pe_wit_env_def] cs(1) wit_nul_free(1) run xs ys(1) this [unfolded pe_wit_env_def]]
  show ?thesis using xs ys(2) by simp
qed

end
