(* ===== verification/EventPgPaging.thy ===== *)
theory EventPgPaging
  imports Paging EventPgProps
begin

text \<open>
  Listing the Postgres event store page by page: the persistence ids by their tokens, and the
  events of a shard by their offsets, as instances of \<open>pager\<close>.
\<close>

section \<open>Persistence ids\<close>

type_synonym ('t, 'm, 'q, 'cfg, 'pool, 'tx, 'w) pe_paged =
  "('t, 'm, 'q, 'cfg, 'pool, 'tx, 'w) peenv \<times> ('pool, 'w) pe_store \<times> u64"

definition pe_ids :: "('t, 'm, 'q, 'cfg, 'pool, 'tx, 'w) peenv \<Rightarrow> ('pool, 'w) pe_store \<Rightarrow> string set" where
  "pe_ids env s = ev_PersistenceId ` set_mset (pe_events env s)"

text \<open>An empty id would be a token that starts the listing again.\<close>

definition ids_rely :: "('t, 'm, 'q, 'cfg, 'pool, 'tx, 'w) pe_paged \<Rightarrow> bool" where
  "ids_rely e = (case e of (env, s, n) \<Rightarrow> pe_rely env \<and> pe_inv env s \<and> 0 < n \<and> '''' \<notin> pe_ids env s)"

definition ids_at :: "('t, 'm, 'q, 'cfg, 'pool, 'tx, 'w) pe_paged \<Rightarrow> string \<Rightarrow> string list \<Rightarrow> bool" where
  "ids_at e tok ps = (case e of (env, s, n) \<Rightarrow>
     distinct ps \<and> sorted_wrt (gh_coll (snd (snd env))) ps \<and>
     set ps = {p \<in> pe_ids env s. tok = '''' \<or> gh_coll (snd (snd env)) tok p \<and> p \<noteq> tok})"

definition ids_page :: "('t, 'm, 'q, 'cfg, 'pool, 'tx, 'w) pe_paged \<Rightarrow> string \<Rightarrow> (string list \<times> string) res" where
  "ids_page e tok = (case e of (env, s, n) \<Rightarrow> pe_PersistenceIDs (fst (snd env)) n tok s)"

lemma coll_order:
  assumes "pe_rely env"
  shows "gh_coll (snd (snd env)) a b \<Longrightarrow> gh_coll (snd (snd env)) b a \<Longrightarrow> a = b"
    and "gh_coll (snd (snd env)) a b \<Longrightarrow> gh_coll (snd (snd env)) b c \<Longrightarrow> gh_coll (snd (snd env)) a c"
proof -
  have S: "schema_contract (snd (snd env))" using assms by (simp add: pe_rely_def pgenv_ok_def pg_contract_def)
  show "gh_coll (snd (snd env)) a b \<Longrightarrow> gh_coll (snd (snd env)) b a \<Longrightarrow> a = b"
    using S unfolding schema_contract_def by blast
  show "gh_coll (snd (snd env)) a b \<Longrightarrow> gh_coll (snd (snd env)) b c \<Longrightarrow> gh_coll (snd (snd env)) a c"
    using S unfolding schema_contract_def by blast
qed

lemma ids_page_take:
  assumes "ids_rely e" "ids_at e tok ps" "ids_page e tok = Ok (xs, nxt)"
  shows "xs = take (unat (snd (snd e))) ps \<and> nxt = (if xs = [] then '''' else last xs)"
proof -
  obtain env s n where e: "e = (env, s, n)" by (cases e)
  have rely: "pe_rely env" "pe_inv env s" using assms(1) by (simp_all add: e ids_rely_def)
  have at: "distinct ps" "sorted_wrt (gh_coll (snd (snd env))) ps"
    "set ps = {p \<in> pe_ids env s. tok = '''' \<or> gh_coll (snd (snd env)) tok p \<and> p \<noteq> tok}"
    using assms(2) by (simp_all add: e ids_at_def)
  obtain qs where qs: "distinct qs" "sorted_wrt (gh_coll (snd (snd env))) qs" "set qs = set ps"
    "xs = take (unat n) qs" "nxt = (if xs = [] then '''' else last xs)"
    using pe_ids_page [OF rely, of n tok xs nxt] assms(3) at(3) by (auto simp: e ids_page_def pe_ids_def)
  have "qs = ps"
    using qs(2) at(2) qs(1) at(1) qs(3) coll_order(1) [OF rely(1)] by (rule sorted_wrt_unique)
  then show ?thesis using qs(4,5) by (simp add: e)
qed

lemma ids_page_rest:
  assumes "ids_rely e" "ids_at e tok ps" "ids_page e tok = Ok (xs, nxt)" "xs \<noteq> []"
  shows "ids_at e nxt (drop (unat (snd (snd e))) ps)"
proof -
  obtain env s n where e: "e = (env, s, n)" by (cases e)
  let ?R = "gh_coll (snd (snd env))" and ?ys = "drop (unat n) ps"
  have rely: "pe_rely env" "'''' \<notin> pe_ids env s" using assms(1) by (simp_all add: e ids_rely_def)
  note anti = coll_order(1) [OF rely(1)] and trans = coll_order(2) [OF rely(1)]
  have at: "distinct ps" "sorted_wrt ?R ps" "set ps = {p \<in> pe_ids env s. tok = '''' \<or> ?R tok p \<and> p \<noteq> tok}"
    using assms(2) by (simp_all add: e ids_at_def)
  obtain zs where ps: "ps = zs @ [nxt] @ ?ys" and xs: "xs = zs @ [nxt]"
    using ids_page_take [OF assms(1-3)] assms(4)
    by (metis append_assoc append_butlast_last_id append_take_drop_id e snd_conv)
  have d: "nxt \<notin> set zs" "nxt \<notin> set ?ys" "distinct ?ys" using at(1) by (subst (asm) ps, simp)+
  have s: "sorted_wrt ?R ?ys" "\<forall>y \<in> set ?ys. ?R nxt y" "\<forall>z \<in> set zs. ?R z nxt"
    using at(2) by (subst (asm) ps, auto simp: sorted_wrt_append)+
  have all: "set ps = set zs \<union> {nxt} \<union> set ?ys" by (subst ps) auto
  have "nxt \<in> set ps" using all by blast
  then have nxt: "nxt \<noteq> ''''" "tok = '''' \<or> ?R tok nxt \<and> nxt \<noteq> tok" using at(3) rely(2) by auto
  have "set ?ys = {p \<in> pe_ids env s. ?R nxt p \<and> p \<noteq> nxt}"
  proof (intro equalityI subsetI)
    fix p assume "p \<in> set ?ys"
    then show "p \<in> {p \<in> pe_ids env s. ?R nxt p \<and> p \<noteq> nxt}" using s(2) d(2) at(3) all by auto
  next
    fix p assume p: "p \<in> {p \<in> pe_ids env s. ?R nxt p \<and> p \<noteq> nxt}"
    then have "p \<in> set ps" using nxt anti trans unfolding at(3) by blast
    then show "p \<in> set ?ys" using p s(3) anti unfolding all by blast
  qed
  then show ?thesis using d(3) s(1) nxt(1) by (simp add: e ids_at_def)
qed

interpretation ids: pager ids_rely ids_at ids_page "\<lambda>e. unat (snd (snd e))"
proof unfold_locales
  fix e :: "('t, 'm, 'q, 'cfg, 'pool, 'tx, 'w) pe_paged"
  assume "ids_rely e"
  then show "0 < unat (snd (snd e))" by (auto simp: ids_rely_def word_less_nat_alt)
qed (simp_all add: ids_page_take ids_page_rest)

text \<open>
  C13. Listing the persistence ids of the Postgres store page by page, with pages of any positive
  size, ends after at most one page more than there are ids. If no page fails, it gives every id
  exactly once, in the order of the collation, as long as no event has the empty id (its token
  would start the listing again).
\<close>

theorem pg_ids_listing:
  assumes "pe_rely (L, D, G)" "pe_inv (L, D, G) s" "0 < n" "'''' \<notin> pe_ids (L, D, G) s"
    and "card (pe_ids (L, D, G) s) < fuel"
  shows "\<exists>r. read_pages fuel (\<lambda>tok. pe_PersistenceIDs D n tok s) '''' = Some r \<and>
    (\<forall>ps. r = Ok ps \<longrightarrow> distinct ps \<and> sorted_wrt (gh_coll G) ps \<and> set ps = pe_ids (L, D, G) s)"
proof (cases "pe_PersistenceIDs D n '''' s")
  case (Ok x)
  let ?e = "((L, D, G), s, n)"
  have page: "ids_page ?e = (\<lambda>tok. pe_PersistenceIDs D n tok s)" by (simp add: fun_eq_iff ids_page_def)
  have rely: "ids_rely ?e" using assms(1-4) by (simp add: ids_rely_def)
  obtain ps where ps: "distinct ps" "sorted_wrt (gh_coll G) ps" "set ps = pe_ids (L, D, G) s"
    using pe_ids_page [OF assms(1,2), of n "''''" "fst x" "snd x"] Ok by (auto simp: pe_ids_def)
  then have "ids_at ?e '''' ps" by (simp add: ids_at_def)
  moreover have "length ps < fuel" using assms(5) distinct_card [OF ps(1)] ps(3) by simp
  ultimately show ?thesis
    using ids.read_pages_ends [OF rely, of "''''" ps fuel] ps by (auto simp: page)
qed (use assms(5) in \<open>cases fuel, auto\<close>)+

theorem pg_ids_listing_witness:
  "read_pages 3 (\<lambda>tok. pe_PersistenceIDs ref_drv 1 tok wit_pg) '''' = Some (Ok [''p'', ''q''])"
proof -
  have ids: "pe_ids pe_wit_env wit_pg = {''p'', ''q''}"
    unfolding pe_ids_def wit_pg_inv(2) by (auto simp: wit_events_def ev_wit_def)
  have "case read_pages 3 (\<lambda>tok. pe_PersistenceIDs ref_drv 1 tok wit_pg) '''' of Some (Ok ps) \<Rightarrow> True | _ \<Rightarrow> False"
    by code_simp
  then obtain ps where run: "read_pages 3 (\<lambda>tok. pe_PersistenceIDs ref_drv 1 tok wit_pg) '''' = Some (Ok ps)"
    by (auto split: option.splits res.splits)
  have "\<exists>r. read_pages 3 (\<lambda>tok. pe_PersistenceIDs ref_drv 1 tok wit_pg) '''' = Some r \<and>
      (\<forall>ps. r = Ok ps \<longrightarrow> distinct ps \<and> sorted_wrt (gh_coll ref_ghost) ps \<and> set ps = {''p'', ''q''})"
    using pg_ids_listing [OF pe_rely_wit [unfolded pe_wit_env_def] wit_pg_inv(1) [unfolded pe_wit_env_def], of 1 3] ids
    by (simp add: pe_wit_env_def)
  then have ps: "distinct ps" "sorted_wrt (gh_coll ref_ghost) ps" "set ps = {''p'', ''q''}" using run by simp_all
  have "ps = [''p'', ''q'']"
    by (rule sorted_wrt_unique [where R = "gh_coll ref_ghost"])
      (use ps in \<open>auto simp: ref_ghost_def ref_coll_def\<close>)
  then show ?thesis using run by simp
qed

section \<open>Shard events\<close>

type_synonym ('t, 'm, 'q, 'cfg, 'pool, 'tx, 'w) pe_sharded =
  "('t, 'm, 'q, 'cfg, 'pool, 'tx, 'w) peenv \<times> ('pool, 'w) pe_store \<times> u64 \<times> u64"

text \<open>The events of a shard after an offset.\<close>

definition shard_after :: "u64 \<Rightarrow> i64 \<Rightarrow> event multiset \<Rightarrow> event multiset" where
  "shard_after n off E = filter_mset (\<lambda>e. ev_Shard e = n \<and> sint off < sint (ev_Timestamp e)) E"

text \<open>No two events of the shard have the same timestamp.\<close>

definition shard_times_differ :: "u64 \<Rightarrow> event multiset \<Rightarrow> bool" where
  "shard_times_differ n E \<longleftrightarrow> (\<forall>t. count (image_mset ev_Timestamp (filter_mset (\<lambda>e. ev_Shard e = n) E)) t \<le> 1)"

definition shard_rely :: "('t, 'm, 'q, 'cfg, 'pool, 'tx, 'w) pe_sharded \<Rightarrow> bool" where
  "shard_rely e = (case e of (env, s, n, limit) \<Rightarrow>
     pe_rely env \<and> pe_inv env s \<and> 0 < limit \<and> shard_times_differ n (pe_events env s))"

definition shard_at :: "('t, 'm, 'q, 'cfg, 'pool, 'tx, 'w) pe_sharded \<Rightarrow> i64 \<Rightarrow> event list \<Rightarrow> bool" where
  "shard_at e off es = (case e of (env, s, n, limit) \<Rightarrow>
     mset es = shard_after n off (pe_events env s) \<and> sorted (map (\<lambda>e. sint (ev_Timestamp e)) es))"

definition shard_page :: "('t, 'm, 'q, 'cfg, 'pool, 'tx, 'w) pe_sharded \<Rightarrow> i64 \<Rightarrow> (event list \<times> i64) res" where
  "shard_page e off = (case e of (env, s, n, limit) \<Rightarrow> pe_GetShardEvents (fst env) (fst (snd env)) n off limit s)"

lemma shard_times_distinct:
  assumes "shard_times_differ n E" "mset es = shard_after n off E"
  shows "distinct (map (\<lambda>e. sint (ev_Timestamp e)) es)"
proof -
  have "mset es \<subseteq># filter_mset (\<lambda>e. ev_Shard e = n) E"
    unfolding assms(2) shard_after_def filter_filter_mset [symmetric] by (rule multiset_filter_subset)
  then have "mset (map ev_Timestamp es) \<subseteq># image_mset ev_Timestamp (filter_mset (\<lambda>e. ev_Shard e = n) E)"
    by (simp add: image_mset_subseteq_mono)
  then have "count (mset (map ev_Timestamp es)) t \<le> 1" for t
    using assms(1) unfolding shard_times_differ_def by (meson mset_subset_eq_count order_trans)
  then have "distinct (map ev_Timestamp es)"
    by (metis One_nat_def count_mset_0_iff distinct_count_atmost_1 le_Suc_eq le_zero_eq)
  then show ?thesis by (auto simp: distinct_map inj_on_def dest!: signed_word_eqI)
qed

lemma shard_page_take:
  assumes "shard_rely e" "shard_at e off es" "shard_page e off = Ok (xs, nxt)"
  shows "xs = take (unat (snd (snd (snd e)))) es \<and> nxt = (if xs = [] then 0 else ev_Timestamp (last xs))"
proof -
  obtain env s n limit where e: "e = (env, s, n, limit)" by (cases e)
  have rely: "pe_rely env" "pe_inv env s" "shard_times_differ n (pe_events env s)"
    using assms(1) by (simp_all add: e shard_rely_def)
  have at: "mset es = shard_after n off (pe_events env s)" "sorted (map (\<lambda>e. sint (ev_Timestamp e)) es)"
    using assms(2) by (simp_all add: e shard_at_def)
  obtain fs where fs: "mset fs = mset es" "sorted (map (\<lambda>e. sint (ev_Timestamp e)) fs)"
    "xs = take (unat limit) fs" "nxt = (if xs = [] then 0 else ev_Timestamp (last xs))"
    using pe_shard [OF rely(1,2), of n off limit xs nxt] assms(3) at(1)
    by (auto simp: e shard_page_def shard_after_def)
  have "fs = es"
    using sorted_key_unique [OF fs(1) [symmetric] at(2) fs(2) shard_times_distinct [OF rely(3) at(1)]] by simp
  then show ?thesis using fs(3,4) by (simp add: e)
qed

lemma shard_page_rest:
  assumes "shard_rely e" "shard_at e off es" "shard_page e off = Ok (xs, nxt)" "xs \<noteq> []"
  shows "shard_at e nxt (drop (unat (snd (snd (snd e)))) es)"
proof -
  obtain env s n limit where e: "e = (env, s, n, limit)" by (cases e)
  let ?ts = "\<lambda>e. sint (ev_Timestamp e)" and ?E = "pe_events env s"
  have at: "mset es = shard_after n off ?E" "sorted (map ?ts es)" using assms(2) by (simp_all add: e shard_at_def)
  have dist: "distinct (map ?ts es)"
    using shard_times_distinct [OF _ at(1)] assms(1) by (simp add: e shard_rely_def)
  obtain ys where ys: "drop (unat limit) es = ys" by blast
  obtain zs z where es: "es = zs @ z # ys" and z: "nxt = ev_Timestamp z"
    using shard_page_take [OF assms(1-3)] assms(4) ys
    by (metis append.assoc append_Cons append_Nil append_butlast_last_id append_take_drop_id e snd_conv)
  have old: "\<not> ?ts z < ?ts x" if "x \<in> set zs" for x using at(2) that by (auto simp: es sorted_append)
  have new: "?ts z < ?ts y" if "y \<in> set ys" for y
  proof -
    have "?ts z \<le> ?ts y" using at(2) that by (simp add: es sorted_append)
    moreover have "?ts z \<noteq> ?ts y" using dist that by (auto simp: es)
    ultimately show ?thesis by simp
  qed
  have "sint off < ?ts z" using arg_cong [OF at(1), of set_mset] by (auto simp: es shard_after_def)
  then have "shard_after n nxt ?E = filter_mset (\<lambda>e. ?ts z < ?ts e) (shard_after n off ?E)"
    by (auto simp: shard_after_def filter_filter_mset z intro!: filter_mset_cong)
  also have "\<dots> = mset (filter (\<lambda>e. ?ts z < ?ts e) es)" by (simp add: at(1) [symmetric])
  also have "filter (\<lambda>e. ?ts z < ?ts e) es = ys"
    using old new by (simp add: es filter_id_conv)
  finally show ?thesis using at(2) by (simp add: e shard_at_def ys) (simp add: es sorted_append)
qed

interpretation shard: pager shard_rely shard_at shard_page "\<lambda>e. unat (snd (snd (snd e)))"
proof unfold_locales
  fix e :: "('t, 'm, 'q, 'cfg, 'pool, 'tx, 'w) pe_sharded"
  assume "shard_rely e"
  then show "0 < unat (snd (snd (snd e)))" by (auto simp: shard_rely_def word_less_nat_alt)
qed (simp_all add: shard_page_take shard_page_rest)

text \<open>
  C11. A projection that reads a shard of the Postgres store page by page, each page from the offset
  the last one returned, reaches the end, and if no page fails it has seen every event of the shard
  after its first offset, each once and in the order of their timestamps. This needs timestamps
  that differ: an event with the timestamp of the last event of a full page is lost.
\<close>

theorem pg_shard_stream:
  assumes "pe_rely (L, D, G)" "pe_inv (L, D, G) s" "0 < limit" "shard_times_differ n (pe_events (L, D, G) s)"
    and "size (shard_after n off (pe_events (L, D, G) s)) < fuel"
  shows "\<exists>r. read_pages fuel (\<lambda>off. pe_GetShardEvents L D n off limit s) off = Some r \<and>
    (\<forall>es. r = Ok es \<longrightarrow> mset es = shard_after n off (pe_events (L, D, G) s) \<and>
       sorted (map (\<lambda>e. sint (ev_Timestamp e)) es))"
proof (cases "pe_GetShardEvents L D n off limit s")
  case (Ok x)
  let ?e = "((L, D, G), s, n, limit)"
  have page: "shard_page ?e = (\<lambda>off. pe_GetShardEvents L D n off limit s)" by (simp add: fun_eq_iff shard_page_def)
  have rely: "shard_rely ?e" using assms(1-4) by (simp add: shard_rely_def)
  obtain es where es: "mset es = shard_after n off (pe_events (L, D, G) s)" "sorted (map (\<lambda>e. sint (ev_Timestamp e)) es)"
    using pe_shard [OF assms(1,2), of n off limit "fst x" "snd x"] Ok by (auto simp: shard_after_def)
  then have "shard_at ?e off es" by (simp add: shard_at_def)
  moreover have "length es < fuel" using assms(5) arg_cong [OF es(1), of size] by simp
  ultimately show ?thesis
    using shard.read_pages_ends [OF rely, of off es fuel] es by (auto simp: page)
qed (use assms(5) in \<open>cases fuel, auto\<close>)+

definition wit_stream :: "event list" where
  "wit_stream = [ev_wit ''p'' 1 10, ev_wit ''q'' 1 15, ev_wit ''p'' 3 30, ev_wit ''p'' 2 20]"

theorem pg_shard_stream_witness:
  "read_pages 5 (\<lambda>off. pe_GetShardEvents ref_protolib ref_drv 1 off 1 (snd (wit_pg_write wit_stream pe_wit))) 12 =
     Some (Ok [ev_wit ''q'' 1 15, ev_wit ''p'' 2 20, ev_wit ''p'' 3 30])"
proof -
  let ?s = "snd (wit_pg_write wit_stream pe_wit)"
  let ?run = "read_pages 5 (\<lambda>off. pe_GetShardEvents ref_protolib ref_drv 1 off 1 ?s) 12"
  let ?zs = "[ev_wit ''q'' 1 15, ev_wit ''p'' 2 20, ev_wit ''p'' 3 30]"
  have "fst (wit_pg_write wit_stream pe_wit) = Ok ()" by code_simp
  note w = wit_pg_ok [OF pe_wit_inv(1) this]
  have "mset (map pe_obs wit_stream) = mset wit_stream" by (simp add: wit_stream_def pe_obs_wit)
  then have ev: "pe_events pe_wit_env ?s = mset wit_stream" by (simp only: w(2) pe_wit_inv(2) add_0)
  have after: "shard_after 1 12 (mset wit_stream) = mset ?zs"
    by (simp add: shard_after_def wit_stream_def ev_wit_def)
  have "shard_times_differ 1 (mset wit_stream)"
    by (simp add: shard_times_differ_def wit_stream_def ev_wit_def)
  from pg_shard_stream [OF pe_rely_wit [unfolded pe_wit_env_def] w(1) [unfolded pe_wit_env_def], of 1 1 12 5] this
  have "\<exists>r. ?run = Some r \<and> (\<forall>es. r = Ok es \<longrightarrow> mset es = mset ?zs \<and> sorted (map (\<lambda>e. sint (ev_Timestamp e)) es))"
    unfolding ev [unfolded pe_wit_env_def] after by simp
  moreover have "case ?run of Some (Ok es) \<Rightarrow> True | _ \<Rightarrow> False" by code_simp
  ultimately obtain es where run: "?run = Some (Ok es)" and es: "mset es = mset ?zs"
    "sorted (map (\<lambda>e. sint (ev_Timestamp e)) es)"
    by (auto split: option.splits res.splits)
  have "es = ?zs"
    using sorted_key_unique [of ?zs es "\<lambda>e. sint (ev_Timestamp e)"] es by (simp add: ev_wit_def)
  then show ?thesis using run by simp
qed

end
