(* ===== verification/OffsetStore.thy ===== *)
theory OffsetStore
  imports Proto
begin

text \<open>
  The interface \<open>offsetstore.OffsetStore\<close>: \<open>WriteOffset\<close> sets the offset of a projection and
  a shard, \<open>GetCurrentOffset\<close> reads it, \<open>ResetOffset\<close> sets the value of every shard of a
  projection. \<open>cur env s\<close> is the offset kept for each projection and shard; \<open>now env s\<close>
  is the clock the store reads.
\<close>

definition offset_key :: "offset \<Rightarrow> string \<times> u64" where
  "offset_key r = (of_ProjectionName r, of_ShardNumber r)"

text \<open>The effect of a reset at a time on the offsets.\<close>

definition reset_to :: "string \<Rightarrow> i64 \<Rightarrow> i64 \<Rightarrow> (string \<times> u64 \<rightharpoonup> offset) \<Rightarrow> (string \<times> u64 \<rightharpoonup> offset)" where
  "reset_to name v ts m = (\<lambda>k. if fst k = name
     then map_option (\<lambda>r. r\<lparr>of_Value := v, of_Timestamp := ts\<rparr>) (m k) else m k)"

text \<open>
  The abstract offset table: a map, and what a command of a client does to it. A reset carries
  the time at which the store reads its clock. A client runs its commands in order and stops
  at the first that fails.
\<close>

datatype offset_cmd = CmdOffset offset | CmdReset i64 string i64

fun apply_offset_cmd :: "offset_cmd \<Rightarrow> (string \<times> u64 \<rightharpoonup> offset) \<Rightarrow> (string \<times> u64 \<rightharpoonup> offset)" where
  "apply_offset_cmd (CmdOffset x) m = m(offset_key x \<mapsto> x)"
| "apply_offset_cmd (CmdReset ts name v) m = reset_to name v ts m"

fun offset_cmd_ok :: "(offset \<Rightarrow> bool) \<Rightarrow> (string \<Rightarrow> bool) \<Rightarrow> offset_cmd \<Rightarrow> bool" where
  "offset_cmd_ok storable name_ok (CmdOffset x) \<longleftrightarrow> storable x"
| "offset_cmd_ok storable name_ok (CmdReset ts name v) \<longleftrightarrow> name_ok name"

fun run_offset_cmds ::
  "(offset option \<Rightarrow> 's \<Rightarrow> unit res \<times> 's) \<Rightarrow> (i64 \<Rightarrow> string \<Rightarrow> i64 \<Rightarrow> 's \<Rightarrow> unit res \<times> 's) \<Rightarrow>
   offset_cmd list \<Rightarrow> 's \<Rightarrow> unit res \<times> 's" where
  "run_offset_cmds W R [] s = (Ok (), s)"
| "run_offset_cmds W R (c # cs) s =
     (case (case c of CmdOffset x \<Rightarrow> W (Some x) s | CmdReset ts name v \<Rightarrow> R ts name v s) of
        (Ok _, s') \<Rightarrow> run_offset_cmds W R cs s'
      | (Err e, s') \<Rightarrow> (Err e, s')
      | (Panic, s') \<Rightarrow> (Panic, s'))"

locale offset_store =
  fixes rely :: "'env \<Rightarrow> bool"
    and inv :: "'env \<Rightarrow> 's \<Rightarrow> bool"
    and storable :: "offset \<Rightarrow> bool"
    and name_ok :: "string \<Rightarrow> bool"
    and cur :: "'env \<Rightarrow> 's \<Rightarrow> string \<times> u64 \<rightharpoonup> offset"
    and now :: "'env \<Rightarrow> 's \<Rightarrow> i64"
    and WriteOffset :: "'env \<Rightarrow> offset option \<Rightarrow> 's \<Rightarrow> unit res \<times> 's"
    and GetCurrentOffset :: "'env \<Rightarrow> projection_id option \<Rightarrow> 's \<Rightarrow> offset option res"
    and ResetOffset :: "'env \<Rightarrow> string \<Rightarrow> i64 \<Rightarrow> 's \<Rightarrow> unit res \<times> 's"
  assumes write_inv: "\<lbrakk>rely env; inv env s; storable x; WriteOffset env (Some x) s = (r, s')\<rbrakk> \<Longrightarrow> inv env s'"
    and write_ok: "\<lbrakk>rely env; inv env s; storable x; WriteOffset env (Some x) s = (Ok (), s')\<rbrakk>
      \<Longrightarrow> cur env s' = (cur env s)(offset_key x \<mapsto> x)"
    and write_fail: "\<lbrakk>rely env; inv env s; storable x; WriteOffset env (Some x) s = (r, s'); r \<noteq> Ok ()\<rbrakk>
      \<Longrightarrow> cur env s' = cur env s \<or> cur env s' = (cur env s)(offset_key x \<mapsto> x)"
    and get_ok: "\<lbrakk>rely env; inv env s; name_ok n; GetCurrentOffset env (Some \<lparr>pj_ProjectionName = n, pj_ShardNumber = k\<rparr>) s = Ok y\<rbrakk>
      \<Longrightarrow> y = cur env s (n, k)"
    and reset_inv: "\<lbrakk>rely env; inv env s; name_ok n; ResetOffset env n v s = (r, s')\<rbrakk> \<Longrightarrow> inv env s'"
    and reset_ok: "\<lbrakk>rely env; inv env s; name_ok n; ResetOffset env n v s = (Ok (), s')\<rbrakk>
      \<Longrightarrow> cur env s' = reset_to n v (now env s) (cur env s)"
    and storable_name: "storable x \<Longrightarrow> name_ok (of_ProjectionName x)"
begin

lemma read_your_offset:
  assumes "rely env" "inv env s" "storable x" "WriteOffset env (Some x) s = (Ok (), s')"
    and "GetCurrentOffset env (Some \<lparr>pj_ProjectionName = of_ProjectionName x, pj_ShardNumber = of_ShardNumber x\<rparr>) s' = Ok y"
  shows "y = Some x"
proof -
  have "inv env s'" using assms(1-4) by (rule write_inv)
  from get_ok [OF assms(1) this storable_name [OF assms(3)] assms(5)] write_ok [OF assms(1-4)]
  show ?thesis by (simp add: offset_key_def)
qed

text \<open>After a reset every shard that has an offset has the new value, and no other projection moves.\<close>

lemma read_after_reset:
  assumes "rely env" "inv env s" "name_ok n" "ResetOffset env n v s = (Ok (), s')" "name_ok m"
    and "GetCurrentOffset env (Some \<lparr>pj_ProjectionName = m, pj_ShardNumber = k\<rparr>) s' = Ok y"
  shows "y = (if m = n then map_option (\<lambda>r. r\<lparr>of_Value := v, of_Timestamp := now env s\<rparr>) (cur env s (m, k))
              else cur env s (m, k))"
proof -
  have "inv env s'" using assms(1-4) by (rule reset_inv)
  from get_ok [OF assms(1) this assms(5,6)] reset_ok [OF assms(1-4)]
  show ?thesis by (simp add: reset_to_def)
qed

text \<open>The store refines the abstract table; \<open>at t\<close> is the environment whose clock reads \<open>t\<close>.\<close>

lemma run_offset_cmds_cur:
  assumes "\<And>t. rely (at t)" "\<And>t. inv (at t) = inv (at 0)" "\<And>t. cur (at t) = cur (at 0)" "\<And>t s. now (at t) s = t"
    and "list_all (offset_cmd_ok storable name_ok) cs"
    and "run_offset_cmds (WriteOffset (at 0)) (\<lambda>t. ResetOffset (at t)) cs s = (Ok (), s')" "inv (at 0) s"
  shows "inv (at 0) s' \<and> cur (at 0) s' = fold apply_offset_cmd cs (cur (at 0) s)"
  using assms(5-7)
proof (induction cs arbitrary: s)
  case (Cons c cs)
  let ?step = "case c of CmdOffset x \<Rightarrow> WriteOffset (at 0) (Some x) s | CmdReset t n v \<Rightarrow> ResetOffset (at t) n v s"
  obtain s1 where step: "?step = (Ok (), s1)"
    and rest: "run_offset_cmds (WriteOffset (at 0)) (\<lambda>t. ResetOffset (at t)) cs s1 = (Ok (), s')"
    using Cons.prems(2) by (cases ?step) (auto split: res.splits)
  have "inv (at 0) s1 \<and> cur (at 0) s1 = apply_offset_cmd c (cur (at 0) s)"
  proof (cases c)
    case (CmdOffset x)
    then have "storable x" "WriteOffset (at 0) (Some x) s = (Ok (), s1)" using Cons.prems(1) step by simp_all
    with write_inv [OF assms(1) Cons.prems(3) this] write_ok [OF assms(1) Cons.prems(3) this]
    show ?thesis by (simp add: CmdOffset)
  next
    case (CmdReset t n v)
    then have r: "name_ok n" "ResetOffset (at t) n v s = (Ok (), s1)" using Cons.prems(1) step by simp_all
    have "inv (at t) s" using Cons.prems(3) assms(2) by metis
    with reset_inv [OF assms(1) this r] reset_ok [OF assms(1) this r] show ?thesis
      using assms(2,3) [of t] by (simp add: CmdReset assms(4))
  qed
  then show ?case using Cons.IH [OF _ rest] Cons.prems(1) by simp
qed simp

lemma write_after_reset:
  assumes "rely env" "inv env s" "name_ok n" "ResetOffset env n v s = (Ok (), s')" "storable x"
    and "WriteOffset env (Some x) s' = (Ok (), s'')"
  shows "cur env s'' = (reset_to n v (now env s) (cur env s))(offset_key x \<mapsto> x)"
proof -
  have "inv env s'" using assms(1-4) by (rule reset_inv)
  from write_ok [OF assms(1) this assms(5,6)] reset_ok [OF assms(1-4)] show ?thesis by simp
qed

end

end
