(* ===== verification/OffsetPg.thy ===== *)
theory OffsetPg
  imports PgStore TypedTable OffsetStore
begin

text \<open>
  \<open>offsetstore/postgres\<close>: the Postgres offset store of \<open>offset_store.go\<close> over the layer of
  \<open>internal/postgres.go\<close>. \<open>now\<close> is \<open>time.Now().UnixMilli()\<close> at the moment of a call.
\<close>

section \<open>The row\<close>

record offset_row =
  or_ProjectionName :: string
  or_ShardNumber :: u64
  or_CurrentOffset :: i64
  or_Timestamp :: i64

definition zero_offset_row :: offset_row where
  "zero_offset_row = \<lparr>or_ProjectionName = [], or_ShardNumber = 0, or_CurrentOffset = 0, or_Timestamp = 0\<rparr>"

definition po_columns :: "string list" where
  "po_columns = [''projection_name'', ''shard_number'', ''current_offset'', ''timestamp'']"

definition po_tableName :: string where
  "po_tableName = ''offsets_store''"

definition scan_offset_row :: "row \<Rightarrow> offset_row res" where
  "scan_offset_row r =
     bind_res (scan_string (r ''projection_name'')) (\<lambda>name.
     bind_res (scan_u64 (r ''shard_number'')) (\<lambda>shard.
     bind_res (scan_i64 (r ''current_offset'')) (\<lambda>cur.
     bind_res (scan_i64 (r ''timestamp'')) (\<lambda>ts.
       Ok \<lparr>or_ProjectionName = name, or_ShardNumber = shard, or_CurrentOffset = cur, or_Timestamp = ts\<rparr>))))"

section \<open>offset\_store.go\<close>

record offset_config =
  oc_DBHost :: string
  oc_DBPort :: i64
  oc_DBName :: string
  oc_DBUser :: string
  oc_DBPassword :: string
  oc_DBSchema :: string

definition po_NewOffsetStore :: "offset_config \<Rightarrow> 'w \<Rightarrow> ('pool, 'w) pg_store" where
  "po_NewOffsetStore config w =
     (let dbConfig = NewConfig (oc_DBHost config) (oc_DBPort config) (oc_DBUser config)
                       (oc_DBPassword config) (oc_DBName config);
          dbConfig = dbConfig\<lparr>dc_DBSchema := oc_DBSchema config\<rparr>
      in \<lparr>st_db = plain_newDatabase dbConfig, st_connected = False, st_world = w\<rparr>)"

definition po_Connect ::
  "('q, 'cfg, 'pool, 'tx, 'w) pgdrv \<Rightarrow> ('pool, 'w) pg_store \<Rightarrow> unit res \<times> ('pool, 'w) pg_store" where
  "po_Connect D x =
     (if st_connected x then (Ok (), x)
      else case pg_Connect D (st_pair x) of
             (Err err, p) \<Rightarrow> (Err err, st_put p x)
           | (Panic, p) \<Rightarrow> (Panic, st_put p x)
           | (Ok _, p) \<Rightarrow> (Ok (), (st_put p x)\<lparr>st_connected := True\<rparr>))"

definition po_Disconnect ::
  "('q, 'cfg, 'pool, 'tx, 'w) pgdrv \<Rightarrow> ('pool, 'w) pg_store \<Rightarrow> unit res \<times> ('pool, 'w) pg_store" where
  "po_Disconnect D x =
     (if \<not> st_connected x then (Ok (), x)
      else case pg_Disconnect D (st_pair x) of
             (Err err, p) \<Rightarrow> (Err err, st_put p x)
           | (Panic, p) \<Rightarrow> (Panic, st_put p x)
           | (Ok _, p) \<Rightarrow> (Ok (), (st_put p x)\<lparr>st_connected := False\<rparr>))"

definition po_Ping ::
  "('q, 'cfg, 'pool, 'tx, 'w) pgdrv \<Rightarrow> ('pool, 'w) pg_store \<Rightarrow> unit res \<times> ('pool, 'w) pg_store" where
  "po_Ping D x =
     (if \<not> st_connected x then po_Connect D x
      else let (r, p) = pg_Ping D (st_pair x) in (r, st_put p x))"

definition po_upsert :: "offset \<Rightarrow> insert_stmt" where
  "po_upsert offset =
     sq_OnConflictUpdate [''projection_name'', ''shard_number''] [''current_offset'', ''timestamp'']
       (sq_Values
         [SText (of_ProjectionName offset), bind_u64 (of_ShardNumber offset),
          bind_i64 (of_Value offset), bind_i64 (of_Timestamp offset)]
         (sq_Insert po_tableName po_columns))"

definition offset_not_connected :: goerr where
  "offset_not_connected = ErrNew ''offset store is not connected''"

definition po_WriteOffset ::
  "('q, 'cfg, 'pool, 'tx, 'w) pgdrv \<Rightarrow> offset option \<Rightarrow> ('pool, 'w) pg_store \<Rightarrow>
   unit res \<times> ('pool, 'w) pg_store" where
  "po_WriteOffset D offset x =
     (if \<not> st_connected x then (Err offset_not_connected, x)
      else case offset of
        None \<Rightarrow> (Err (ErrNew ''offset record is not defined''), x)
      | Some off \<Rightarrow>
          if off = zero_offset then (Err (ErrNew ''offset record is not defined''), x)
          else case to_sql D (Insert (po_upsert off)) of
            Err err \<Rightarrow> (Err (ErrWrap ''unable to build sql upsert statement'' err), x)
          | Panic \<Rightarrow> (Panic, x)
          | Ok query \<Rightarrow>
              (case pg_Exec D query (st_pair x) of
                 (Err err, p) \<Rightarrow> (Err (ErrWrap ''failed to write offset'' err), st_put p x)
               | (Panic, p) \<Rightarrow> (Panic, st_put p x)
               | (Ok _, p) \<Rightarrow> (Ok (), st_put p x)))"

definition po_select :: "projection_id \<Rightarrow> select_stmt" where
  "po_select projectionID =
     sq_Where (CondEq ''shard_number'' (bind_u64 (pj_ShardNumber projectionID)))
       (sq_Where (CondEq ''projection_name'' (SText (pj_ProjectionName projectionID)))
         (sq_Select po_columns po_tableName))"

definition po_GetCurrentOffset ::
  "('q, 'cfg, 'pool, 'tx, 'w) pgdrv \<Rightarrow> projection_id option \<Rightarrow> ('pool, 'w) pg_store \<Rightarrow> offset option res" where
  "po_GetCurrentOffset D projectionID x =
     (if \<not> st_connected x then Err offset_not_connected
      else case to_sql D (Select (po_select (or_zero zero_projection_id projectionID))) of
        Err err \<Rightarrow> Err (ErrWrap ''failed to build the select sql statement'' err)
      | Panic \<Rightarrow> Panic
      | Ok query \<Rightarrow>
          (case bind_res (pg_Select D query (st_pair x))
                  (\<lambda>y. case y of None \<Rightarrow> Ok zero_offset_row | Some r \<Rightarrow> scan_offset_row r) of
             Err err \<Rightarrow> Err (ErrWrap ''failed to fetch the current offset from the database'' err)
           | Panic \<Rightarrow> Panic
           | Ok row \<Rightarrow>
               if or_ProjectionName row = '''' then Ok None
               else Ok (Some \<lparr>of_ShardNumber = or_ShardNumber row, of_ProjectionName = or_ProjectionName row,
                              of_Value = or_CurrentOffset row, of_Timestamp = or_Timestamp row\<rparr>)))"

definition po_update :: "string \<Rightarrow> i64 \<Rightarrow> i64 \<Rightarrow> update_stmt" where
  "po_update projectionName value timestamp =
     sq_UpdateWhere (CondEq ''projection_name'' (SText projectionName))
       (sq_Set ''timestamp'' (bind_i64 timestamp)
         (sq_Set ''current_offset'' (bind_i64 value) (sq_Update po_tableName)))"

definition po_ResetOffset ::
  "('q, 'cfg, 'pool, 'tx, 'w) pgdrv \<Rightarrow> i64 \<Rightarrow> string \<Rightarrow> i64 \<Rightarrow> ('pool, 'w) pg_store \<Rightarrow>
   unit res \<times> ('pool, 'w) pg_store" where
  "po_ResetOffset D now projectionName value x =
     (if \<not> st_connected x then (Err offset_not_connected, x)
      else case to_sql D (Update (po_update projectionName value now)) of
        Err err \<Rightarrow> (Err (ErrWrap ''unable to build sql update statement'' err), x)
      | Panic \<Rightarrow> (Panic, x)
      | Ok query \<Rightarrow>
          (case pg_Exec D query (st_pair x) of
             (Err err, p) \<Rightarrow> (Err (ErrWrap ''failed to reset offset'' err), st_put p x)
           | (Panic, p) \<Rightarrow> (Panic, st_put p x)
           | (Ok _, p) \<Rightarrow> (Ok (), st_put p x)))"

section \<open>Lifecycle\<close>

lemma po_store: "po_Connect = store_Connect" "po_Disconnect = store_Disconnect" "po_Ping = store_Ping"
  by (simp_all add: fun_eq_iff po_Connect_def po_Disconnect_def po_Ping_def store_defs)

interpretation po_life: lifecycle "\<lambda>_. True" st_connected po_Connect po_Disconnect po_Ping
  unfolding po_store by (rule store_life.lifecycle_axioms)

section \<open>The table as offsets\<close>

definition offset_row_values :: "offset_row \<Rightarrow> sqlval list" where
  "offset_row_values x = [SText (or_ProjectionName x), bind_u64 (or_ShardNumber x),
     bind_i64 (or_CurrentOffset x), bind_i64 (or_Timestamp x)]"

interpretation po_table: typed_table po_columns offset_row_values scan_offset_row
proof unfold_locales
  show "scan_offset_row (row_of po_columns (offset_row_values x)) = Ok x" for x
    by (simp add: scan_offset_row_def row_of_def po_columns_def offset_row_values_def)
  show "scan_offset_row r = scan_offset_row r'" if "\<And>c. c \<in> set po_columns \<Longrightarrow> r c = r' c" for r r'
    using that by (simp add: scan_offset_row_def po_columns_def)
  show "r c = row_of po_columns (offset_row_values x) c"
    if "scan_offset_row r = Ok x" "c \<in> set po_columns" for r x c
  proof -
    have "r ''projection_name'' = SText (or_ProjectionName x)" "r ''shard_number'' = bind_u64 (or_ShardNumber x)"
      "r ''current_offset'' = bind_i64 (or_CurrentOffset x)" "r ''timestamp'' = bind_i64 (or_Timestamp x)"
      using that(1) by (auto simp: scan_offset_row_def bind_res_Ok_iff dest!: scan_Ok)
    then show ?thesis
      using that(2) by (auto simp: row_of_def po_columns_def offset_row_values_def)
  qed
qed

section \<open>The OffsetStore contract\<close>

text \<open>The environment: the driver with its ghost state, and the reading of the clock.\<close>

type_synonym ('q, 'cfg, 'pool, 'tx, 'w) poenv = "('q, 'cfg, 'pool, 'tx, 'w) pgenv \<times> i64"

abbreviation po_keys :: "string list" where
  "po_keys \<equiv> [''projection_name'', ''shard_number'']"

definition offset_of_row :: "offset_row \<Rightarrow> offset" where
  "offset_of_row row = \<lparr>of_ShardNumber = or_ShardNumber row, of_ProjectionName = or_ProjectionName row,
     of_Value = or_CurrentOffset row, of_Timestamp = or_Timestamp row\<rparr>"

definition row_of_offset :: "offset \<Rightarrow> offset_row" where
  "row_of_offset x = \<lparr>or_ProjectionName = of_ProjectionName x, or_ShardNumber = of_ShardNumber x,
     or_CurrentOffset = of_Value x, or_Timestamp = of_Timestamp x\<rparr>"

lemma offset_of_row_inverse [simp]: "offset_of_row (row_of_offset x) = x"
  by (simp add: offset_of_row_def row_of_offset_def)

definition po_rely :: "('q, 'cfg, 'pool, 'tx, 'w) poenv \<Rightarrow> bool" where
  "po_rely env \<longleftrightarrow> pgenv_ok (fst env) \<and> gh_pk (snd (fst env)) ''offsets_store'' = po_keys"

abbreviation po_T :: "('q, 'cfg, 'pool, 'tx, 'w) poenv \<Rightarrow> ('pool, 'w) pgdb \<Rightarrow> row multiset" where
  "po_T env p \<equiv> pg_tables (fst env) p ''offsets_store''"

definition po_inv :: "('q, 'cfg, 'pool, 'tx, 'w) poenv \<Rightarrow> ('pool, 'w) pg_store \<Rightarrow> bool" where
  "po_inv env s \<longleftrightarrow> pg_ready (fst env) (st_pair s) \<and> well_typed scan_offset_row (po_T env (st_pair s))"

definition po_find :: "row multiset \<Rightarrow> string \<times> u64 \<Rightarrow> offset option" where
  "po_find T k =
     map_option (\<lambda>r. offset_of_row (the_ok (scan_offset_row r))) (find_row po_keys [SText (fst k), bind_u64 (snd k)] T)"

definition po_cur :: "('q, 'cfg, 'pool, 'tx, 'w) poenv \<Rightarrow> ('pool, 'w) pg_store \<Rightarrow> string \<times> u64 \<rightharpoonup> offset" where
  "po_cur env s = po_find (po_T env (st_pair s))"

lemma po_upsert_fields:
  "ins_into (po_upsert x) = ''offsets_store''"
  "ins_conflict (po_upsert x) = Some (po_keys, [''current_offset'', ''timestamp''])"
  "ins_columns (po_upsert x) = po_columns" "ins_values (po_upsert x) = [offset_row_values (row_of_offset x)]"
  by (simp_all add: po_upsert_def sq_defs po_tableName_def offset_row_values_def row_of_offset_def)

lemma po_insert:
  fixes x :: offset and T :: "row multiset"
  assumes "keyed po_keys T" "well_typed scan_offset_row T"
  defines "T' \<equiv> insert_row (Some (po_keys, [''current_offset'', ''timestamp'']))
      (row_of po_columns (offset_row_values (row_of_offset x))) T"
  shows "well_typed scan_offset_row T'" and "po_find T' = (po_find T)(offset_key x \<mapsto> x)"
proof -
  let ?us = "[''current_offset'', ''timestamp'']" and ?n = "row_of po_columns (offset_row_values (row_of_offset x))"
  have cols: "set po_keys \<subseteq> set po_columns" "set po_keys \<inter> set ?us = {}" "set po_columns \<subseteq> set po_keys \<union> set ?us"
    by (simp_all add: po_columns_def)
  show "well_typed scan_offset_row T'"
    unfolding T'_def by (rule po_table.upsert_content(1) [OF assms(1,2) cols])
  have key: "map ?n po_keys = [SText (of_ProjectionName x), bind_u64 (of_ShardNumber x)]"
    by (simp add: row_of_def po_columns_def offset_row_values_def row_of_offset_def)
  have over: "scan_offset_row (overwrite ?us ?n r) = Ok (row_of_offset x)"
    if "find_row po_keys (map ?n po_keys) T = Some r" for r
    using po_table.scan_overwrite [OF _ cols(3), of r] that unfolding find_row_Some_iff [OF assms(1)] by blast
  show "po_find T' = (po_find T)(offset_key x \<mapsto> x)"
  proof
    fix k
    show "po_find T' k = ((po_find T)(offset_key x \<mapsto> x)) k"
    proof (cases "k = offset_key x")
      case True
      then have k: "[SText (fst k), bind_u64 (snd k)] = map ?n po_keys" by (simp only: key) (simp add: offset_key_def)
      show ?thesis
        unfolding po_find_def T'_def find_row_insert_row [OF assms(1) cols(2)] k
        using True over po_table.scan_vals by (simp del: list.map split: option.split)
    next
      case False
      then have k: "[SText (fst k), bind_u64 (snd k)] \<noteq> map ?n po_keys"
        by (simp only: key) (auto simp: offset_key_def prod_eq_iff)
      then show ?thesis
        unfolding po_find_def T'_def find_row_insert_row [OF assms(1) cols(2)]
        using False by (simp del: list.map add: po_find_def)
    qed
  qed
qed

lemma po_update_fields:
  "upd_table (po_update n v ts) = ''offsets_store''"
  "upd_set (po_update n v ts) = [(''current_offset'', bind_i64 v), (''timestamp'', bind_i64 ts)]"
  "matches coll (upd_where (po_update n v ts)) r \<longleftrightarrow> r ''projection_name'' = SText n"
  by (simp_all add: po_update_def sq_defs po_tableName_def matches_def)

lemma po_reset:
  fixes n :: string and v ts :: i64 and T :: "row multiset"
  assumes "keyed po_keys T" "well_typed scan_offset_row T"
  defines "f \<equiv> \<lambda>r. if r ''projection_name'' = SText n
     then (\<lambda>c. case map_of [(''current_offset'', bind_i64 v), (''timestamp'', bind_i64 ts)] c of Some y \<Rightarrow> y | None \<Rightarrow> r c)
     else r"
  shows "well_typed scan_offset_row (image_mset f T)"
    and "po_find (image_mset f T) = reset_to n v ts (po_find T)"
proof -
  let ?g = "\<lambda>x. if or_ProjectionName x = n then x\<lparr>or_CurrentOffset := v, or_Timestamp := ts\<rparr> else x"
  have scan: "scan_offset_row (f r) = Ok (?g x)" if "scan_offset_row r = Ok x" for r x
  proof -
    have "r ''projection_name'' = SText (or_ProjectionName x)" "r ''shard_number'' = bind_u64 (or_ShardNumber x)"
      using that by (auto simp: scan_offset_row_def bind_res_Ok_iff dest!: scan_Ok)
    then show ?thesis using that
      by (auto simp: f_def scan_offset_row_def)
  qed
  then show "well_typed scan_offset_row (image_mset f T)"
    by (intro content_image(1) [OF assms(2), of f ?g]) blast
  have keys: "map (f r) po_keys = map r po_keys" for r by (simp add: f_def)
  show "po_find (image_mset f T) = reset_to n v ts (po_find T)"
  proof
    fix k
    show "po_find (image_mset f T) k = reset_to n v ts (po_find T) k"
    proof (cases "find_row po_keys [SText (fst k), bind_u64 (snd k)] T")
      case None
      then show ?thesis by (auto simp: po_find_def find_row_image [OF assms(1) keys] reset_to_def)
    next
      case (Some r)
      then have "r \<in># T" and name: "r ''projection_name'' = SText (fst k)"
        using find_row_Some_iff [OF assms(1)] by auto
      then obtain x where x: "scan_offset_row r = Ok x" using assms(2) by (auto simp: well_typed_def is_ok_iff)
      then have "or_ProjectionName x = fst k" using name by (auto simp: scan_offset_row_def bind_res_Ok_iff)
      with Some scan [OF x] x show ?thesis
        by (auto simp: po_find_def find_row_image [OF assms(1) keys] reset_to_def offset_of_row_def)
    qed
  qed
qed

lemma po_keyed: "po_rely env \<Longrightarrow> pg_ready (fst env) p \<Longrightarrow> keyed po_keys (po_T env p)"
  using pgdb.pk_keyed [of "fst env" p "''offsets_store''"] by (simp add: po_rely_def)

text \<open>The statement of a call, executed: the layer's promise for a store call.\<close>

lemma po_exec_cases:
  assumes "po_rely env" "po_inv env s" "to_sql (fst (fst env)) st = Ok q"
    and "pg_Exec (fst (fst env)) q (st_pair s) = (r, p)"
  shows "pg_ready (fst env) p"
    and "r = Ok () \<Longrightarrow> po_T env p = exec_stmt (gh_coll (snd (fst env))) st (pg_tables (fst env) (st_pair s)) ''offsets_store''"
    and "po_T env p = po_T env (st_pair s) \<or>
      po_T env p = exec_stmt (gh_coll (snd (fst env))) st (pg_tables (fst env) (st_pair s)) ''offsets_store''"
  using pg_Exec_contract [of "fst env" "st_pair s" st q r p] assms
  by (auto simp: po_rely_def po_inv_def pg_renders_def)

lemma po_WriteOffset_all:
  assumes "po_rely env" "po_inv env s" "of_ProjectionName x \<noteq> []"
    and "po_WriteOffset (fst (fst env)) (Some x) s = (r, s')"
  shows "po_inv env s'" and "r = Ok () \<Longrightarrow> po_cur env s' = (po_cur env s)(offset_key x \<mapsto> x)"
    and "po_cur env s' = po_cur env s \<or> po_cur env s' = (po_cur env s)(offset_key x \<mapsto> x)"
proof -
  let ?D = "fst (fst env)" and ?st = "Insert (po_upsert x)"
  have nz: "x \<noteq> zero_offset" using assms(3) by (auto simp: zero_offset_def)
  have "po_inv env s' \<and> (r = Ok () \<longrightarrow> po_cur env s' = (po_cur env s)(offset_key x \<mapsto> x)) \<and>
    (po_cur env s' = po_cur env s \<or> po_cur env s' = (po_cur env s)(offset_key x \<mapsto> x))"
  proof (cases "st_connected s \<and> is_ok (to_sql ?D ?st)")
    case False
    then have "s' = s \<and> r \<noteq> Ok ()" using assms(4) nz
      by (cases "to_sql ?D ?st") (auto simp: po_WriteOffset_def split: if_splits)
    then show ?thesis using assms(2) by simp
  next
    case True
    then obtain q where q: "to_sql ?D ?st = Ok q" by (auto simp: is_ok_iff)
    obtain r1 p where e: "pg_Exec ?D q (st_pair s) = (r1, p)" by (cases "pg_Exec ?D q (st_pair s)")
    then have s': "st_pair s' = p" and r: "r = Ok () \<longleftrightarrow> r1 = Ok ()"
      using assms(4) nz True q by (cases r1; auto simp: po_WriteOffset_def)+
    note ex = po_exec_cases [OF assms(1,2) q e]
    have "exec_stmt (gh_coll (snd (fst env))) ?st (pg_tables (fst env) (st_pair s)) ''offsets_store'' =
        insert_row (Some (po_keys, [''current_offset'', ''timestamp'']))
          (row_of po_columns (offset_row_values (row_of_offset x))) (po_T env (st_pair s))"
      by (simp add: po_upsert_fields)
    note ex' = ex(2,3) [unfolded this]
    have "keyed po_keys (po_T env (st_pair s))" "well_typed scan_offset_row (po_T env (st_pair s))"
      using assms(2) po_keyed [OF assms(1)] by (simp_all add: po_inv_def)
    note ins = po_insert [OF this, of x]
    have inv: "po_inv env s'"
      using ex'(2) ins(1) ex(1) assms(2) by (auto simp: po_inv_def s')
    show ?thesis using ex' ins(2) r inv by (auto simp: po_cur_def s')
  qed
  then show "po_inv env s'" and "r = Ok () \<Longrightarrow> po_cur env s' = (po_cur env s)(offset_key x \<mapsto> x)"
    and "po_cur env s' = po_cur env s \<or> po_cur env s' = (po_cur env s)(offset_key x \<mapsto> x)"
    by blast+
qed

lemma po_ResetOffset_all:
  assumes "po_rely env" "po_inv env s" "po_ResetOffset (fst (fst env)) (snd env) n v s = (r, s')"
  shows "po_inv env s'" and "r = Ok () \<Longrightarrow> po_cur env s' = reset_to n v (snd env) (po_cur env s)"
proof -
  let ?D = "fst (fst env)" and ?st = "Update (po_update n v (snd env))"
  have "po_inv env s' \<and> (r = Ok () \<longrightarrow> po_cur env s' = reset_to n v (snd env) (po_cur env s))"
  proof (cases "st_connected s \<and> is_ok (to_sql ?D ?st)")
    case False
    then have "s' = s \<and> r \<noteq> Ok ()" using assms(3)
      by (cases "to_sql ?D ?st") (auto simp: po_ResetOffset_def split: if_splits)
    then show ?thesis using assms(2) by simp
  next
    case True
    then obtain q where q: "to_sql ?D ?st = Ok q" by (auto simp: is_ok_iff)
    obtain r1 p where e: "pg_Exec ?D q (st_pair s) = (r1, p)" by (cases "pg_Exec ?D q (st_pair s)")
    then have s': "st_pair s' = p" and r: "r = Ok () \<longleftrightarrow> r1 = Ok ()"
      using assms(3) True q by (cases r1; auto simp: po_ResetOffset_def)+
    note ex = po_exec_cases [OF assms(1,2) q e]
    let ?f = "\<lambda>r. if r ''projection_name'' = SText n
       then (\<lambda>c. case map_of [(''current_offset'', bind_i64 v), (''timestamp'', bind_i64 (snd env))] c of
               Some y \<Rightarrow> y | None \<Rightarrow> r c)
       else r"
    have "exec_stmt (gh_coll (snd (fst env))) ?st (pg_tables (fst env) (st_pair s)) ''offsets_store'' =
        image_mset ?f (po_T env (st_pair s))"
      unfolding exec_stmt.simps po_update_fields by (simp only: fun_upd_same)
    note ex' = ex(2,3) [unfolded this]
    have "keyed po_keys (po_T env (st_pair s))" "well_typed scan_offset_row (po_T env (st_pair s))"
      using assms(2) po_keyed [OF assms(1)] by (simp_all add: po_inv_def)
    note res = po_reset [OF this, of n v "snd env"]
    have wt: "well_typed scan_offset_row (po_T env p)"
      using ex'(2)
    proof
      assume "po_T env p = po_T env (st_pair s)"
      then show ?thesis using assms(2) by (simp add: po_inv_def)
    next
      assume eq: "po_T env p = image_mset ?f (po_T env (st_pair s))"
      show ?thesis unfolding eq by (rule res(1))
    qed
    have "po_find (po_T env p) = reset_to n v (snd env) (po_find (po_T env (st_pair s)))" if "r = Ok ()"
    proof -
      have eq: "po_T env p = image_mset ?f (po_T env (st_pair s))" using ex'(1) that r by blast
      show ?thesis unfolding eq by (rule res(2))
    qed
    then show ?thesis using wt ex(1) by (simp add: po_inv_def po_cur_def s')
  qed
  then show "po_inv env s'" and "r = Ok () \<Longrightarrow> po_cur env s' = reset_to n v (snd env) (po_cur env s)"
    by blast+
qed

lemma po_select_fields:
  "sel_from (po_select k) = ''offsets_store''" "sel_columns (po_select k) = po_columns"
  "\<not> sel_distinct (po_select k)" "sel_limit (po_select k) = None"
  "matches coll (sel_where (po_select k)) =
     (\<lambda>r. map r po_keys = [SText (pj_ProjectionName k), bind_u64 (pj_ShardNumber k)])"
  by (simp_all add: po_select_def sq_defs po_tableName_def matches_def fun_eq_iff bind_u64_def)

lemma po_get_cur:
  assumes "po_rely env" "po_inv env s" "pj_ProjectionName k \<noteq> []"
    and "po_GetCurrentOffset (fst (fst env)) (Some k) s = Ok y"
  shows "y = po_cur env s (pj_ProjectionName k, pj_ShardNumber k)"
proof -
  let ?D = "fst (fst env)" and ?T = "po_T env (st_pair s)"
  let ?f = "find_row po_keys [SText (pj_ProjectionName k), bind_u64 (pj_ShardNumber k)] ?T"
  have conn: "st_connected s" using assms(4) by (auto simp: po_GetCurrentOffset_def split: if_splits)
  have ok: "pgenv_ok (fst env)" "pg_ready (fst env) (st_pair s)"
    and pk: "gh_pk (snd (fst env)) ''offsets_store'' = po_keys"
    using assms(1,2) by (simp_all add: po_rely_def po_inv_def)
  obtain q where q: "to_sql ?D (Select (po_select k)) = Ok q"
    using assms(4) conn by (cases "to_sql ?D (Select (po_select k))") (auto simp: po_GetCurrentOffset_def)
  obtain z where z: "pg_Select ?D q (st_pair s) = Ok z"
    using assms(4) conn q by (cases "pg_Select ?D q (st_pair s)") (auto simp: po_GetCurrentOffset_def)
  have "pg_renders (fst env) (Select (po_select k)) q" using q by (simp add: pg_renders_def)
  from pgdb.select_by_key [OF ok this z, of po_keys] pk
  have found: "z = map_option (project po_columns) ?f" by (simp add: po_select_fields)
  show ?thesis
  proof (cases ?f)
    case None
    then show ?thesis using assms(4) conn q z found
      by (simp add: po_GetCurrentOffset_def po_cur_def po_find_def zero_offset_row_def)
  next
    case (Some r)
    then have "r \<in># ?T" and name: "r ''projection_name'' = SText (pj_ProjectionName k)"
      using find_row_Some_iff [OF po_keyed [OF assms(1) ok(2)]] by auto
    then obtain x where x: "scan_offset_row r = Ok x"
      using assms(2) by (auto simp: po_inv_def well_typed_def is_ok_iff)
    then have "or_ProjectionName x = pj_ProjectionName k"
      using name by (auto simp: scan_offset_row_def bind_res_Ok_iff)
    then show ?thesis using assms(3,4) conn q z found Some x
      by (simp add: po_GetCurrentOffset_def po_cur_def po_find_def offset_of_row_def)
  qed
qed

interpretation po: offset_store po_rely po_inv "\<lambda>x. of_ProjectionName x \<noteq> []" "\<lambda>n. n \<noteq> []"
  po_cur "\<lambda>env _. snd env" "\<lambda>env. po_WriteOffset (fst (fst env))"
  "\<lambda>env. po_GetCurrentOffset (fst (fst env))" "\<lambda>env. po_ResetOffset (fst (fst env)) (snd env)"
proof unfold_locales
  fix env :: "('q, 'cfg, 'pool, 'tx, 'w) poenv" and s :: "('pool, 'w) pg_store" and n k y
  assume "po_rely env" "po_inv env s" "n \<noteq> []"
    "po_GetCurrentOffset (fst (fst env)) (Some \<lparr>pj_ProjectionName = n, pj_ShardNumber = k\<rparr>) s = Ok y"
  then show "y = po_cur env s (n, k)" using po_get_cur [of env s "\<lparr>pj_ProjectionName = n, pj_ShardNumber = k\<rparr>" y] by simp
qed (blast intro: po_WriteOffset_all(1,2) po_ResetOffset_all dest: po_WriteOffset_all(3))+

end
