(* ===== verification/OffsetMemory.thy ===== *)
theory OffsetMemory
  imports Proto MemDb OffsetStore StateStore
begin

text \<open>
  \<open>offsetstore/memory\<close>: the offset store over go-memdb, with its schema (\<open>schemas.go\<close>) and its
  operations (\<open>offset_store.go\<close>). The database holds pointers to \<open>offsetRow\<close>, and
  \<open>ResetOffset\<close> writes through them, so the store has a heap: a row is a number, the
  \<open>mo_heap\<close> its contents, \<open>mo_next\<close> the number of rows allocated, which is also the number
  of UUIDs drawn. The indexers of go-memdb read the rows as they are at the time of a call.
\<close>

section \<open>schemas.go\<close>

record mo_row =
  mr_Ordering :: string
  mr_ProjectionName :: string
  mr_ShardNumber :: u64
  mr_Value :: i64
  mr_Timestamp :: i64

definition mo_fields :: "mo_row \<Rightarrow> fields" where
  "mo_fields x =
     [''Ordering'' \<mapsto> FString (mr_Ordering x), ''ProjectionName'' \<mapsto> FString (mr_ProjectionName x),
      ''ShardNumber'' \<mapsto> FUint (mr_ShardNumber x), ''Value'' \<mapsto> FInt (mr_Value x),
      ''Timestamp'' \<mapsto> FInt (mr_Timestamp x)]"

definition offsetTableName :: string where "offsetTableName = ''offsets''"
definition offsetPK :: string where "offsetPK = ''id''"
definition currentOffsetIndex :: string where "currentOffsetIndex = ''currentOffset''"
definition projectionNameIndex :: string where "projectionNameIndex = ''projectionName''"
definition rowIndex :: string where "rowIndex = ''rowIndex''"
definition offsetShardIndex :: string where "offsetShardIndex = ''shardNumber''"

lemmas offset_names = offsetTableName_def offsetPK_def currentOffsetIndex_def projectionNameIndex_def
  rowIndex_def offsetShardIndex_def

definition offsetTable :: table_schema where
  "offsetTable =
     \<lparr>tb_Name = offsetTableName,
      tb_Indexes =
        [(offsetPK, \<lparr>ix_Name = offsetPK, ix_AllowMissing = False, ix_Unique = True,
            ix_Indexer = StringFieldIndex ''Ordering'' False\<rparr>),
         (offsetShardIndex, \<lparr>ix_Name = offsetShardIndex, ix_AllowMissing = False, ix_Unique = False,
            ix_Indexer = UintFieldIndex ''ShardNumber''\<rparr>),
         (currentOffsetIndex, \<lparr>ix_Name = currentOffsetIndex, ix_AllowMissing = False, ix_Unique = False,
            ix_Indexer = IntFieldIndex ''Value''\<rparr>),
         (projectionNameIndex, \<lparr>ix_Name = projectionNameIndex, ix_AllowMissing = False, ix_Unique = False,
            ix_Indexer = StringFieldIndex ''ProjectionName'' False\<rparr>),
         (rowIndex, \<lparr>ix_Name = rowIndex, ix_AllowMissing = False, ix_Unique = True,
            ix_Indexer = CompoundIndex [StringFieldIndex ''ProjectionName'' False, UintFieldIndex ''ShardNumber'']
              False\<rparr>)]\<rparr>"

definition offsetSchema :: db_schema where
  "offsetSchema = [(offsetTableName, offsetTable)]"

section \<open>offset\_store.go\<close>

record 'db mem_offsets =
  mo_db :: "'db option"
  mo_KeepRecordsAfterDisconnect :: bool
  mo_connected :: bool
  mo_heap :: "nat \<Rightarrow> mo_row"
  mo_next :: nat

definition mo_zero_row :: mo_row where
  "mo_zero_row = \<lparr>mr_Ordering = [], mr_ProjectionName = [], mr_ShardNumber = 0, mr_Value = 0, mr_Timestamp = 0\<rparr>"

definition mo_NewOffsetStore :: "'db mem_offsets" where
  "mo_NewOffsetStore =
     \<lparr>mo_db = None, mo_KeepRecordsAfterDisconnect = False, mo_connected = False,
      mo_heap = (\<lambda>_. mo_zero_row), mo_next = 0\<rparr>"

definition mo_deref :: "(nat \<Rightarrow> mo_row) \<Rightarrow> nat \<Rightarrow> fields" where
  "mo_deref h p = mo_fields (h p)"

definition mo_Connect :: "('db, 'txn, nat) memdb \<Rightarrow> 'db mem_offsets \<Rightarrow> unit res \<times> 'db mem_offsets" where
  "mo_Connect M x =
     (if mo_connected x then (Ok (), x)
      else case md_new M offsetSchema of
             Err err \<Rightarrow> (Err err, x)
           | Panic \<Rightarrow> (Panic, x)
           | Ok db \<Rightarrow> (Ok (), x\<lparr>mo_db := Some db, mo_connected := True\<rparr>))"

definition mo_Disconnect :: "('db, 'txn, nat) memdb \<Rightarrow> 'db mem_offsets \<Rightarrow> unit res \<times> 'db mem_offsets" where
  "mo_Disconnect M x =
     (if \<not> mo_connected x then (Ok (), x)
      else if mo_KeepRecordsAfterDisconnect x then (Ok (), x\<lparr>mo_connected := False\<rparr>)
      else case mo_db x of
        None \<Rightarrow> (Panic, x)
      | Some db \<Rightarrow>
          (case md_delete_all M (mo_deref (mo_heap x)) offsetTableName offsetPK (md_txn M db True) of
             (Err err, _) \<Rightarrow> (Err (ErrWrap ''failed to free memory resource'' err), x)
           | (Panic, _) \<Rightarrow> (Panic, x)
           | (Ok _, txn) \<Rightarrow> (Ok (), x\<lparr>mo_db := Some (md_commit M txn), mo_connected := False\<rparr>)))"

definition mo_Ping :: "('db, 'txn, nat) memdb \<Rightarrow> 'db mem_offsets \<Rightarrow> unit res \<times> 'db mem_offsets" where
  "mo_Ping M x = (if \<not> mo_connected x then mo_Connect M x else (Ok (), x))"

definition mo_not_connected :: goerr where
  "mo_not_connected = ErrNew ''offset store is not connected''"

definition mo_persist_err :: "goerr \<Rightarrow> goerr" where
  "mo_persist_err err = ErrWrap ''failed to persist offset record on to the offset store'' err"

definition mo_record :: "string \<Rightarrow> offset option \<Rightarrow> mo_row" where
  "mo_record uid offset =
     (let o1 = or_zero zero_offset offset in
      \<lparr>mr_Ordering = uid, mr_ProjectionName = of_ProjectionName o1, mr_ShardNumber = of_ShardNumber o1,
       mr_Value = of_Value o1, mr_Timestamp = of_Timestamp o1\<rparr>)"

text \<open>\<open>WriteOffset\<close> allocates a row and inserts the pointer.\<close>

definition mo_WriteOffset ::
  "('db, 'txn, nat) memdb \<Rightarrow> (nat \<Rightarrow> string) \<Rightarrow> offset option \<Rightarrow> 'db mem_offsets \<Rightarrow> unit res \<times> 'db mem_offsets" where
  "mo_WriteOffset M uuid offset x =
     (if \<not> mo_connected x then (Err mo_not_connected, x)
      else case mo_db x of
        None \<Rightarrow> (Panic, x)
      | Some db \<Rightarrow>
          (let txn = md_txn M db True;
               record = mo_next x;
               h = (mo_heap x)(record := mo_record (uuid record) offset);
               x = x\<lparr>mo_heap := h, mo_next := Suc record\<rparr>
           in case md_insert M (mo_deref h) offsetTableName record txn of
                (Err err, _) \<Rightarrow> (Err (mo_persist_err err), x)
              | (Panic, _) \<Rightarrow> (Panic, x)
              | (Ok _, txn) \<Rightarrow> (Ok (), x\<lparr>mo_db := Some (md_commit M txn)\<rparr>)))"

definition mo_current_msg :: "projection_id \<Rightarrow> string" where
  "mo_current_msg projectionID =
     ''failed to get the current offset for shard='' @ fmt_u64 (pj_ShardNumber projectionID) @
     '' given projection='' @ pj_ProjectionName projectionID"

definition mo_offset_of :: "mo_row \<Rightarrow> offset" where
  "mo_offset_of row =
     \<lparr>of_ShardNumber = mr_ShardNumber row, of_ProjectionName = mr_ProjectionName row,
      of_Value = mr_Value row, of_Timestamp = mr_Timestamp row\<rparr>"

definition mo_GetCurrentOffset ::
  "('db, 'txn, nat) memdb \<Rightarrow> projection_id option \<Rightarrow> 'db mem_offsets \<Rightarrow> offset option res" where
  "mo_GetCurrentOffset M projectionID x =
     (if \<not> mo_connected x then Err mo_not_connected
      else case mo_db x of
        None \<Rightarrow> Panic
      | Some db \<Rightarrow>
          (let p = or_zero zero_projection_id projectionID in
           case md_last M offsetTableName rowIndex
                  [ArgString (pj_ProjectionName p), ArgUint (pj_ShardNumber p)] (md_txn M db False) of
             Err err \<Rightarrow> if md_not_found M err then Ok None else Err (ErrWrap (mo_current_msg p) err)
           | Panic \<Rightarrow> Panic
           | Ok None \<Rightarrow> Ok None
           | Ok (Some raw) \<Rightarrow>
               (case as_row raw of
                  Some row \<Rightarrow> Ok (Some (mo_offset_of (mo_heap x row)))
                | None \<Rightarrow> Err (ErrNew (mo_current_msg p)))))"

text \<open>The two loops of \<open>ResetOffset\<close>: the writes through the pointers, then the inserts.\<close>

fun mo_touch :: "i64 \<Rightarrow> i64 \<Rightarrow> nat list \<Rightarrow> (nat \<Rightarrow> mo_row) \<Rightarrow> (nat \<Rightarrow> mo_row)" where
  "mo_touch value ts [] h = h"
| "mo_touch value ts (row # rows) h =
     mo_touch value ts rows (h(row := (h row)\<lparr>mr_Value := value, mr_Timestamp := ts\<rparr>))"

fun mo_insert_loop ::
  "('db, 'txn, nat) memdb \<Rightarrow> (nat \<Rightarrow> mo_row) \<Rightarrow> nat list \<Rightarrow> 'txn \<Rightarrow> unit res \<times> 'txn" where
  "mo_insert_loop M h [] txn = (Ok (), txn)"
| "mo_insert_loop M h (row # rows) txn =
     (case md_insert M (mo_deref h) offsetTableName row txn of
        (Err err, txn') \<Rightarrow> (Err (mo_persist_err err), txn')
      | (Panic, txn') \<Rightarrow> (Panic, txn')
      | (Ok _, txn') \<Rightarrow> mo_insert_loop M h rows txn')"

definition mo_ResetOffset ::
  "('db, 'txn, nat) memdb \<Rightarrow> i64 \<Rightarrow> string \<Rightarrow> i64 \<Rightarrow> 'db mem_offsets \<Rightarrow> unit res \<times> 'db mem_offsets" where
  "mo_ResetOffset M now projectionName value x =
     (if \<not> mo_connected x then (Err mo_not_connected, x)
      else case mo_db x of
        None \<Rightarrow> (Panic, x)
      | Some db \<Rightarrow>
          (case md_get M offsetTableName projectionNameIndex [ArgString projectionName] (md_txn M db False) of
             Err err \<Rightarrow> (Err (ErrWrap ''failed to fetch the list of shard number'' err), x)
           | Panic \<Rightarrow> (Panic, x)
           | Ok it \<Rightarrow>
               let offsetRows = collect_rows it;
                   x = x\<lparr>mo_heap := mo_touch value now offsetRows (mo_heap x)\<rparr>
               in case mo_insert_loop M (mo_heap x) offsetRows (md_txn M db True) of
                    (Err err, _) \<Rightarrow> (Err err, x)
                  | (Panic, _) \<Rightarrow> (Panic, x)
                  | (Ok _, txn) \<Rightarrow> (Ok (), x\<lparr>mo_db := Some (md_commit M txn)\<rparr>)))"

lemma offsetSchema_ok [simp]: "schema_ok offsetSchema"
  by (simp add: schema_ok_def offsetSchema_def offsetTable_def offset_names)

section \<open>Lifecycle\<close>

interpretation mo_life: lifecycle "\<lambda>_. True" mo_connected mo_Connect mo_Disconnect mo_Ping
proof unfold_locales
  fix M :: "('db, 'txn, nat) memdb" and s :: "'db mem_offsets" and r s'
  show "mo_connected s'" if "mo_Connect M s = (Ok (), s')"
    using that by (auto simp: mo_Connect_def split: if_splits res.splits)
  show "\<not> mo_connected s'" if "mo_Connect M s = (r, s')" "r \<noteq> Ok ()"
    using that by (auto simp: mo_Connect_def split: if_splits res.splits)
  show "\<not> mo_connected s'" if "mo_Disconnect M s = (Ok (), s')"
    using that by (auto simp: mo_Disconnect_def split: if_splits res.splits option.splits prod.splits)
  show "mo_connected s'" if "mo_connected s" "mo_Ping M s = (r, s')"
    using that by (simp add: mo_Ping_def)
qed (simp_all add: mo_Connect_def mo_Disconnect_def mo_Ping_def)

section \<open>The indexes\<close>

text \<open>
  What the store relies on of three of its indexes: the ids and the projection names hold every
  row, the row index one of the rows of each projection and shard. The index of the current
  offsets is not part of it: \<open>ResetOffset\<close> writes through the pointers first, so the entries of
  the old values stay in that index.
\<close>

definition mo_nkey :: "mo_row \<Rightarrow> string" where
  "mo_nkey x = mr_ProjectionName x @ nul @ mr_Ordering x @ nul"

definition mo_rkey :: "memdb_enc \<Rightarrow> string \<times> u64 \<Rightarrow> string" where
  "mo_rkey E k = fst k @ nul @ uint_bytes E (snd k)"

definition mo_key :: "mo_row \<Rightarrow> string \<times> u64" where
  "mo_key x = (mr_ProjectionName x, mr_ShardNumber x)"

definition mo_row_ok :: "(nat \<Rightarrow> string) \<Rightarrow> nat \<Rightarrow> mo_row \<Rightarrow> bool" where
  "mo_row_ok uuid p x \<longleftrightarrow> mr_Ordering x = uuid p \<and> nul_free (mr_ProjectionName x) \<and> mr_ProjectionName x \<noteq> []"

definition mo_ids :: "nat trees \<Rightarrow> nat set" where
  "mo_ids T = snd ` set (T offsetPK)"

definition mo_trees :: "memdb_enc \<Rightarrow> (nat \<Rightarrow> string) \<Rightarrow> (nat \<Rightarrow> mo_row) \<Rightarrow> nat \<Rightarrow> nat trees \<Rightarrow> bool" where
  "mo_trees E uuid h n T \<longleftrightarrow>
     tree_ok (T offsetPK) \<and> tree_ok (T projectionNameIndex) \<and> tree_ok (T rowIndex) \<and>
     (\<forall>p \<in> mo_ids T. p < n \<and> mo_row_ok uuid p (h p)) \<and>
     set (T offsetPK) = (\<lambda>p. (uuid p @ nul, p)) ` mo_ids T \<and>
     set (T projectionNameIndex) = (\<lambda>p. (mo_nkey (h p), p)) ` mo_ids T \<and>
     (\<forall>k p. map_of (T rowIndex) k = Some p \<longrightarrow> p \<in> mo_ids T \<and> k = mo_rkey E (mo_key (h p))) \<and>
     (\<forall>p \<in> mo_ids T. map_of (T rowIndex) (mo_rkey E (mo_key (h p))) \<noteq> None)"

definition mo_cur :: "memdb_enc \<Rightarrow> (nat \<Rightarrow> mo_row) \<Rightarrow> nat trees \<Rightarrow> string \<times> u64 \<rightharpoonup> offset" where
  "mo_cur E h T k =
     (if nul_free (fst k) then map_option (\<lambda>p. mo_offset_of (h p)) (map_of (T rowIndex) (mo_rkey E k)) else None)"

lemma mo_rkey_inject:
  "inj (uint_bytes E) \<Longrightarrow> nul_free (fst k) \<Longrightarrow> nul_free (fst k') \<Longrightarrow> mo_rkey E k = mo_rkey E k' \<longleftrightarrow> k = k'"
  by (auto simp: mo_rkey_def append_nul_eq_iff prod_eq_iff dest: injD)

lemma mo_trees_Nil [simp]: "mo_trees E uuid h n (\<lambda>_. [])" "mo_cur E h (\<lambda>_. []) = (\<lambda>_. None)"
  by (auto simp: mo_trees_def mo_ids_def mo_cur_def)

lemma mo_keys_None:
  "mr_ProjectionName (h p) = [] \<Longrightarrow> object_keys E offsetTable (mo_deref h p) = None"
  by (cases "mr_Ordering (h p) = []")
    (simp_all add: object_keys_def offsetTable_def mo_deref_def mo_fields_def offset_names)

lemma mo_keys_Some:
  assumes "mr_Ordering (h p) \<noteq> []" "mr_ProjectionName (h p) \<noteq> []"
  obtains ks where "object_keys E offsetTable (mo_deref h p) = Some (mr_Ordering (h p) @ nul, ks)"
    and "map_of ks offsetPK = Some (mr_Ordering (h p) @ nul)" and "map_of ks projectionNameIndex = Some (mo_nkey (h p))"
    and "map_of ks rowIndex = Some (mo_rkey E (mo_key (h p)))"
  by (rule that [of "[(offsetPK, mr_Ordering (h p) @ nul),
        (offsetShardIndex, uint_bytes E (mr_ShardNumber (h p)) @ mr_Ordering (h p) @ nul),
        (currentOffsetIndex, int_bytes E (mr_Value (h p)) @ mr_Ordering (h p) @ nul),
        (projectionNameIndex, mo_nkey (h p)),
        (rowIndex, mo_rkey E (mo_key (h p)))]"])
    (simp_all add: object_keys_def offsetTable_def mo_deref_def mo_fields_def mo_nkey_def mo_rkey_def mo_key_def
      offset_names assms)

lemma mo_trees_id:
  assumes "mo_trees E uuid h n T" "uuid_ok uuid"
  shows "map_of (T offsetPK) (uuid p @ nul) = (if p \<in> mo_ids T then Some p else None)"
proof -
  have "tree_ok (T offsetPK)" "set (T offsetPK) = (\<lambda>p. (uuid p @ nul, p)) ` mo_ids T"
    using assms(1) by (simp_all add: mo_trees_def)
  then have look: "map_of (T offsetPK) k = Some q \<longleftrightarrow> q \<in> mo_ids T \<and> k = uuid q @ nul" for k q
    by (auto simp: tree_lookup)
  have "uuid p = uuid q \<longleftrightarrow> p = q" for q using assms(2) by (auto simp: uuid_ok_def dest: injD)
  then have at: "map_of (T offsetPK) (uuid p @ nul) = Some q \<longleftrightarrow> q \<in> mo_ids T \<and> p = q" for q
    using look by auto
  show ?thesis
  proof (cases "map_of (T offsetPK) (uuid p @ nul)")
    case None
    then show ?thesis using at [of p] by auto
  next
    case (Some q)
    then show ?thesis using at [of q] by auto
  qed
qed

text \<open>
  An insert of a row that is new, or of one that is there and still has its keys. The row
  index then points to it, the other rows of its projection and shard stay in the two others.
\<close>

text \<open>Putting an entry where the old entry with its key, if any, may have been cleared before.\<close>

lemma put_cleared:
  assumes "tree_ok t" "t0 = t \<or> t0 = tree_del k t"
  shows "tree_ok (tree_put k p t0)" and "set (tree_put k p t0) = insert (k, p) {e \<in> set t. fst e \<noteq> k}"
    and "map_of (tree_put k p t0) = (map_of t)(k \<mapsto> p)"
proof -
  have ok0: "tree_ok t0" and set0: "{e \<in> set t0. fst e \<noteq> k} = {e \<in> set t. fst e \<noteq> k}"
    using assms by auto
  show ok': "tree_ok (tree_put k p t0)" and set': "set (tree_put k p t0) = insert (k, p) {e \<in> set t. fst e \<noteq> k}"
    using ok0 set0 by (simp_all add: set_tree_put)
  have "map_of (tree_put k p t0) c = Some q \<longleftrightarrow> ((map_of t)(k \<mapsto> p)) c = Some q" for c q
    unfolding tree_lookup [OF ok'] set' using tree_lookup [OF assms(1)] by auto
  then show "map_of (tree_put k p t0) = (map_of t)(k \<mapsto> p)" by (intro ext) (metis option.exhaust)
qed

lemma mo_insert:
  assumes "mo_trees E uuid h n T" "uuid_ok uuid" "mo_row_ok uuid p (h p)" "p < n"
  shows "\<exists>T'. insert_obj E offsetTable (mo_deref h) p T = Some T' \<and> mo_trees E uuid h n T' \<and>
    mo_ids T' = insert p (mo_ids T) \<and> map_of (T' rowIndex) = (map_of (T rowIndex))(mo_rkey E (mo_key (h p)) \<mapsto> p)"
proof -
  have ne: "mr_Ordering (h p) \<noteq> []" "mr_ProjectionName (h p) \<noteq> []" and ord: "mr_Ordering (h p) = uuid p"
    using assms(2,3) by (auto simp: mo_row_ok_def uuid_ok_def)
  obtain ks where ks: "object_keys E offsetTable (mo_deref h p) = Some (uuid p @ nul, ks)"
    and at: "map_of ks offsetPK = Some (uuid p @ nul)" "map_of ks projectionNameIndex = Some (mo_nkey (h p))"
      "map_of ks rowIndex = Some (mo_rkey E (mo_key (h p)))"
    using mo_keys_Some [of h p E, OF ne] unfolding ord by blast
  define T0 where "T0 = clear_id E offsetTable (mo_deref h) (uuid p @ nul) T"
  define T' where "T' = put_keys ks p T0"
  have ins: "insert_obj E offsetTable (mo_deref h) p T = Some T'"
    by (simp add: insert_obj_def ks T'_def T0_def)
  have ids: "''id'' = offsetPK" by (simp add: offset_names)
  have T0: "T0 i = T i \<or> (\<exists>k. map_of ks i = Some k \<and> T0 i = tree_del k (T i))" for i
    unfolding T0_def clear_id_def ids mo_trees_id [OF assms(1,2)]
    by (simp add: ks del_keys_def split: option.split)
  have ok: "tree_ok (T offsetPK)" "tree_ok (T projectionNameIndex)" "tree_ok (T rowIndex)"
    using assms(1) by (simp_all add: mo_trees_def)
  have put: "tree_ok (T' i) \<and> set (T' i) = insert (k, p) {e \<in> set (T i). fst e \<noteq> k} \<and>
      map_of (T' i) = (map_of (T i))(k \<mapsto> p)" if "map_of ks i = Some k" "tree_ok (T i)" for i k
  proof -
    have "T0 i = T i \<or> T0 i = tree_del k (T i)" using T0 [of i] that(1) by auto
    moreover have "T' i = tree_put k p (T0 i)" using that(1) by (simp add: T'_def put_keys_def)
    ultimately show ?thesis using put_cleared [OF that(2)] by simp
  qed
  note pk = put [OF at(1) ok(1)] and pn = put [OF at(2) ok(2)] and pr = put [OF at(3) ok(3)]
  have sets: "set (T offsetPK) = (\<lambda>p. (uuid p @ nul, p)) ` mo_ids T"
    "set (T projectionNameIndex) = (\<lambda>p. (mo_nkey (h p), p)) ` mo_ids T"
    and rows: "\<forall>q \<in> mo_ids T. q < n \<and> mo_row_ok uuid q (h q)"
    and ridx: "\<forall>k q. map_of (T rowIndex) k = Some q \<longrightarrow> q \<in> mo_ids T \<and> k = mo_rkey E (mo_key (h q))"
      "\<forall>q \<in> mo_ids T. map_of (T rowIndex) (mo_rkey E (mo_key (h q))) \<noteq> None"
    using assms(1) unfolding mo_trees_def by blast+
  have uniq: "uuid q = uuid p \<longleftrightarrow> q = p" for q using assms(2) by (auto simp: uuid_ok_def dest: injD)
  have nkey: "mo_nkey (h q) = mo_nkey (h p) \<longleftrightarrow> q = p" if "q \<in> mo_ids T" for q
    using rows that assms(3) uniq by (auto simp: mo_nkey_def mo_row_ok_def append_nul_eq_iff)
  have set_pk: "set (T' offsetPK) = (\<lambda>p. (uuid p @ nul, p)) ` insert p (mo_ids T)"
    using pk uniq by (auto simp: sets(1))
  then have ids': "mo_ids T' = insert p (mo_ids T)" by (auto simp: mo_ids_def image_image)
  have set_pn: "set (T' projectionNameIndex) = (\<lambda>p. (mo_nkey (h p), p)) ` insert p (mo_ids T)"
    using pn nkey by (auto simp: sets(2))
  have "mo_trees E uuid h n T'"
    unfolding mo_trees_def ids' using pk pn pr set_pk set_pn rows ridx assms(3,4) by auto
  then show ?thesis using ins ids' pr by blast
qed

lemma mo_touch: "mo_touch v ts ps h = (\<lambda>p. if p \<in> set ps then (h p)\<lparr>mr_Value := v, mr_Timestamp := ts\<rparr> else h p)"
  by (induction ps arbitrary: h) (auto simp: fun_eq_iff)

text \<open>The trees do not depend on the values and the timestamps.\<close>

lemma mo_trees_heap:
  assumes "\<And>p. p \<in> mo_ids T \<Longrightarrow> mr_Ordering (h' p) = mr_Ordering (h p) \<and> mo_key (h' p) = mo_key (h p)"
  shows "mo_trees E uuid h' n T = mo_trees E uuid h n T"
proof -
  have at: "mo_nkey (h' p) = mo_nkey (h p)" "mo_key (h' p) = mo_key (h p)"
    "mo_row_ok uuid p (h' p) = mo_row_ok uuid p (h p)" if "p \<in> mo_ids T" for p
    using assms [OF that] by (auto simp: mo_nkey_def mo_key_def mo_row_ok_def)
  have A: "(\<lambda>p. (mo_nkey (h' p), p)) ` mo_ids T = (\<lambda>p. (mo_nkey (h p), p)) ` mo_ids T"
    using at by (intro image_cong) auto
  have B: "(\<forall>k p. map_of (T rowIndex) k = Some p \<longrightarrow> p \<in> mo_ids T \<and> k = mo_rkey E (mo_key (h' p))) \<longleftrightarrow>
      (\<forall>k p. map_of (T rowIndex) k = Some p \<longrightarrow> p \<in> mo_ids T \<and> k = mo_rkey E (mo_key (h p)))"
    using at(2) by (intro all_cong1 imp_cong refl conj_cong) simp
  have C: "(\<forall>p \<in> mo_ids T. p < n \<and> mo_row_ok uuid p (h' p)) \<longleftrightarrow> (\<forall>p \<in> mo_ids T. p < n \<and> mo_row_ok uuid p (h p))"
    using at(3) by (intro ball_cong refl) simp
  have D: "(\<forall>p \<in> mo_ids T. map_of (T rowIndex) (mo_rkey E (mo_key (h' p))) \<noteq> None) \<longleftrightarrow>
      (\<forall>p \<in> mo_ids T. map_of (T rowIndex) (mo_rkey E (mo_key (h p))) \<noteq> None)"
    using at(2) by (intro ball_cong refl) simp
  show ?thesis unfolding mo_trees_def A B C D ..
qed

abbreviation ot :: "('db, 'txn, nat) mdghost \<Rightarrow> 'txn \<Rightarrow> nat trees" where
  "ot G t \<equiv> snd (mg_txn G t) offsetTableName"

lemma offset_table: "map_of offsetSchema offsetTableName = Some offsetTable"
  by (simp add: offsetSchema_def)

lemma mo_insert_step:
  assumes "memdb_contract M G" "uuid_ok uuid" "fst (mg_txn G t) = offsetSchema"
    and "mo_trees (mg_enc G) uuid h n (ot G t)" "mo_row_ok uuid p (h p)" "p < n"
  shows "\<exists>t'. md_insert M (mo_deref h) offsetTableName p t = (Ok (), t') \<and> fst (mg_txn G t') = offsetSchema \<and>
    mo_trees (mg_enc G) uuid h n (ot G t') \<and> mo_ids (ot G t') = insert p (mo_ids (ot G t)) \<and>
    map_of (ot G t' rowIndex) = (map_of (ot G t rowIndex))(mo_rkey (mg_enc G) (mo_key (h p)) \<mapsto> p)"
proof -
  have tb: "map_of (fst (mg_txn G t)) offsetTableName = Some offsetTable" by (simp add: assms(3) offset_table)
  from mo_insert [OF assms(4,2,5,6)] memdb_facts(4) [OF assms(1) tb, of "mo_deref h" p] show ?thesis
    by (auto dest!: effect_Some simp: assms(3))
qed

lemma mo_insert_loop_spec:
  assumes "memdb_contract M G" "uuid_ok uuid"
    and "fst (mg_txn G t) = offsetSchema" "mo_trees (mg_enc G) uuid h n (ot G t)" "set ps \<subseteq> mo_ids (ot G t)"
  shows "\<exists>t'. mo_insert_loop M h ps t = (Ok (), t') \<and> fst (mg_txn G t') = offsetSchema \<and>
    mo_trees (mg_enc G) uuid h n (ot G t') \<and> mo_ids (ot G t') = mo_ids (ot G t) \<and>
    (\<forall>k. map_of (ot G t' rowIndex) k = None \<longleftrightarrow> map_of (ot G t rowIndex) k = None) \<and>
    (\<forall>k. k \<notin> (\<lambda>p. mo_rkey (mg_enc G) (mo_key (h p))) ` set ps \<longrightarrow>
       map_of (ot G t' rowIndex) k = map_of (ot G t rowIndex) k)"
  using assms(3-5)
proof (induction ps arbitrary: t)
  case Nil
  then show ?case by auto
next
  case (Cons p ps)
  have p: "p \<in> mo_ids (ot G t)" using Cons.prems(3) by simp
  then have "p < n" "mo_row_ok uuid p (h p)" using Cons.prems(2) by (simp_all add: mo_trees_def)
  with mo_insert_step [OF assms(1,2) Cons.prems(1,2)] obtain t1 where
    t1: "md_insert M (mo_deref h) offsetTableName p t = (Ok (), t1)" "fst (mg_txn G t1) = offsetSchema"
      "mo_trees (mg_enc G) uuid h n (ot G t1)" "mo_ids (ot G t1) = insert p (mo_ids (ot G t))"
      "map_of (ot G t1 rowIndex) = (map_of (ot G t rowIndex))(mo_rkey (mg_enc G) (mo_key (h p)) \<mapsto> p)"
    by blast
  have had: "map_of (ot G t rowIndex) (mo_rkey (mg_enc G) (mo_key (h p))) \<noteq> None"
    using Cons.prems(2) p by (simp add: mo_trees_def)
  have "set ps \<subseteq> mo_ids (ot G t1)" using Cons.prems(3) t1(4) by auto
  from Cons.IH [OF t1(2,3) this] t1 had p show ?case by (auto simp: insert_absorb)
qed

section \<open>The OffsetStore contract\<close>

type_synonym ('db, 'txn) moenv =
  "('db, 'txn, nat) memdb \<times> ('db, 'txn, nat) mdghost \<times> (nat \<Rightarrow> string) \<times> i64"

definition mo_rely :: "('db, 'txn) moenv \<Rightarrow> bool" where
  "mo_rely env = (case env of (M, G, uuid, now) \<Rightarrow> memdb_contract M G \<and> uuid_ok uuid)"

definition mo_inv :: "('db, 'txn) moenv \<Rightarrow> 'db mem_offsets \<Rightarrow> bool" where
  "mo_inv env s = (case env of (M, G, uuid, now) \<Rightarrow> mo_connected s \<longrightarrow>
     (\<exists>db. mo_db s = Some db \<and> fst (mg_db G db) = offsetSchema \<and>
        mo_trees (mg_enc G) uuid (mo_heap s) (mo_next s) (snd (mg_db G db) offsetTableName)))"

definition mo_offsets :: "('db, 'txn) moenv \<Rightarrow> 'db mem_offsets \<Rightarrow> string \<times> u64 \<rightharpoonup> offset" where
  "mo_offsets env s = (case env of (M, G, uuid, now) \<Rightarrow>
     (case mo_db s of None \<Rightarrow> (\<lambda>_. None)
      | Some db \<Rightarrow> mo_cur (mg_enc G) (mo_heap s) (snd (mg_db G db) offsetTableName)))"

lemma mo_inv_New: "mo_inv env mo_NewOffsetStore"
  by (simp add: mo_inv_def mo_NewOffsetStore_def split: prod.split)

lemma mo_Connect_spec:
  assumes "mo_rely env" "\<not> mo_connected s" "env = (M, G, uuid, now)"
  shows "\<exists>s'. mo_Connect M s = (Ok (), s') \<and> mo_inv env s' \<and> mo_connected s' \<and> mo_offsets env s' = (\<lambda>_. None)"
proof -
  have "memdb_contract M G" using assms(1,3) by (simp add: mo_rely_def)
  then obtain db where "md_new M offsetSchema = Ok db" "mg_db G db = (offsetSchema, \<lambda>_ _. [])"
    using memdb_facts(1) [of M G offsetSchema] by auto
  then show ?thesis using assms(2,3) by (auto simp: mo_Connect_def mo_inv_def mo_offsets_def)
qed

definition mo_storable :: "offset \<Rightarrow> bool" where
  "mo_storable x \<longleftrightarrow> nul_free (of_ProjectionName x) \<and> of_ProjectionName x \<noteq> []"

lemma mo_record_fields [simp]:
  "mr_Ordering (mo_record u x) = u" "mo_key (mo_record u (Some y)) = offset_key y"
  "mr_ProjectionName (mo_record u (Some y)) = of_ProjectionName y" "mo_offset_of (mo_record u (Some y)) = y"
  by (simp_all add: mo_record_def mo_key_def offset_key_def mo_offset_of_def Let_def)

lemma mo_trees_fresh:
  "mo_trees E uuid h n T \<Longrightarrow> mo_trees E uuid (h(n := x)) (Suc n) T"
proof -
  assume T: "mo_trees E uuid h n T"
  then have lt: "\<forall>p \<in> mo_ids T. p < n" by (simp add: mo_trees_def)
  then have "mo_trees E uuid (h(n := x)) n T = mo_trees E uuid h n T" by (intro mo_trees_heap) auto
  then show ?thesis using T lt unfolding mo_trees_def by (auto intro: less_SucI)
qed

lemma mo_cur_fresh: "mo_trees E uuid h n T \<Longrightarrow> mo_cur E (h(n := x)) T = mo_cur E h T"
  by (auto simp: fun_eq_iff mo_cur_def mo_trees_def intro!: map_option_cong)

lemma mo_write:
  assumes "mo_rely env" "mo_inv env s" "mo_storable y" "env = (M, G, uuid, now)"
    and "mo_WriteOffset M uuid (Some y) s = (r, s')"
  shows "mo_inv env s'" and "r = Ok () \<longleftrightarrow> mo_connected s"
    and "r = Ok () \<Longrightarrow> mo_offsets env s' = (mo_offsets env s)(offset_key y \<mapsto> y)"
    and "r \<noteq> Ok () \<Longrightarrow> s' = s"
proof -
  let ?E = "mg_enc G"
  have C: "memdb_contract M G" "uuid_ok uuid" using assms(1,4) by (simp_all add: mo_rely_def)
  have "mo_inv env s' \<and> (r = Ok () \<longleftrightarrow> mo_connected s) \<and>
    (r = Ok () \<longrightarrow> mo_offsets env s' = (mo_offsets env s)(offset_key y \<mapsto> y)) \<and> (r \<noteq> Ok () \<longrightarrow> s' = s)"
  proof (cases "mo_connected s")
    case False
    then show ?thesis using assms(2,5) by (auto simp: mo_WriteOffset_def)
  next
    case True
    then obtain db where db: "mo_db s = Some db" "fst (mg_db G db) = offsetSchema"
      "mo_trees ?E uuid (mo_heap s) (mo_next s) (snd (mg_db G db) offsetTableName)"
      using assms(2,4) by (auto simp: mo_inv_def)
    let ?p = "mo_next s"
    let ?h = "(mo_heap s)(?p := mo_record (uuid ?p) (Some y))"
    let ?t = "md_txn M db True"
    have t: "mg_txn G ?t = mg_db G db" by (rule memdb_facts(2) [OF C(1)])
    have row: "mo_row_ok uuid ?p (?h ?p)" using assms(3) by (simp add: mo_row_ok_def mo_storable_def)
    have trees: "mo_trees ?E uuid ?h (Suc ?p) (ot G ?t)" using mo_trees_fresh [OF db(3)] by (simp add: t)
    have sch: "fst (mg_txn G ?t) = offsetSchema" by (simp add: t db(2))
    obtain t' where t': "md_insert M (mo_deref ?h) offsetTableName ?p ?t = (Ok (), t')" "fst (mg_txn G t') = offsetSchema"
      "mo_trees ?E uuid ?h (Suc ?p) (ot G t')"
      and upd: "map_of (ot G t' rowIndex) = (map_of (ot G ?t rowIndex))(mo_rkey ?E (mo_key (?h ?p)) \<mapsto> ?p)"
      using mo_insert_step [OF C sch trees row lessI] by blast
    have s': "r = Ok ()" "s' = s\<lparr>mo_heap := ?h, mo_next := Suc ?p, mo_db := Some (md_commit M t')\<rparr>"
      using assms(5) True db(1) t'(1) by (simp_all add: mo_WriteOffset_def Let_def)
    have "mo_cur ?E ?h (ot G t') = (mo_cur ?E ?h (ot G ?t))(offset_key y \<mapsto> y)"
    proof
      fix k
      have "nul_free (fst (offset_key y))" using assms(3) by (simp add: mo_storable_def offset_key_def)
      moreover have "inj (uint_bytes ?E)" by (rule memdb_facts(7) [OF C(1)])
      ultimately show "mo_cur ?E ?h (ot G t') k = ((mo_cur ?E ?h (ot G ?t))(offset_key y \<mapsto> y)) k"
        using mo_rkey_inject [of ?E k "offset_key y"] by (auto simp: mo_cur_def upd)
    qed
    then show ?thesis using s' t' True assms(4) db(1) mo_cur_fresh [OF db(3)]
      by (simp add: mo_inv_def mo_offsets_def memdb_facts(3) [OF C(1)] t)
  qed
  then show "mo_inv env s'" and "r = Ok () \<longleftrightarrow> mo_connected s"
    and "r = Ok () \<Longrightarrow> mo_offsets env s' = (mo_offsets env s)(offset_key y \<mapsto> y)"
    and "r \<noteq> Ok () \<Longrightarrow> s' = s"
    by blast+
qed

text \<open>
  The rows of the table itself: the ids are fresh UUIDs, so a write never replaces a row, it
  only takes over the entry of the row index.
\<close>

definition mo_rows :: "('db, 'txn) moenv \<Rightarrow> 'db mem_offsets \<Rightarrow> nat set" where
  "mo_rows env s = (case env of (M, G, uuid, now) \<Rightarrow>
     (case mo_db s of None \<Rightarrow> {} | Some db \<Rightarrow> mo_ids (snd (mg_db G db) offsetTableName)))"

lemma mo_write_rows:
  assumes "mo_rely (M, G, uuid, now)" "mo_inv (M, G, uuid, now) s" "mo_storable y"
    and "mo_WriteOffset M uuid (Some y) s = (Ok (), s')"
  shows "mo_rows (M, G, uuid, now) s' = insert (mo_next s) (mo_rows (M, G, uuid, now) s)"
    and "mo_next s \<notin> mo_rows (M, G, uuid, now) s"
proof -
  have C: "memdb_contract M G" "uuid_ok uuid" using assms(1) by (simp_all add: mo_rely_def)
  have "mo_connected s" using assms(4) by (auto simp: mo_WriteOffset_def split: if_splits)
  then obtain db where db: "mo_db s = Some db" "fst (mg_db G db) = offsetSchema"
    "mo_trees (mg_enc G) uuid (mo_heap s) (mo_next s) (snd (mg_db G db) offsetTableName)"
    using assms(2) by (auto simp: mo_inv_def)
  let ?p = "mo_next s" and ?t = "md_txn M db True"
  let ?h = "(mo_heap s)(?p := mo_record (uuid ?p) (Some y))"
  have t: "mg_txn G ?t = mg_db G db" by (rule memdb_facts(2) [OF C(1)])
  have row: "mo_row_ok uuid ?p (?h ?p)" using assms(3) by (simp add: mo_row_ok_def mo_storable_def)
  have trees: "mo_trees (mg_enc G) uuid ?h (Suc ?p) (ot G ?t)" using mo_trees_fresh [OF db(3)] by (simp add: t)
  have "fst (mg_txn G ?t) = offsetSchema" by (simp add: t db(2))
  from mo_insert_step [OF C this trees row lessI] obtain t' where
    ins: "md_insert M (mo_deref ?h) offsetTableName ?p ?t = (Ok (), t')" "mo_ids (ot G t') = insert ?p (mo_ids (ot G ?t))" by blast
  have "s' = s\<lparr>mo_heap := ?h, mo_next := Suc ?p, mo_db := Some (md_commit M t')\<rparr>"
    using assms(4) \<open>mo_connected s\<close> db(1) ins(1) by (simp add: mo_WriteOffset_def Let_def)
  then show "mo_rows (M, G, uuid, now) s' = insert ?p (mo_rows (M, G, uuid, now) s)"
    using db(1) ins(2) by (simp add: mo_rows_def memdb_facts(3) [OF C(1)] t)
  have "\<forall>p \<in> mo_ids (snd (mg_db G db) offsetTableName). p < mo_next s" using db(3) by (simp add: mo_trees_def)
  then show "?p \<notin> mo_rows (M, G, uuid, now) s" using db(1) by (auto simp: mo_rows_def)
qed

lemma finite_mo_rows [simp]: "finite (mo_rows env s)"
  by (simp add: mo_rows_def mo_ids_def split: prod.split option.split)

lemma mo_get:
  assumes "mo_rely env" "mo_inv env s" "nul_free n" "env = (M, G, uuid, now)"
    and "mo_GetCurrentOffset M (Some \<lparr>pj_ProjectionName = n, pj_ShardNumber = k\<rparr>) s = Ok y"
  shows "y = mo_offsets env s (n, k)"
proof -
  have C: "memdb_contract M G" using assms(1,4) by (simp add: mo_rely_def)
  have conn: "mo_connected s" using assms(5) by (auto simp: mo_GetCurrentOffset_def split: if_splits)
  then obtain db where db: "mo_db s = Some db" "fst (mg_db G db) = offsetSchema"
    using assms(2,4) by (auto simp: mo_inv_def)
  let ?t = "md_txn M db False" and ?T = "snd (mg_db G db) offsetTableName"
  have t: "mg_txn G ?t = mg_db G db" by (rule memdb_facts(2) [OF C])
  have tb: "map_of (fst (mg_txn G ?t)) offsetTableName = Some offsetTable" by (simp add: t db(2) offset_table)
  have ix: "map_of (tb_Indexes offsetTable) rowIndex = Some \<lparr>ix_Name = rowIndex, ix_AllowMissing = False,
      ix_Unique = True, ix_Indexer = CompoundIndex [StringFieldIndex ''ProjectionName'' False,
        UintFieldIndex ''ShardNumber''] False\<rparr>"
    by (simp add: offsetTable_def offset_names)
  have "md_last M offsetTableName rowIndex [ArgString n, ArgUint k] ?t =
      Ok (map_option Boxed (map_of (?T rowIndex) (mo_rkey (mg_enc G) (n, k))))"
    using memdb_queries(3) [OF C tb ix, of "[ArgString n, ArgUint k]" "mo_rkey (mg_enc G) (n, k)"]
    by (simp add: query_val_def mo_rkey_def tree_last_def t)
  then show ?thesis using assms(3,4,5) conn db(1)
    by (auto simp: mo_GetCurrentOffset_def mo_offsets_def mo_cur_def Let_def split: option.splits)
qed

text \<open>The rows of a projection, as the index of the names gives them.\<close>

lemma mo_projection_rows:
  assumes "memdb_contract M G" "fst (mg_txn G t) = offsetSchema" "nul_free name"
    and "mo_trees (mg_enc G) uuid h n (ot G t)"
  shows "\<exists>ps. md_get M offsetTableName projectionNameIndex [ArgString name] t = Ok (map Boxed ps) \<and>
    set ps = {p \<in> mo_ids (ot G t). mr_ProjectionName (h p) = name}"
proof -
  let ?ix = "\<lparr>ix_Name = projectionNameIndex, ix_AllowMissing = False, ix_Unique = False,
      ix_Indexer = StringFieldIndex ''ProjectionName'' False\<rparr>"
  have tb: "map_of (fst (mg_txn G t)) offsetTableName = Some offsetTable" by (simp add: assms(2) offset_table)
  have ix: "map_of (tb_Indexes offsetTable) projectionNameIndex = Some ?ix"
    by (simp add: offsetTable_def offset_names)
  have q: "query_val (mg_enc G) (ix_Indexer ?ix) [ArgString name] = Some (name @ nul)"
    by (simp add: query_val_def)
  have e: "set (ot G t projectionNameIndex) = (\<lambda>p. (mo_nkey (h p), p)) ` mo_ids (ot G t)"
    and ok: "\<forall>p \<in> mo_ids (ot G t). nul_free (mr_ProjectionName (h p))"
    using assms(4) by (auto simp: mo_trees_def mo_row_ok_def)
  have "prefix (name @ nul) (mo_nkey (h p)) \<longleftrightarrow> mr_ProjectionName (h p) = name" if "p \<in> mo_ids (ot G t)" for p
    using ok that assms(3) by (auto simp: mo_nkey_def prefix_nul_iff)
  then have "set (tree_prefix (name @ nul) (ot G t projectionNameIndex)) =
      {p \<in> mo_ids (ot G t). mr_ProjectionName (h p) = name}"
    by (auto simp: tree_prefix_def e image_iff)
  then show ?thesis using memdb_queries(1) [OF assms(1) tb ix q] by blast
qed

text \<open>A reset leaves in the row index a row of the same projection and shard, with the new value.\<close>

lemma mo_index_at:
  assumes "inj (uint_bytes E)" "mo_trees E uuid h n T" "map_of (T rowIndex) (mo_rkey E k) = Some p" "nul_free (fst k)"
  shows "p \<in> mo_ids T" and "mo_key (h p) = k"
proof -
  show p: "p \<in> mo_ids T" using assms(2,3) by (simp add: mo_trees_def)
  then have "nul_free (fst (mo_key (h p)))" using assms(2) by (simp add: mo_trees_def mo_row_ok_def mo_key_def)
  moreover have "mo_rkey E k = mo_rkey E (mo_key (h p))" using assms(2,3) by (simp add: mo_trees_def)
  ultimately show "mo_key (h p) = k" using mo_rkey_inject [OF assms(1,4), of "mo_key (h p)"] by simp
qed

lemma mo_reset_cur:
  assumes "inj (uint_bytes E)" "nul_free name" "mo_trees E uuid h n T"
    and "set ps = {p \<in> mo_ids T. mr_ProjectionName (h p) = name}"
    and "h' = mo_touch v ts ps h" "mo_trees E uuid h' n T'" "mo_ids T' = mo_ids T"
    and "\<And>k. map_of (T' rowIndex) k = None \<longleftrightarrow> map_of (T rowIndex) k = None"
    and "\<And>k. k \<notin> (\<lambda>p. mo_rkey E (mo_key (h' p))) ` set ps \<Longrightarrow> map_of (T' rowIndex) k = map_of (T rowIndex) k"
  shows "mo_cur E h' T' = reset_to name v ts (mo_cur E h T)"
proof
  fix k
  have heap: "mo_key (h' p) = mo_key (h p)" "p \<notin> set ps \<Longrightarrow> h' p = h p"
    "p \<in> set ps \<Longrightarrow> h' p = (h p)\<lparr>mr_Value := v, mr_Timestamp := ts\<rparr>" for p
    by (simp_all add: assms(5) mo_touch mo_key_def)
  show "mo_cur E h' T' k = reset_to name v ts (mo_cur E h T) k"
  proof (cases "nul_free (fst k)")
    case False
    then show ?thesis using assms(2) by (auto simp: mo_cur_def reset_to_def)
  next
    case free: True
    show ?thesis
    proof (cases "map_of (T rowIndex) (mo_rkey E k)")
      case None
      then show ?thesis using assms(8) [of "mo_rkey E k"] by (simp add: mo_cur_def reset_to_def)
    next
      case (Some p)
      then obtain q where q: "map_of (T' rowIndex) (mo_rkey E k) = Some q"
        using assms(8) [of "mo_rkey E k"] by auto
      note p_at = mo_index_at [OF assms(1,3) Some free]
      have q_at: "q \<in> mo_ids T" "mo_key (h q) = k"
        using mo_index_at [OF assms(1,6) q free] by (simp_all add: assms(7) heap(1))
      show ?thesis
      proof (cases "fst k = name")
        case True
        then have "q \<in> set ps" unfolding assms(4) using q_at by (auto simp: mo_key_def)
        then have "mo_offset_of (h' q) = (mo_offset_of (h p))\<lparr>of_Value := v, of_Timestamp := ts\<rparr>"
          using p_at q_at heap(3) [of q] by (auto simp: mo_offset_of_def mo_key_def)
        then show ?thesis using True free Some q by (simp add: mo_cur_def reset_to_def)
      next
        case False
        have "mo_rkey E k \<noteq> mo_rkey E (mo_key (h' x))" if "x \<in> set ps" for x
        proof -
          have "fst (mo_key (h x)) = name" "nul_free (fst (mo_key (h x)))"
            using that assms(2) unfolding assms(4) by (auto simp: mo_key_def)
          then show ?thesis using mo_rkey_inject [OF assms(1) free, of "mo_key (h x)"] False heap(1) by auto
        qed
        then have "map_of (T' rowIndex) (mo_rkey E k) = map_of (T rowIndex) (mo_rkey E k)"
          by (intro assms(9)) auto
        moreover have "p \<notin> set ps" unfolding assms(4) using p_at False by (auto simp: mo_key_def)
        ultimately show ?thesis using False free Some by (simp add: mo_cur_def reset_to_def heap(2))
      qed
    qed
  qed
qed

lemma mo_reset:
  assumes "mo_rely env" "mo_inv env s" "nul_free name" "env = (M, G, uuid, now)"
    and "mo_ResetOffset M now name v s = (r, s')"
  shows "mo_inv env s'" and "r = Ok () \<longleftrightarrow> mo_connected s"
    and "r = Ok () \<Longrightarrow> mo_offsets env s' = reset_to name v now (mo_offsets env s)"
proof -
  let ?E = "mg_enc G"
  have C: "memdb_contract M G" "uuid_ok uuid" using assms(1,4) by (simp_all add: mo_rely_def)
  have "mo_inv env s' \<and> (r = Ok () \<longleftrightarrow> mo_connected s) \<and>
    (r = Ok () \<longrightarrow> mo_offsets env s' = reset_to name v now (mo_offsets env s))"
  proof (cases "mo_connected s")
    case False
    then show ?thesis using assms(2,5) by (auto simp: mo_ResetOffset_def)
  next
    case True
    then obtain db where db: "mo_db s = Some db" "fst (mg_db G db) = offsetSchema"
      "mo_trees ?E uuid (mo_heap s) (mo_next s) (snd (mg_db G db) offsetTableName)"
      using assms(2,4) by (auto simp: mo_inv_def)
    let ?t = "md_txn M db False" and ?tw = "md_txn M db True"
    have t: "mg_txn G ?t = mg_db G db" "mg_txn G ?tw = mg_db G db" by (rule memdb_facts(2) [OF C(1)])+
    have sch: "fst (mg_txn G ?t) = offsetSchema" "fst (mg_txn G ?tw) = offsetSchema" by (simp_all add: t db(2))
    have trees: "mo_trees ?E uuid (mo_heap s) (mo_next s) (ot G ?t)" by (simp add: t db(3))
    obtain ps where ps: "md_get M offsetTableName projectionNameIndex [ArgString name] ?t = Ok (map Boxed ps)"
      "set ps = {p \<in> mo_ids (ot G ?t). mr_ProjectionName (mo_heap s p) = name}"
      using mo_projection_rows [OF C(1) sch(1) assms(3) trees] by blast
    define h where "h = mo_touch v now ps (mo_heap s)"
    have treesw: "mo_trees ?E uuid h (mo_next s) (ot G ?tw)"
      using mo_trees_heap [of "ot G ?t" h "mo_heap s"] trees by (simp add: h_def mo_touch mo_key_def t)
    have "set ps \<subseteq> mo_ids (ot G ?tw)" by (auto simp: ps(2) t)
    from mo_insert_loop_spec [OF C sch(2) treesw this] obtain t' where
      t': "mo_insert_loop M h ps ?tw = (Ok (), t')" "fst (mg_txn G t') = offsetSchema"
        "mo_trees ?E uuid h (mo_next s) (ot G t')" "mo_ids (ot G t') = mo_ids (ot G ?tw)"
      and r1: "\<And>k. map_of (ot G t' rowIndex) k = None \<longleftrightarrow> map_of (ot G ?tw rowIndex) k = None"
      and r2: "\<And>k. k \<notin> (\<lambda>p. mo_rkey ?E (mo_key (h p))) ` set ps \<Longrightarrow>
         map_of (ot G t' rowIndex) k = map_of (ot G ?tw rowIndex) k"
      by blast
    have s': "r = Ok ()" "s' = s\<lparr>mo_heap := h, mo_db := Some (md_commit M t')\<rparr>"
      using assms(5) True db(1) ps(1) t'(1) by (simp_all add: mo_ResetOffset_def Let_def h_def)
    have "mo_cur ?E h (ot G t') = reset_to name v now (mo_cur ?E (mo_heap s) (ot G ?t))"
      by (rule mo_reset_cur [OF memdb_facts(7) [OF C(1)] assms(3) trees ps(2) h_def t'(3)])
        (use t'(4) r1 r2 in \<open>simp_all add: t\<close>)
    then show ?thesis using s' t' True assms(4) db(1)
      by (simp add: mo_inv_def mo_offsets_def memdb_facts(3) [OF C(1)] t)
  qed
  then show "mo_inv env s'" and "r = Ok () \<longleftrightarrow> mo_connected s"
    and "r = Ok () \<Longrightarrow> mo_offsets env s' = reset_to name v now (mo_offsets env s)"
    by blast+
qed

interpretation mo: offset_store mo_rely mo_inv mo_storable nul_free mo_offsets "\<lambda>env s. snd (snd (snd env))"
  "\<lambda>env. mo_WriteOffset (fst env) (fst (snd (snd env)))" "\<lambda>env. mo_GetCurrentOffset (fst env)"
  "\<lambda>env. mo_ResetOffset (fst env) (snd (snd (snd env)))"
proof unfold_locales
  fix env :: "('db, 'txn) moenv" and s s' :: "'db mem_offsets" and x r n k y v
  obtain M G uuid now where env: "env = (M, G, uuid, now)" by (cases env) auto
  assume h: "mo_rely env" "mo_inv env s"
  show "mo_inv env s'" if "mo_storable x" "mo_WriteOffset (fst env) (fst (snd (snd env))) (Some x) s = (r, s')"
    using mo_write(1) [OF h that(1) env] that(2) env by simp
  show "mo_offsets env s' = (mo_offsets env s)(offset_key x \<mapsto> x)"
    if "mo_storable x" "mo_WriteOffset (fst env) (fst (snd (snd env))) (Some x) s = (Ok (), s')"
    using mo_write(3) [OF h that(1) env] that(2) env by simp
  show "mo_offsets env s' = mo_offsets env s \<or> mo_offsets env s' = (mo_offsets env s)(offset_key x \<mapsto> x)"
    if "mo_storable x" "mo_WriteOffset (fst env) (fst (snd (snd env))) (Some x) s = (r, s')" "r \<noteq> Ok ()"
    using mo_write(4) [OF h that(1) env _ that(3)] that(2) env by simp
  show "y = mo_offsets env s (n, k)"
    if "nul_free n" "mo_GetCurrentOffset (fst env) (Some \<lparr>pj_ProjectionName = n, pj_ShardNumber = k\<rparr>) s = Ok y"
    using mo_get [OF h that(1) env] that(2) env by simp
  show "mo_inv env s'" if "nul_free n" "mo_ResetOffset (fst env) (snd (snd (snd env))) n v s = (r, s')"
    using mo_reset(1) [OF h that(1) env] that(2) env by simp
  show "mo_offsets env s' = reset_to n v (snd (snd (snd env))) (mo_offsets env s)"
    if "nul_free n" "mo_ResetOffset (fst env) (snd (snd (snd env))) n v s = (Ok (), s')"
    using mo_reset(3) [OF h that(1) env] that(2) env by simp
qed (simp add: mo_storable_def)

end
