(* ===== verification/OffsetProps.thy ===== *)
theory OffsetProps
  imports OffsetPg OffsetMemory RefEngine
begin

text \<open>
  The properties of the two offset stores: both refine the abstract table of \<open>OffsetStore\<close>, so
  a projection reads the same offset from either after the same commands.
\<close>

section \<open>Sample values\<close>

definition of_wit :: "string \<Rightarrow> u64 \<Rightarrow> i64 \<Rightarrow> offset" where
  "of_wit name shard v = \<lparr>of_ShardNumber = shard, of_ProjectionName = name, of_Value = v, of_Timestamp = 7\<rparr>"

definition wit_offset_config :: offset_config where
  "wit_offset_config = \<lparr>oc_DBHost = ''localhost'', oc_DBPort = 5432, oc_DBName = ''ego'', oc_DBUser = ''ego'',
     oc_DBPassword = ''secret'', oc_DBSchema = ''public''\<rparr>"

definition po_wit :: "(unit, ref_world) pg_store" where
  "po_wit = snd (po_Connect ref_drv (po_NewOffsetStore wit_offset_config ref_world0))"

definition mo_uuid :: "nat \<Rightarrow> string" where
  "mo_uuid n = replicate (Suc n) (CHR ''u'')"

definition mo_wit :: "nat dbstate mem_offsets" where
  "mo_wit = snd (mo_Connect ref_memdb mo_NewOffsetStore)"

lemma ok_run: "fst p = Ok () \<Longrightarrow> p = (Ok (), snd p)"
  by (cases p) simp

lemma po_wit_rely: "po_rely ((ref_drv, ref_ghost), t)"
  by (simp add: po_rely_def schema_pk_def)

lemma po_wit_inv: "po_inv ((ref_drv, ref_ghost), t) po_wit" "po_cur ((ref_drv, ref_ghost), t) po_wit = (\<lambda>_. None)"
proof -
  have w: "st_world po_wit = ref_world0"
    by (simp add: po_wit_def po_Connect_def po_NewOffsetStore_def pg_Connect_def ref_drv_def st_pair_def st_put_def
        plain_newDatabase_def Let_def)
  then have "pg_tables (ref_drv, ref_ghost) (st_pair po_wit) = (\<lambda>_. {#})"
    by (simp add: pg_tables_def st_pair_def ref_ghost_def ref_world0_def)
  then show "po_cur ((ref_drv, ref_ghost), t) po_wit = (\<lambda>_. None)"
    "po_inv ((ref_drv, ref_ghost), t) po_wit"
    using w by (simp_all add: po_cur_def po_find_def po_inv_def pg_ready_def st_pair_def well_typed_def fun_eq_iff
        find_row_None_iff)
qed

lemma mo_wit_rely: "mo_rely (ref_memdb, ref_mdghost, mo_uuid, t)"
proof -
  have "length (mo_uuid n) = Suc n" for n by (simp add: mo_uuid_def)
  then have "inj mo_uuid" by (metis injI nat.inject)
  moreover have "mo_uuid n \<noteq> []" for n by (simp add: mo_uuid_def)
  ultimately show ?thesis by (simp add: mo_rely_def ref_memdb_contract uuid_ok_def)
qed

lemma mo_wit_inv: "mo_inv (ref_memdb, ref_mdghost, mo_uuid, t) mo_wit"
  "mo_offsets (ref_memdb, ref_mdghost, mo_uuid, t) mo_wit = (\<lambda>_. None)"
proof -
  let ?new = "mo_NewOffsetStore :: nat dbstate mem_offsets"
  have "\<not> mo_connected ?new" by (simp add: mo_NewOffsetStore_def)
  from mo_Connect_spec [OF mo_wit_rely [of t] this refl]
  obtain s' where "mo_Connect ref_memdb ?new = (Ok (), s')" "mo_inv (ref_memdb, ref_mdghost, mo_uuid, t) s'"
    "mo_offsets (ref_memdb, ref_mdghost, mo_uuid, t) s' = (\<lambda>_. None)" by blast
  then show "mo_inv (ref_memdb, ref_mdghost, mo_uuid, t) mo_wit"
    "mo_offsets (ref_memdb, ref_mdghost, mo_uuid, t) mo_wit = (\<lambda>_. None)" by (simp_all add: mo_wit_def)
qed

section \<open>The two stores\<close>

text \<open>Neither the invariants nor the offsets depend on the clock.\<close>

lemma po_clock: "po_inv (e, t) = po_inv (e, 0)" "po_cur (e, t) = po_cur (e, 0)"
  by (simp_all add: fun_eq_iff po_inv_def po_cur_def)

lemma mo_clock: "mo_inv (M, G, uuid, t) = mo_inv (M, G, uuid, 0)" "mo_offsets (M, G, uuid, t) = mo_offsets (M, G, uuid, 0)"
  by (simp_all add: fun_eq_iff mo_inv_def mo_offsets_def)

text \<open>
  C8. The memory store and the Postgres store refine the same table of offsets: after the same
  writes and resets, read at the same times and all ending well, from stores with the same
  offsets, they hold the same offsets, and \<open>GetCurrentOffset\<close> returns the same from both.
\<close>

theorem offsets_agree:
  assumes "\<And>t. po_rely ((D, Gp), t)" "\<And>t. mo_rely (M, Gm, uuid, t)"
    and "po_inv ((D, Gp), 0) s" "mo_inv (M, Gm, uuid, 0) m"
    and "po_cur ((D, Gp), 0) s = mo_offsets (M, Gm, uuid, 0) m"
    and "list_all (offset_cmd_ok mo_storable (\<lambda>n. nul_free n \<and> n \<noteq> [])) cs"
    and "run_offset_cmds (po_WriteOffset D) (po_ResetOffset D) cs s = (Ok (), s')"
    and "run_offset_cmds (mo_WriteOffset M uuid) (mo_ResetOffset M) cs m = (Ok (), m')"
    and "po_GetCurrentOffset D (Some \<lparr>pj_ProjectionName = n, pj_ShardNumber = k\<rparr>) s' = Ok x"
    and "mo_GetCurrentOffset M (Some \<lparr>pj_ProjectionName = n, pj_ShardNumber = k\<rparr>) m' = Ok y"
    and "nul_free n" "n \<noteq> []"
  shows "x = y \<and> po_cur ((D, Gp), 0) s' = mo_offsets (M, Gm, uuid, 0) m'"
proof -
  let ?po = "\<lambda>t. ((D, Gp), t)" and ?mo = "\<lambda>t. (M, Gm, uuid, t)"
  have "list_all (offset_cmd_ok (\<lambda>x. of_ProjectionName x \<noteq> []) (\<lambda>n. n \<noteq> [])) cs"
    using assms(6) by (rule list.pred_mono_strong) (case_tac z, auto simp: mo_storable_def)
  then have s: "po_inv (?po 0) s'" "po_cur (?po 0) s' = fold apply_offset_cmd cs (po_cur (?po 0) s)"
    using po.run_offset_cmds_cur [of ?po cs s s', OF assms(1) po_clock] assms(3,7) by simp_all
  have "list_all (offset_cmd_ok mo_storable nul_free) cs"
    using assms(6) by (rule list.pred_mono_strong) (case_tac z, auto)
  then have m: "mo_inv (?mo 0) m'" "mo_offsets (?mo 0) m' = fold apply_offset_cmd cs (mo_offsets (?mo 0) m)"
    using mo.run_offset_cmds_cur [of ?mo cs m m', OF assms(2) mo_clock] assms(4,8) by simp_all
  have "po_cur (?po 0) s' = mo_offsets (?mo 0) m'" by (simp add: s(2) m(2) assms(5))
  moreover have "x = po_cur (?po 0) s' (n, k)" using po.get_ok [OF assms(1) s(1), of n k x] assms(9,12) by simp
  moreover have "y = mo_offsets (?mo 0) m' (n, k)" using mo.get_ok [OF assms(2) m(1), of n k y] assms(10,11) by simp
  ultimately show ?thesis by simp
qed

definition wit_cmds :: "offset_cmd list" where
  "wit_cmds = [CmdOffset (of_wit ''p'' 1 10), CmdOffset (of_wit ''p'' 2 20), CmdOffset (of_wit ''q'' 1 5),
     CmdOffset (of_wit ''p'' 1 11), CmdReset 99 ''p'' 0, CmdOffset (of_wit ''p'' 2 1)]"

theorem offsets_agree_witness:
  "mo_GetCurrentOffset ref_memdb (Some \<lparr>pj_ProjectionName = ''p'', pj_ShardNumber = 1\<rparr>)
     (snd (run_offset_cmds (mo_WriteOffset ref_memdb mo_uuid) (mo_ResetOffset ref_memdb) wit_cmds mo_wit)) =
   Ok (Some ((of_wit ''p'' 1 0)\<lparr>of_Timestamp := 99\<rparr>))"
proof -
  let ?k = "Some \<lparr>pj_ProjectionName = ''p'', pj_ShardNumber = 1\<rparr>"
  let ?po = "run_offset_cmds (po_WriteOffset ref_drv) (po_ResetOffset ref_drv) wit_cmds po_wit"
    and ?mo = "run_offset_cmds (mo_WriteOffset ref_memdb mo_uuid) (mo_ResetOffset ref_memdb) wit_cmds mo_wit"
  have "fst ?po = Ok ()" "fst ?mo = Ok ()" by code_simp+
  note run = this [THEN ok_run]
  have x: "po_GetCurrentOffset ref_drv ?k (snd ?po) = Ok (Some ((of_wit ''p'' 1 0)\<lparr>of_Timestamp := 99\<rparr>))" by code_simp
  have "is_ok (mo_GetCurrentOffset ref_memdb ?k (snd ?mo))" by code_simp
  then obtain y where y: "mo_GetCurrentOffset ref_memdb ?k (snd ?mo) = Ok y" by (auto simp: is_ok_iff)
  have cs: "list_all (offset_cmd_ok mo_storable (\<lambda>n. nul_free n \<and> n \<noteq> [])) wit_cmds"
    by (simp add: wit_cmds_def of_wit_def mo_storable_def nul_free_def)
  have same: "po_cur ((ref_drv, ref_ghost), 0) po_wit = mo_offsets (ref_memdb, ref_mdghost, mo_uuid, 0) mo_wit"
    by (simp only: po_wit_inv(2) mo_wit_inv(2))
  have "nul_free ''p''" by (simp add: nul_free_def)
  from offsets_agree [OF po_wit_rely mo_wit_rely po_wit_inv(1) mo_wit_inv(1) same cs run x y this]
  show ?thesis using y by simp
qed

text \<open>
  A reset of the memory store sets the value and the time of every shard of its projection
  that has an offset, and moves no other projection, although it writes through the pointers
  that the database holds.
\<close>

theorem memory_reset_all_shards:
  assumes "mo_rely (M, G, uuid, now)" "mo_inv (M, G, uuid, now) s" "nul_free n" "nul_free p"
    and "mo_ResetOffset M now n v s = (r, s')"
    and "mo_GetCurrentOffset M (Some \<lparr>pj_ProjectionName = p, pj_ShardNumber = k\<rparr>) s' = Ok y"
  shows "y = (if p = n then map_option (\<lambda>x. x\<lparr>of_Value := v, of_Timestamp := now\<rparr>) (mo_offsets (M, G, uuid, now) s (p, k))
              else mo_offsets (M, G, uuid, now) s (p, k))"
proof -
  have "mo_connected s'" using assms(6) by (auto simp: mo_GetCurrentOffset_def split: if_splits)
  then have "mo_connected s" using assms(5)
    by (auto simp: mo_ResetOffset_def Let_def split: if_splits option.splits res.splits prod.splits)
  then have "r = Ok ()" using mo_reset(2) [OF assms(1-3) refl assms(5)] by simp
  then show ?thesis
    using mo.read_after_reset [OF assms(1-3), of v s' p k y] assms(4-6) by simp
qed

theorem memory_reset_all_shards_witness:
  "mo_GetCurrentOffset ref_memdb (Some \<lparr>pj_ProjectionName = ''q'', pj_ShardNumber = 1\<rparr>)
     (snd (mo_ResetOffset ref_memdb 99 ''p'' 0 (snd (mo_WriteOffset ref_memdb mo_uuid (Some (of_wit ''q'' 1 5)) mo_wit)))) =
   Ok (Some (of_wit ''q'' 1 5))"
proof -
  let ?env = "(ref_memdb, ref_mdghost, mo_uuid, 99 :: i64)" and ?x = "of_wit ''q'' 1 5"
  let ?w = "mo_WriteOffset ref_memdb mo_uuid (Some ?x) mo_wit"
  have x: "mo_storable ?x" by (simp add: mo_storable_def of_wit_def nul_free_def)
  have "fst ?w = Ok ()" by code_simp
  note w = mo_write [OF mo_wit_rely mo_wit_inv(1) x refl ok_run [OF this]]
  let ?get = "mo_GetCurrentOffset ref_memdb (Some \<lparr>pj_ProjectionName = ''q'', pj_ShardNumber = 1\<rparr>)
     (snd (mo_ResetOffset ref_memdb 99 ''p'' 0 (snd ?w)))"
  have "is_ok ?get" by code_simp
  then obtain y where y: "?get = Ok y" by (auto simp: is_ok_iff)
  have "y = mo_offsets ?env (snd ?w) (''q'', 1)"
    using memory_reset_all_shards [OF mo_wit_rely w(1) _ _ surjective_pairing y] by (simp add: nul_free_def)
  also have "\<dots> = Some ?x" using w(3) by (simp add: of_wit_def offset_key_def)
  finally show ?thesis using y by simp
qed

text \<open>
  Every write of an offset in memory adds a row for good: it succeeds on a connected store,
  sets the offset of its projection and shard, and the table has one row more even if that
  projection and shard had an offset, because the rows are keyed by fresh UUIDs.
\<close>

theorem memory_offset_rows_grow:
  assumes "mo_rely (M, G, uuid, now)" "mo_inv (M, G, uuid, now) s" "mo_storable x" "mo_connected s"
    and "mo_WriteOffset M uuid (Some x) s = (r, s')"
  shows "r = Ok () \<and> mo_offsets (M, G, uuid, now) s' = (mo_offsets (M, G, uuid, now) s)(offset_key x \<mapsto> x) \<and>
    card (mo_rows (M, G, uuid, now) s') = Suc (card (mo_rows (M, G, uuid, now) s)) \<and> mo_inv (M, G, uuid, now) s'"
proof -
  note w = mo_write [OF assms(1-3) refl assms(5)]
  then have "r = Ok ()" using assms(4) by simp
  then show ?thesis
    using w mo_write_rows [OF assms(1-3)] assms(5) by simp
qed

theorem memory_offset_rows_grow_witness:
  "card (mo_rows (ref_memdb, ref_mdghost, mo_uuid, 0)
     (snd (mo_WriteOffset ref_memdb mo_uuid (Some (of_wit ''q'' 1 6))
       (snd (mo_WriteOffset ref_memdb mo_uuid (Some (of_wit ''q'' 1 5)) mo_wit))))) = 2"
proof -
  have x: "mo_storable (of_wit ''q'' 1 v)" for v by (simp add: mo_storable_def of_wit_def nul_free_def)
  have conn: "mo_connected mo_wit" "mo_connected (snd (mo_WriteOffset ref_memdb mo_uuid (Some (of_wit ''q'' 1 5)) mo_wit))"
    by code_simp+
  note one = memory_offset_rows_grow [OF mo_wit_rely mo_wit_inv(1) x conn(1) surjective_pairing]
  then have "mo_inv (ref_memdb, ref_mdghost, mo_uuid, 0) (snd (mo_WriteOffset ref_memdb mo_uuid (Some (of_wit ''q'' 1 5)) mo_wit))"
    by blast
  from memory_offset_rows_grow [OF mo_wit_rely this x conn(2) surjective_pairing]
  have "card (mo_rows (ref_memdb, ref_mdghost, mo_uuid, 0)
     (snd (mo_WriteOffset ref_memdb mo_uuid (Some (of_wit ''q'' 1 6))
       (snd (mo_WriteOffset ref_memdb mo_uuid (Some (of_wit ''q'' 1 5)) mo_wit))))) = Suc (Suc (card (mo_rows (ref_memdb, ref_mdghost, mo_uuid, 0) mo_wit)))"
    using one by simp
  moreover have "mo_rows (ref_memdb, ref_mdghost, mo_uuid, 0) mo_wit = {}"
  proof -
    let ?G = "ref_mdghost :: (nat dbstate, nat dbstate, nat) mdghost"
    obtain db where db: "mo_db mo_wit = Some db"
      "mo_trees (mg_enc ?G) mo_uuid (mo_heap mo_wit) (mo_next mo_wit) (snd (mg_db ?G db) offsetTableName)"
      using mo_wit_inv(1) [of 0] conn(1) by (auto simp: mo_inv_def)
    have "mo_next mo_wit = 0" by code_simp
    then have "\<forall>p \<in> mo_ids (snd (mg_db ?G db) offsetTableName). p < 0"
      using db(2) unfolding mo_trees_def by simp
    then show ?thesis using db(1) by (simp add: mo_rows_def)
  qed
  ultimately show ?thesis by simp
qed

end
