(* ===== verification/SnapshotStore.thy ===== *)
theory SnapshotStore
  imports Proto
begin

text \<open>
  The interface \<open>persistence.SnapshotStore\<close>: snapshots are kept by persistence id and
  sequence number; a write replaces the one with its key, the latest is the one with the
  greatest sequence number, a delete removes those up to a number.
\<close>

definition snapshot_key :: "snapshot \<Rightarrow> string \<times> u64" where
  "snapshot_key x = (sn_PersistenceId x, sn_SequenceNumber x)"

definition is_latest :: "(string \<times> u64 \<rightharpoonup> snapshot) \<Rightarrow> string \<Rightarrow> snapshot option \<Rightarrow> bool" where
  "is_latest m p y \<longleftrightarrow>
     (case y of
        None \<Rightarrow> \<forall>n. m (p, n) = None
      | Some x \<Rightarrow> m (p, sn_SequenceNumber x) = Some x \<and> (\<forall>n. m (p, n) \<noteq> None \<longrightarrow> n \<le> sn_SequenceNumber x))"

definition drop_upto :: "string \<Rightarrow> u64 \<Rightarrow> (string \<times> u64 \<rightharpoonup> snapshot) \<Rightarrow> (string \<times> u64 \<rightharpoonup> snapshot)" where
  "drop_upto p n m = (\<lambda>k. if fst k = p \<and> snd k \<le> n then None else m k)"

lemma is_latest_unique:
  assumes "is_latest m p x" "is_latest m p y"
  shows "x = y"
proof (cases x; cases y)
  fix a b assume xy: "x = Some a" "y = Some b"
  then have "sn_SequenceNumber a \<le> sn_SequenceNumber b" "sn_SequenceNumber b \<le> sn_SequenceNumber a"
    using assms by (auto simp: is_latest_def)
  then have "sn_SequenceNumber a = sn_SequenceNumber b" by (rule order.antisym)
  then show ?thesis using assms xy by (auto simp: is_latest_def)
qed (use assms in \<open>auto simp: is_latest_def\<close>)

locale snapshot_store =
  fixes rely :: "'env \<Rightarrow> bool"
    and inv :: "'env \<Rightarrow> 's \<Rightarrow> bool"
    and storable :: "'env \<Rightarrow> snapshot \<Rightarrow> bool"
    and snaps :: "'env \<Rightarrow> 's \<Rightarrow> string \<times> u64 \<rightharpoonup> snapshot"
    and WriteSnapshot :: "'env \<Rightarrow> snapshot option \<Rightarrow> 's \<Rightarrow> unit res \<times> 's"
    and GetLatestSnapshot :: "'env \<Rightarrow> string \<Rightarrow> 's \<Rightarrow> snapshot option res"
    and DeleteSnapshots :: "'env \<Rightarrow> string \<Rightarrow> u64 \<Rightarrow> 's \<Rightarrow> unit res \<times> 's"
  assumes write_inv: "\<lbrakk>rely env; inv env s; storable env x; WriteSnapshot env (Some x) s = (r, s')\<rbrakk> \<Longrightarrow> inv env s'"
    and write_ok: "\<lbrakk>rely env; inv env s; storable env x; WriteSnapshot env (Some x) s = (Ok (), s')\<rbrakk>
      \<Longrightarrow> snaps env s' = (snaps env s)(snapshot_key x \<mapsto> x)"
    and latest_ok: "\<lbrakk>rely env; inv env s; p \<noteq> []; GetLatestSnapshot env p s = Ok y\<rbrakk>
      \<Longrightarrow> is_latest (snaps env s) p y"
    and delete_inv: "\<lbrakk>rely env; inv env s; DeleteSnapshots env p n s = (r, s')\<rbrakk> \<Longrightarrow> inv env s'"
    and delete_ok: "\<lbrakk>rely env; inv env s; DeleteSnapshots env p n s = (Ok (), s')\<rbrakk>
      \<Longrightarrow> snaps env s' = drop_upto p n (snaps env s)"
begin

text \<open>A snapshot written with the greatest number so far is the one a recovery loads.\<close>

lemma latest_after_write:
  assumes "rely env" "inv env s" "storable env x" "sn_PersistenceId x \<noteq> []"
    and "WriteSnapshot env (Some x) s = (Ok (), s')"
    and "\<forall>n. snaps env s (sn_PersistenceId x, n) \<noteq> None \<longrightarrow> n \<le> sn_SequenceNumber x"
    and "GetLatestSnapshot env (sn_PersistenceId x) s' = Ok y"
  shows "y = Some x"
proof (rule is_latest_unique)
  have "inv env s'" using assms(1,2,3,5) by (rule write_inv)
  from latest_ok [OF assms(1) this assms(4,7)] show "is_latest (snaps env s') (sn_PersistenceId x) y" .
  show "is_latest (snaps env s') (sn_PersistenceId x) (Some x)"
    using assms(6) write_ok [OF assms(1,2,3,5)] by (auto simp: is_latest_def snapshot_key_def)
qed

text \<open>A delete up to a number keeps a latest snapshot beyond it, and removes one within it.\<close>

lemma latest_after_delete:
  assumes "rely env" "inv env s" "p \<noteq> []" "GetLatestSnapshot env p s = Ok y"
    and "DeleteSnapshots env p n s = (Ok (), s')" "GetLatestSnapshot env p s' = Ok y'"
  shows "y' = (case y of None \<Rightarrow> None | Some x \<Rightarrow> if sn_SequenceNumber x \<le> n then None else Some x)"
proof (rule is_latest_unique)
  have "inv env s'" using assms(1,2,5) by (rule delete_inv)
  from latest_ok [OF assms(1) this assms(3,6)] show "is_latest (snaps env s') p y'" .
  have "is_latest (snaps env s) p y" using assms(1-4) by (rule latest_ok)
  then show "is_latest (snaps env s') p
      (case y of None \<Rightarrow> None | Some x \<Rightarrow> if sn_SequenceNumber x \<le> n then None else Some x)"
    using delete_ok [OF assms(1,2,5)]
    by (cases y) (auto simp: is_latest_def drop_upto_def intro: order.trans)
qed

end

end
