(* ===== verification/SnapshotPg.thy ===== *)
theory SnapshotPg
  imports PgStore TypedTable SnapshotStore
begin

text \<open>
  \<open>snapshotstore/postgres\<close>: the Postgres snapshot store of \<open>snapshot_store.go\<close> with the
  struct \<open>snapshotRow\<close> of \<open>row.go\<close>, over the layer of \<open>postgres.go\<close>.
\<close>

section \<open>row.go\<close>

record snapshot_row =
  sw_PersistenceID :: string
  sw_SequenceNumber :: u64
  sw_StatePayload :: go_bytes
  sw_StateManifest :: string
  sw_Timestamp :: i64
  sw_EncryptionKeyID :: string
  sw_IsEncrypted :: bool

definition zero_snapshot_row :: snapshot_row where
  "zero_snapshot_row = \<lparr>sw_PersistenceID = [], sw_SequenceNumber = 0, sw_StatePayload = None,
     sw_StateManifest = [], sw_Timestamp = 0, sw_EncryptionKeyID = [], sw_IsEncrypted = False\<rparr>"

definition ps_toProto :: "('t, 'm) protolib \<Rightarrow> string \<Rightarrow> go_bytes \<Rightarrow> any res" where
  "ps_toProto L manifest bytea =
     (case find_message L manifest of
        Err err \<Rightarrow> Err err
      | Panic \<Rightarrow> Panic
      | Ok mt \<Rightarrow>
          (case unmarshal L mt bytea of
             Err err \<Rightarrow> Err err
           | Panic \<Rightarrow> Panic
           | Ok pm \<Rightarrow>
               (case pm of
                  MsgAny cast \<Rightarrow> Ok cast
                | MsgOther _ \<Rightarrow> Err (ErrNew (''failed to unpack message='' @ manifest)))))"

lemma ps_toProto_eq [simp]: "ps_toProto = toProto"
  by (intro ext) (simp add: ps_toProto_def toProto_def)

definition ToSnapshot :: "('t, 'm) protolib \<Rightarrow> snapshot_row \<Rightarrow> snapshot res" where
  "ToSnapshot L x =
     (case ps_toProto L (sw_StateManifest x) (sw_StatePayload x) of
        Err err \<Rightarrow> Err (ErrWrap ''failed to unmarshal the snapshot state'' err)
      | Panic \<Rightarrow> Panic
      | Ok state \<Rightarrow>
          Ok \<lparr>sn_PersistenceId = sw_PersistenceID x, sn_SequenceNumber = sw_SequenceNumber x,
              sn_State = Some state, sn_Timestamp = sw_Timestamp x,
              sn_EncryptionKeyId = sw_EncryptionKeyID x, sn_IsEncrypted = sw_IsEncrypted x\<rparr>)"

definition scan_snapshot_row :: "row \<Rightarrow> snapshot_row res" where
  "scan_snapshot_row r =
     bind_res (scan_string (r ''persistence_id'')) (\<lambda>pid.
     bind_res (scan_u64 (r ''sequence_number'')) (\<lambda>seq.
     bind_res (scan_bytes (r ''state_payload'')) (\<lambda>payload.
     bind_res (scan_string (r ''state_manifest'')) (\<lambda>manifest.
     bind_res (scan_i64 (r ''timestamp'')) (\<lambda>ts.
     bind_res (scan_string (r ''encryption_key_id'')) (\<lambda>key.
     bind_res (scan_bool (r ''is_encrypted'')) (\<lambda>enc.
       Ok \<lparr>sw_PersistenceID = pid, sw_SequenceNumber = seq, sw_StatePayload = payload,
           sw_StateManifest = manifest, sw_Timestamp = ts, sw_EncryptionKeyID = key,
           sw_IsEncrypted = enc\<rparr>)))))))"

section \<open>snapshot\_store.go\<close>

definition ps_columns :: "string list" where
  "ps_columns = [''persistence_id'', ''sequence_number'', ''state_payload'', ''state_manifest'',
     ''timestamp'', ''encryption_key_id'', ''is_encrypted'']"

definition ps_tableName :: string where
  "ps_tableName = ''snapshots_store''"

definition ps_NewSnapshotStore :: "config \<Rightarrow> 'w \<Rightarrow> ('pool, 'w) pg_store" where
  "ps_NewSnapshotStore config w =
     \<lparr>st_db = newDatabase (newConfig config), st_connected = False, st_world = w\<rparr>"

definition ps_Connect ::
  "('q, 'cfg, 'pool, 'tx, 'w) pgdrv \<Rightarrow> ('pool, 'w) pg_store \<Rightarrow> unit res \<times> ('pool, 'w) pg_store" where
  "ps_Connect D s =
     (if st_connected s then (Ok (), s)
      else case pg_Connect D (st_pair s) of
             (Err err, p) \<Rightarrow> (Err err, st_put p s)
           | (Panic, p) \<Rightarrow> (Panic, st_put p s)
           | (Ok _, p) \<Rightarrow> (Ok (), (st_put p s)\<lparr>st_connected := True\<rparr>))"

definition ps_Disconnect ::
  "('q, 'cfg, 'pool, 'tx, 'w) pgdrv \<Rightarrow> ('pool, 'w) pg_store \<Rightarrow> unit res \<times> ('pool, 'w) pg_store" where
  "ps_Disconnect D s =
     (if \<not> st_connected s then (Ok (), s)
      else case pg_Disconnect D (st_pair s) of
             (Err err, p) \<Rightarrow> (Err err, st_put p s)
           | (Panic, p) \<Rightarrow> (Panic, st_put p s)
           | (Ok _, p) \<Rightarrow> (Ok (), (st_put p s)\<lparr>st_connected := False\<rparr>))"

definition ps_Ping ::
  "('q, 'cfg, 'pool, 'tx, 'w) pgdrv \<Rightarrow> ('pool, 'w) pg_store \<Rightarrow> unit res \<times> ('pool, 'w) pg_store" where
  "ps_Ping D s =
     (if \<not> st_connected s then ps_Connect D s
      else let (r, p) = pg_Ping D (st_pair s) in (r, st_put p s))"

definition snapshot_not_connected :: goerr where
  "snapshot_not_connected = ErrNew ''snapshot store is not connected''"

definition ps_upsert :: "('t, 'm) protolib \<Rightarrow> snapshot \<Rightarrow> insert_stmt" where
  "ps_upsert L snapshot =
     (let bytea = marshal_bytes L (sn_State snapshot);
          manifest = full_name L (sn_State snapshot)
      in sq_OnConflictUpdate [''persistence_id'', ''sequence_number'']
           [''state_payload'', ''state_manifest'', ''timestamp'', ''encryption_key_id'', ''is_encrypted'']
           (sq_Values
             [SText (sn_PersistenceId snapshot), bind_u64 (sn_SequenceNumber snapshot), bind_bytes bytea,
              SText manifest, bind_i64 (sn_Timestamp snapshot), SText (sn_EncryptionKeyId snapshot),
              SBool (sn_IsEncrypted snapshot)]
             (sq_Insert ps_tableName ps_columns)))"

text \<open>The flag, read under the mutex.\<close>

definition ps_isConnected :: "('pool, 'w, 'x) pg_store_scheme \<Rightarrow> bool" where
  "ps_isConnected s = st_connected s"

lemma ps_isConnected_eq [simp]: "ps_isConnected = st_connected"
  by (intro ext) (simp add: ps_isConnected_def)

definition ps_WriteSnapshot ::
  "('t, 'm) protolib \<Rightarrow> ('q, 'cfg, 'pool, 'tx, 'w) pgdrv \<Rightarrow> snapshot option \<Rightarrow>
   ('pool, 'w) pg_store \<Rightarrow> unit res \<times> ('pool, 'w) pg_store" where
  "ps_WriteSnapshot L D snapshot s =
     (if \<not> ps_isConnected s then (Err snapshot_not_connected, s)
      else case snapshot of
        None \<Rightarrow> (Ok (), s)
      | Some sn \<Rightarrow>
          if sn = zero_snapshot then (Ok (), s)
          else case to_sql D (Insert (ps_upsert L sn)) of
            Err err \<Rightarrow> (Err (ErrWrap ''unable to build sql upsert statement'' err), s)
          | Panic \<Rightarrow> (Panic, s)
          | Ok query \<Rightarrow>
              (case pg_Exec D query (st_pair s) of
                 (Err err, p) \<Rightarrow> (Err (ErrWrap ''failed to write snapshot'' err), st_put p s)
               | (Panic, p) \<Rightarrow> (Panic, st_put p s)
               | (Ok _, p) \<Rightarrow> (Ok (), st_put p s)))"

definition ps_select :: "string \<Rightarrow> select_stmt" where
  "ps_select persistenceID =
     sq_Limit 1 (sq_OrderByDesc ''sequence_number''
       (sq_Where (CondEq ''persistence_id'' (SText persistenceID)) (sq_Select ps_columns ps_tableName)))"

definition ps_GetLatestSnapshot ::
  "('t, 'm) protolib \<Rightarrow> ('q, 'cfg, 'pool, 'tx, 'w) pgdrv \<Rightarrow> string \<Rightarrow> ('pool, 'w) pg_store \<Rightarrow>
   snapshot option res" where
  "ps_GetLatestSnapshot L D persistenceID s =
     (if \<not> ps_isConnected s then Err snapshot_not_connected
      else case to_sql D (Select (ps_select persistenceID)) of
        Err err \<Rightarrow> Err (ErrWrap ''failed to build the select sql statement'' err)
      | Panic \<Rightarrow> Panic
      | Ok query \<Rightarrow>
          (case bind_res (pg_Select D query (st_pair s))
                  (\<lambda>x. case x of None \<Rightarrow> Ok zero_snapshot_row | Some r \<Rightarrow> scan_snapshot_row r) of
             Err err \<Rightarrow> Err (ErrWrap ''failed to fetch the latest snapshot from the database'' err)
           | Panic \<Rightarrow> Panic
           | Ok row \<Rightarrow>
               if sw_PersistenceID row = '''' then Ok None
               else bind_res (ToSnapshot L row) (\<lambda>d. Ok (Some d))))"

definition ps_delete :: "string \<Rightarrow> u64 \<Rightarrow> delete_stmt" where
  "ps_delete persistenceID toSequenceNumber =
     sq_DeleteWhere (CondLtOrEq ''sequence_number'' (bind_u64 toSequenceNumber))
       (sq_DeleteWhere (CondEq ''persistence_id'' (SText persistenceID)) (sq_Delete ps_tableName))"

definition ps_DeleteSnapshots ::
  "('q, 'cfg, 'pool, 'tx, 'w) pgdrv \<Rightarrow> string \<Rightarrow> u64 \<Rightarrow> ('pool, 'w) pg_store \<Rightarrow>
   unit res \<times> ('pool, 'w) pg_store" where
  "ps_DeleteSnapshots D persistenceID toSequenceNumber s =
     (if \<not> ps_isConnected s then (Err snapshot_not_connected, s)
      else case to_sql D (Delete (ps_delete persistenceID toSequenceNumber)) of
        Err err \<Rightarrow> (Err (ErrWrap ''unable to build sql delete statement'' err), s)
      | Panic \<Rightarrow> (Panic, s)
      | Ok query \<Rightarrow>
          (case pg_Exec D query (st_pair s) of
             (Err err, p) \<Rightarrow> (Err (ErrWrap ''failed to delete snapshots'' err), st_put p s)
           | (Panic, p) \<Rightarrow> (Panic, st_put p s)
           | (Ok _, p) \<Rightarrow> (Ok (), st_put p s)))"

section \<open>Lifecycle\<close>

lemma ps_store: "ps_Connect = store_Connect" "ps_Disconnect = store_Disconnect" "ps_Ping = store_Ping"
  by (simp_all add: fun_eq_iff ps_Connect_def ps_Disconnect_def ps_Ping_def store_defs)

interpretation ps_life: lifecycle "\<lambda>_. True" st_connected ps_Connect ps_Disconnect ps_Ping
  unfolding ps_store by (rule store_life.lifecycle_axioms)

section \<open>The table as snapshots\<close>

definition snapshot_row_values :: "snapshot_row \<Rightarrow> sqlval list" where
  "snapshot_row_values x = [SText (sw_PersistenceID x), bind_u64 (sw_SequenceNumber x),
     bind_bytes (sw_StatePayload x), SText (sw_StateManifest x), bind_i64 (sw_Timestamp x),
     SText (sw_EncryptionKeyID x), SBool (sw_IsEncrypted x)]"

interpretation ps_table: typed_table ps_columns snapshot_row_values scan_snapshot_row
proof unfold_locales
  show "scan_snapshot_row (row_of ps_columns (snapshot_row_values x)) = Ok x" for x
    by (simp add: scan_snapshot_row_def row_of_def ps_columns_def snapshot_row_values_def)
  show "scan_snapshot_row r = scan_snapshot_row r'" if "\<And>c. c \<in> set ps_columns \<Longrightarrow> r c = r' c" for r r'
    using that by (simp add: scan_snapshot_row_def ps_columns_def)
  show "r c = row_of ps_columns (snapshot_row_values x) c"
    if "scan_snapshot_row r = Ok x" "c \<in> set ps_columns" for r x c
  proof -
    have "r ''persistence_id'' = SText (sw_PersistenceID x)" "r ''sequence_number'' = bind_u64 (sw_SequenceNumber x)"
      "r ''state_payload'' = bind_bytes (sw_StatePayload x)" "r ''state_manifest'' = SText (sw_StateManifest x)"
      "r ''timestamp'' = bind_i64 (sw_Timestamp x)" "r ''encryption_key_id'' = SText (sw_EncryptionKeyID x)"
      "r ''is_encrypted'' = SBool (sw_IsEncrypted x)"
      using that(1) by (auto simp: scan_snapshot_row_def bind_res_Ok_iff dest!: scan_Ok)
    then show ?thesis
      using that(2) by (auto simp: row_of_def ps_columns_def snapshot_row_values_def)
  qed
qed

section \<open>The SnapshotStore contract\<close>

type_synonym ('t, 'm, 'q, 'cfg, 'pool, 'tx, 'w) psenv =
  "('t, 'm) protolib \<times> ('q, 'cfg, 'pool, 'tx, 'w) pgenv"

abbreviation ps_keys :: "string list" where
  "ps_keys \<equiv> [''persistence_id'', ''sequence_number'']"

abbreviation ps_updated :: "string list" where
  "ps_updated \<equiv> [''state_payload'', ''state_manifest'', ''timestamp'', ''encryption_key_id'', ''is_encrypted'']"

abbreviation ps_T :: "('t, 'm, 'q, 'cfg, 'pool, 'tx, 'w) psenv \<Rightarrow> ('pool, 'w) pgdb \<Rightarrow> row multiset" where
  "ps_T env p \<equiv> pg_tables (snd env) p ''snapshots_store''"

definition ps_rely :: "('t, 'm, 'q, 'cfg, 'pool, 'tx, 'w) psenv \<Rightarrow> bool" where
  "ps_rely env \<longleftrightarrow> proto_contract (fst env) \<and> pgenv_ok (snd env) \<and>
     gh_pk (snd (snd env)) ''snapshots_store'' = ps_keys"

text \<open>Every row of the table can be scanned and decoded.\<close>

definition ps_rows_ok :: "('t, 'm) protolib \<Rightarrow> row multiset \<Rightarrow> bool" where
  "ps_rows_ok L T \<longleftrightarrow> well_typed scan_snapshot_row T \<and> (\<forall>x \<in># content scan_snapshot_row T. is_ok (ToSnapshot L x))"

definition ps_inv :: "('t, 'm, 'q, 'cfg, 'pool, 'tx, 'w) psenv \<Rightarrow> ('pool, 'w) pg_store \<Rightarrow> bool" where
  "ps_inv env s \<longleftrightarrow> pg_ready (snd env) (st_pair s) \<and> ps_rows_ok (fst env) (ps_T env (st_pair s))"

definition ps_storable :: "('t, 'm) protolib \<Rightarrow> snapshot \<Rightarrow> bool" where
  "ps_storable L x \<longleftrightarrow> sn_PersistenceId x \<noteq> [] \<and> sn_State x \<noteq> None \<and> marshals L (sn_State x)"

definition ps_find :: "('t, 'm) protolib \<Rightarrow> row multiset \<Rightarrow> string \<times> u64 \<rightharpoonup> snapshot" where
  "ps_find L T k = map_option (\<lambda>x. the_ok (ToSnapshot L x))
     (lookup scan_snapshot_row ps_keys T [SText (fst k), bind_u64 (snd k)])"

definition ps_snaps ::
  "('t, 'm, 'q, 'cfg, 'pool, 'tx, 'w) psenv \<Rightarrow> ('pool, 'w) pg_store \<Rightarrow> string \<times> u64 \<rightharpoonup> snapshot" where
  "ps_snaps env s = ps_find (fst env) (ps_T env (st_pair s))"

definition row_of_snapshot :: "('t, 'm) protolib \<Rightarrow> snapshot \<Rightarrow> snapshot_row" where
  "row_of_snapshot L x = \<lparr>sw_PersistenceID = sn_PersistenceId x, sw_SequenceNumber = sn_SequenceNumber x,
     sw_StatePayload = marshal_bytes L (sn_State x), sw_StateManifest = full_name L (sn_State x),
     sw_Timestamp = sn_Timestamp x, sw_EncryptionKeyID = sn_EncryptionKeyId x,
     sw_IsEncrypted = sn_IsEncrypted x\<rparr>"

lemma ToSnapshot_row:
  assumes "proto_contract L" "ps_storable L x"
  shows "ToSnapshot L (row_of_snapshot L x) = Ok x"
proof -
  from assms(2) obtain a where a: "sn_State x = Some a" by (auto simp: ps_storable_def)
  have "toProto L (full_name L (sn_State x)) (marshal_bytes L (sn_State x)) = Ok a"
    using toProto_roundtrip [OF assms(1), of "sn_State x"] assms(2) a by (simp add: ps_storable_def)
  then show ?thesis by (simp add: ToSnapshot_def row_of_snapshot_def a [symmetric])
qed

lemma ToSnapshot_key:
  "ToSnapshot L x = Ok d \<Longrightarrow> sn_PersistenceId d = sw_PersistenceID x \<and> sn_SequenceNumber d = sw_SequenceNumber x"
  by (auto simp: ToSnapshot_def split: res.splits)

lemma snapshot_row_key:
  "map (row_of ps_columns (snapshot_row_values x)) ps_keys = [SText (sw_PersistenceID x), bind_u64 (sw_SequenceNumber x)]"
  by (simp add: row_of_def ps_columns_def snapshot_row_values_def)

lemma ps_cols: "set ps_keys \<subseteq> set ps_columns" "set ps_keys \<inter> set ps_updated = {}"
  "set ps_columns \<subseteq> set ps_keys \<union> set ps_updated"
  by (simp_all add: ps_columns_def)

lemma ps_upsert_fields:
  "ins_into (ps_upsert L x) = ''snapshots_store''"
  "ins_conflict (ps_upsert L x) = Some (ps_keys, ps_updated)"
  "ins_columns (ps_upsert L x) = ps_columns"
  "ins_values (ps_upsert L x) = [snapshot_row_values (row_of_snapshot L x)]"
  by (simp_all add: ps_upsert_def sq_defs ps_tableName_def snapshot_row_values_def row_of_snapshot_def Let_def)

lemma ps_insert:
  assumes "keyed ps_keys T" "ps_rows_ok L T" "proto_contract L" "ps_storable L x"
  shows "ps_rows_ok L (insert_row (Some (ps_keys, ps_updated)) (row_of ps_columns (snapshot_row_values (row_of_snapshot L x))) T)"
    (is "ps_rows_ok L ?T'")
    and "ps_find L (insert_row (Some (ps_keys, ps_updated)) (row_of ps_columns (snapshot_row_values (row_of_snapshot L x))) T) =
      (ps_find L T)(snapshot_key x \<mapsto> x)"
proof -
  have wt: "well_typed scan_snapshot_row T" using assms(2) by (simp add: ps_rows_ok_def)
  note ToSnapshot_row [OF assms(3,4)]
  then show "ps_rows_ok L ?T'"
    using ps_table.upsert_content [OF assms(1) wt ps_cols, of "row_of_snapshot L x"] assms(2)
    by (auto simp: ps_rows_ok_def)
  have key: "map (row_of ps_columns (snapshot_row_values (row_of_snapshot L x))) ps_keys =
      [SText (sn_PersistenceId x), bind_u64 (sn_SequenceNumber x)]"
    unfolding snapshot_row_key by (simp add: row_of_snapshot_def)
  show "ps_find L ?T' = (ps_find L T)(snapshot_key x \<mapsto> x)"
    unfolding ps_find_def ps_table.lookup_insert [OF assms(1) ps_cols(2,3)] key
    using ToSnapshot_row [OF assms(3,4)] by (auto simp: fun_eq_iff snapshot_key_def prod_eq_iff)
qed

lemma ps_delete_fields:
  "del_from (ps_delete p n) = ''snapshots_store''"
  "matches coll (del_where (ps_delete p n)) r \<longleftrightarrow>
     r ''persistence_id'' = SText p \<and> sql_le coll (r ''sequence_number'') (bind_u64 n)"
  by (simp_all add: ps_delete_def sq_defs ps_tableName_def matches_def)

lemma ps_delete_reflects:
  "reflects scan_snapshot_row (\<lambda>r. \<not> matches coll (del_where (ps_delete p n)) r)
     (\<lambda>x. \<not> (sw_PersistenceID x = p \<and> sw_SequenceNumber x \<le> n))"
  unfolding reflects_def ps_delete_fields(2)
  by (auto simp: scan_snapshot_row_def bind_res_Ok_iff dest!: scan_Ok)

lemma ps_drop:
  assumes "keyed ps_keys T" "ps_rows_ok L T"
  shows "ps_rows_ok L (filter_mset (\<lambda>r. \<not> matches coll (del_where (ps_delete p n)) r) T)"
    and "ps_find L (filter_mset (\<lambda>r. \<not> matches coll (del_where (ps_delete p n)) r) T) = drop_upto p n (ps_find L T)"
proof -
  have wt: "well_typed scan_snapshot_row T" using assms(2) by (simp add: ps_rows_ok_def)
  show "ps_rows_ok L (filter_mset (\<lambda>r. \<not> matches coll (del_where (ps_delete p n)) r) T)"
    using assms(2) well_typed_filter [OF wt] content_filter [OF wt ps_delete_reflects]
    by (simp add: ps_rows_ok_def)
  have key: "lookup scan_snapshot_row ps_keys T [SText a, bind_u64 k] = Some x \<Longrightarrow>
      sw_PersistenceID x = a \<and> sw_SequenceNumber x = k" for a k x
    unfolding ps_table.lookup_iff [OF assms(1) wt ps_cols(1)] snapshot_row_key by simp
  show "ps_find L (filter_mset (\<lambda>r. \<not> matches coll (del_where (ps_delete p n)) r) T) = drop_upto p n (ps_find L T)"
    unfolding fun_eq_iff ps_find_def ps_table.lookup_filter [OF assms(1) wt ps_delete_reflects]
    by (auto simp: drop_upto_def ps_find_def dest!: key split: option.split)
qed

lemma ps_keyed: "ps_rely env \<Longrightarrow> pg_ready (snd env) p \<Longrightarrow> keyed ps_keys (ps_T env p)"
  using pgdb.pk_keyed [of "snd env" p "''snapshots_store''"] by (simp add: ps_rely_def)

lemma ps_exec:
  "ps_WriteSnapshot L D (Some x) s =
     (if \<not> st_connected s then (Err snapshot_not_connected, s)
      else if x = zero_snapshot then (Ok (), s)
      else store_exec D ''unable to build sql upsert statement'' ''failed to write snapshot'' (Insert (ps_upsert L x)) s)"
  "ps_DeleteSnapshots D p n s =
     (if \<not> st_connected s then (Err snapshot_not_connected, s)
      else store_exec D ''unable to build sql delete statement'' ''failed to delete snapshots'' (Delete (ps_delete p n)) s)"
  by (simp_all add: ps_WriteSnapshot_def ps_DeleteSnapshots_def store_exec_def)

lemma ps_WriteSnapshot_all:
  assumes "ps_rely env" "ps_inv env s" "ps_storable (fst env) x"
    and "ps_WriteSnapshot (fst env) (fst (snd env)) (Some x) s = (r, s')"
  shows "ps_inv env s'" and "r = Ok () \<Longrightarrow> ps_snaps env s' = (ps_snaps env s)(snapshot_key x \<mapsto> x)"
proof -
  have nz: "x \<noteq> zero_snapshot" using assms(3) by (auto simp: ps_storable_def zero_snapshot_def)
  have rely: "proto_contract (fst env)" "pgenv_ok (snd env)" using assms(1) by (simp_all add: ps_rely_def)
  have inv: "pg_ready (snd env) (st_pair s)" "ps_rows_ok (fst env) (ps_T env (st_pair s))"
    using assms(2) by (simp_all add: ps_inv_def)
  have "ps_inv env s' \<and> (r = Ok () \<longrightarrow> ps_snaps env s' = (ps_snaps env s)(snapshot_key x \<mapsto> x))"
  proof (cases "st_connected s")
    case True
    then have "store_exec (fst (snd env)) ''unable to build sql upsert statement'' ''failed to write snapshot''
        (Insert (ps_upsert (fst env) x)) s = (r, s')"
      using assms(4) nz by (simp add: ps_exec)
    note ex = store_exec_tables [OF rely(2) inv(1) this]
    have "exec_stmt (gh_coll (snd (snd env))) (Insert (ps_upsert (fst env) x)) (pg_tables (snd env) (st_pair s)) ''snapshots_store'' =
        insert_row (Some (ps_keys, ps_updated)) (row_of ps_columns (snapshot_row_values (row_of_snapshot (fst env) x)))
          (ps_T env (st_pair s))"
      by (simp add: ps_upsert_fields)
    note ins = ps_insert [OF ps_keyed [OF assms(1) inv(1)] inv(2) rely(1) assms(3), folded this]
    show ?thesis
      using ex(1-3) ins inv(2) by (auto simp: ps_inv_def ps_snaps_def simp del: exec_stmt.simps)
  qed (use assms(2,4) in \<open>auto simp: ps_exec\<close>)
  then show "ps_inv env s'" and "r = Ok () \<Longrightarrow> ps_snaps env s' = (ps_snaps env s)(snapshot_key x \<mapsto> x)"
    by blast+
qed

lemma ps_DeleteSnapshots_all:
  assumes "ps_rely env" "ps_inv env s" "ps_DeleteSnapshots (fst (snd env)) p n s = (r, s')"
  shows "ps_inv env s'" and "r = Ok () \<Longrightarrow> ps_snaps env s' = drop_upto p n (ps_snaps env s)"
proof -
  have rely: "pgenv_ok (snd env)" using assms(1) by (simp add: ps_rely_def)
  have inv: "pg_ready (snd env) (st_pair s)" "ps_rows_ok (fst env) (ps_T env (st_pair s))"
    using assms(2) by (simp_all add: ps_inv_def)
  have "ps_inv env s' \<and> (r = Ok () \<longrightarrow> ps_snaps env s' = drop_upto p n (ps_snaps env s))"
  proof (cases "st_connected s")
    case True
    then have "store_exec (fst (snd env)) ''unable to build sql delete statement'' ''failed to delete snapshots''
        (Delete (ps_delete p n)) s = (r, s')"
      using assms(3) by (simp add: ps_exec)
    note ex = store_exec_tables [OF rely inv(1) this]
    have "exec_stmt (gh_coll (snd (snd env))) (Delete (ps_delete p n)) (pg_tables (snd env) (st_pair s)) ''snapshots_store'' =
        filter_mset (\<lambda>r. \<not> matches (gh_coll (snd (snd env))) (del_where (ps_delete p n)) r) (ps_T env (st_pair s))"
      unfolding exec_stmt.simps ps_delete_fields(1) by (simp only: fun_upd_same)
    note drop = ps_drop [OF ps_keyed [OF assms(1) inv(1)] inv(2), where coll = "gh_coll (snd (snd env))" and p = p and n = n,
        folded this]
    show ?thesis
      using ex(1-3) drop inv(2) by (auto simp: ps_inv_def ps_snaps_def simp del: exec_stmt.simps)
  qed (use assms(2,3) in \<open>auto simp: ps_exec\<close>)
  then show "ps_inv env s'" and "r = Ok () \<Longrightarrow> ps_snaps env s' = drop_upto p n (ps_snaps env s)"
    by blast+
qed

text \<open>The query of \<open>GetLatestSnapshot\<close> finds the row with the greatest number.\<close>

lemma ps_select_fields:
  "sel_from (ps_select p) = ''snapshots_store''" "sel_columns (ps_select p) = ps_columns"
  "\<not> sel_distinct (ps_select p)" "sel_limit (ps_select p) = Some 1"
  "sel_order (ps_select p) = Some (''sequence_number'', False)"
  "reflects scan_snapshot_row (matches coll (sel_where (ps_select p))) (\<lambda>x. sw_PersistenceID x = p)"
  by (auto simp: ps_select_def sq_defs ps_tableName_def matches_def reflects_def scan_snapshot_row_def
      bind_res_Ok_iff dest!: scan_Ok)

lemma ps_select_latest:
  assumes "well_typed scan_snapshot_row T"
    and "sel_result coll (ps_select p) T (case z of None \<Rightarrow> [] | Some r \<Rightarrow> [r])"
  shows "case z of
      None \<Rightarrow> \<forall>x \<in># content scan_snapshot_row T. sw_PersistenceID x \<noteq> p
    | Some r \<Rightarrow> \<exists>x. scan_snapshot_row r = Ok x \<and> x \<in># content scan_snapshot_row T \<and> sw_PersistenceID x = p \<and>
        (\<forall>y \<in># content scan_snapshot_row T. sw_PersistenceID y = p \<longrightarrow> sw_SequenceNumber y \<le> sw_SequenceNumber x)"
  using ps_table.select_top [OF assms(2) ps_select_fields(2,3) assms(1) ps_select_fields(6,4,5),
      of sw_SequenceNumber]
  by (simp add: row_of_def ps_columns_def snapshot_row_values_def)

lemma ps_get_latest:
  assumes "ps_rely env" "ps_inv env s" "p \<noteq> []"
    and "ps_GetLatestSnapshot (fst env) (fst (snd env)) p s = Ok y"
  shows "is_latest (ps_snaps env s) p y"
proof -
  let ?D = "fst (snd env)" and ?T = "ps_T env (st_pair s)" and ?L = "fst env"
  have conn: "st_connected s" using assms(4) by (auto simp: ps_GetLatestSnapshot_def split: if_splits)
  have ok: "pgenv_ok (snd env)" "pg_ready (snd env) (st_pair s)" "ps_rows_ok ?L ?T"
    using assms(1,2) by (simp_all add: ps_rely_def ps_inv_def)
  have wt: "well_typed scan_snapshot_row ?T" using ok(3) by (simp add: ps_rows_ok_def)
  obtain q where q: "to_sql ?D (Select (ps_select p)) = Ok q"
    using assms(4) conn by (cases "to_sql ?D (Select (ps_select p))") (auto simp: ps_GetLatestSnapshot_def)
  obtain z where z: "pg_Select ?D q (st_pair s) = Ok z"
    using assms(4) conn q by (cases "pg_Select ?D q (st_pair s)") (auto simp: ps_GetLatestSnapshot_def)
  have "pg_renders (snd env) (Select (ps_select p)) q" using q by (simp add: pg_renders_def)
  from pgdb.select_ok [OF ok(1,2) this z] have "sel_result (gh_coll (snd (snd env))) (ps_select p) ?T
      (case z of None \<Rightarrow> [] | Some r \<Rightarrow> [r])" by (simp add: ps_select_fields)
  note latest = ps_select_latest [OF wt this]
  note keyed = ps_keyed [OF assms(1) ok(2)]
  have found: "lookup scan_snapshot_row ps_keys ?T [SText a, bind_u64 k] = Some x \<longleftrightarrow>
      x \<in># content scan_snapshot_row ?T \<and> sw_PersistenceID x = a \<and> sw_SequenceNumber x = k" for a k x
    unfolding ps_table.lookup_iff [OF keyed wt ps_cols(1)] snapshot_row_key by auto
  show ?thesis
  proof (cases z)
    case None
    then have "y = None" using assms(4) conn q z by (simp add: ps_GetLatestSnapshot_def zero_snapshot_row_def)
    moreover have "lookup scan_snapshot_row ps_keys ?T [SText p, bind_u64 k] = None" for k
      using latest None found [of p k] by (cases "lookup scan_snapshot_row ps_keys ?T [SText p, bind_u64 k]") auto
    ultimately show ?thesis by (simp add: is_latest_def ps_snaps_def ps_find_def)
  next
    case (Some r)
    then obtain x where x: "scan_snapshot_row r = Ok x" "x \<in># content scan_snapshot_row ?T" "sw_PersistenceID x = p"
      and max: "\<forall>y \<in># content scan_snapshot_row ?T. sw_PersistenceID y = p \<longrightarrow> sw_SequenceNumber y \<le> sw_SequenceNumber x"
      using latest by auto
    obtain d where d: "ToSnapshot ?L x = Ok d" using ok(3) x(2) by (auto simp: ps_rows_ok_def is_ok_iff)
    then have y: "y = Some d"
      using assms(3,4) conn q z Some x(1,3) by (simp add: ps_GetLatestSnapshot_def)
    have "k \<le> sw_SequenceNumber x" if "lookup scan_snapshot_row ps_keys ?T [SText p, bind_u64 k] \<noteq> None" for k
      using that found max by auto
    moreover have "lookup scan_snapshot_row ps_keys ?T [SText p, bind_u64 (sw_SequenceNumber x)] = Some x"
      using found x(2,3) by simp
    ultimately show ?thesis
      using ToSnapshot_key [OF d] d by (simp add: y is_latest_def ps_snaps_def ps_find_def)
  qed
qed

interpretation ps: snapshot_store ps_rely ps_inv "\<lambda>env. ps_storable (fst env)" ps_snaps
  "\<lambda>env. ps_WriteSnapshot (fst env) (fst (snd env))" "\<lambda>env. ps_GetLatestSnapshot (fst env) (fst (snd env))"
  "\<lambda>env. ps_DeleteSnapshots (fst (snd env))"
  by unfold_locales (blast intro: ps_WriteSnapshot_all ps_DeleteSnapshots_all ps_get_latest)+

end
