(* ===== verification/SnapshotProps.thy ===== *)
theory SnapshotProps
  imports SnapshotPg DurableProps
begin

text \<open>
  The properties of the Postgres snapshot store: the snapshot that a recovery loads after a
  write and after a delete, and the behaviour of a store that is not connected.
\<close>

section \<open>Sample values\<close>

definition sn_wit :: "u64 \<Rightarrow> snapshot" where
  "sn_wit n = \<lparr>sn_PersistenceId = ''p'', sn_SequenceNumber = n, sn_State = Some (wit_any (ucast n)),
     sn_Timestamp = 5, sn_EncryptionKeyId = ''k'', sn_IsEncrypted = True\<rparr>"

definition ps_wit :: "(unit, ref_world) pg_store" where
  "ps_wit = snd (ps_Connect ref_drv (ps_NewSnapshotStore wit_config ref_world0))"

definition ps_wit_env :: "(unit, unit, stmt, unit, unit, unit, ref_world) psenv" where
  "ps_wit_env = (ref_protolib, ref_drv, ref_ghost)"

lemma ps_wit_rely: "ps_rely ps_wit_env"
  by (simp add: ps_wit_env_def ps_rely_def ref_protolib_contract schema_pk_def)

lemma ps_wit_inv: "ps_inv ps_wit_env ps_wit" "ps_snaps ps_wit_env ps_wit = (\<lambda>_. None)"
proof -
  have w: "st_world ps_wit = ref_world0"
    by (simp add: ps_wit_def ps_Connect_def ps_NewSnapshotStore_def pg_Connect_def ref_drv_def st_pair_def st_put_def)
  then have "pg_tables (ref_drv, ref_ghost) (st_pair ps_wit) = (\<lambda>_. {#})"
    by (simp add: pg_tables_def st_pair_def ref_ghost_def ref_world0_def)
  then show "ps_inv ps_wit_env ps_wit" "ps_snaps ps_wit_env ps_wit = (\<lambda>_. None)"
    using w by (simp_all add: ps_inv_def ps_wit_env_def pg_ready_def st_pair_def ps_rows_ok_def well_typed_def content_def
        ps_snaps_def ps_find_def lookup_def find_row_None_iff fun_eq_iff)
qed

lemma ps_storable_wit: "ps_storable ref_protolib (sn_wit n)"
  by (simp add: ps_storable_def sn_wit_def)

abbreviation wit_snap :: "u64 \<Rightarrow> (unit, ref_world) pg_store \<Rightarrow> unit res \<times> (unit, ref_world) pg_store" where
  "wit_snap n \<equiv> ps_WriteSnapshot ref_protolib ref_drv (Some (sn_wit n))"

definition wit_snaps :: "(unit, ref_world) pg_store" where
  "wit_snaps = snd (wit_snap 9 (snd (wit_snap 4 ps_wit)))"

lemma wit_snaps_spec: "ps_inv ps_wit_env wit_snaps" "ps_snaps ps_wit_env wit_snaps = [(''p'', 4) \<mapsto> sn_wit 4, (''p'', 9) \<mapsto> sn_wit 9]"
proof -
  have ok: "fst (wit_snap 4 ps_wit) = Ok ()" "fst (wit_snap 9 (snd (wit_snap 4 ps_wit))) = Ok ()" by code_simp+
  have a: "ps_inv ps_wit_env (snd (wit_snap 4 ps_wit))" "ps_snaps ps_wit_env (snd (wit_snap 4 ps_wit)) = [(''p'', 4) \<mapsto> sn_wit 4]"
    using ps.write_inv [OF ps_wit_rely ps_wit_inv(1)] ps.write_ok [OF ps_wit_rely ps_wit_inv(1)] run_of_fst [OF ok(1)]
      ps_storable_wit [of 4] by (simp_all add: ps_wit_env_def ps_wit_inv(2) [unfolded ps_wit_env_def] snapshot_key_def sn_wit_def)
  then show "ps_inv ps_wit_env wit_snaps" "ps_snaps ps_wit_env wit_snaps = [(''p'', 4) \<mapsto> sn_wit 4, (''p'', 9) \<mapsto> sn_wit 9]"
    using ps.write_inv [OF ps_wit_rely a(1)] ps.write_ok [OF ps_wit_rely a(1)] run_of_fst [OF ok(2)]
      ps_storable_wit [of 9] by (simp_all add: ps_wit_env_def wit_snaps_def snapshot_key_def sn_wit_def)
qed

section \<open>The Postgres snapshot store\<close>

text \<open>
  C9. A snapshot written with a sequence number that no snapshot of its id exceeds is the one a
  recovery loads, with its encryption metadata; a write replaces the snapshot of its number and
  no other.
\<close>

theorem snapshot_latest_after_write:
  assumes "ps_rely (L, D, G)" "ps_inv (L, D, G) s" "ps_storable L x"
    and "ps_WriteSnapshot L D (Some x) s = (Ok (), s')"
    and "\<forall>n. ps_snaps (L, D, G) s (sn_PersistenceId x, n) \<noteq> None \<longrightarrow> n \<le> sn_SequenceNumber x"
    and "ps_GetLatestSnapshot L D (sn_PersistenceId x) s' = Ok y"
  shows "y = Some x \<and> ps_snaps (L, D, G) s' = (ps_snaps (L, D, G) s)(snapshot_key x \<mapsto> x) \<and> ps_inv (L, D, G) s'"
proof -
  have "sn_PersistenceId x \<noteq> []" using assms(3) by (simp add: ps_storable_def)
  then show ?thesis
    using ps.latest_after_write [OF assms(1,2), of x s' y] ps.write_ok [OF assms(1,2), of x s']
      ps.write_inv [OF assms(1,2), of x "Ok ()" s'] assms(3-6) by simp
qed

theorem snapshot_latest_after_write_witness:
  "ps_GetLatestSnapshot ref_protolib ref_drv ''p'' (snd (wit_snap 12 wit_snaps)) = Ok (Some (sn_wit 12))"
proof -
  have ok: "fst (wit_snap 12 wit_snaps) = Ok ()" by code_simp
  have pid: "sn_PersistenceId (sn_wit 12) = ''p''" by (simp add: sn_wit_def)
  have "is_ok (ps_GetLatestSnapshot ref_protolib ref_drv ''p'' (snd (wit_snap 12 wit_snaps)))" by code_simp
  then obtain y where y: "ps_GetLatestSnapshot ref_protolib ref_drv (sn_PersistenceId (sn_wit 12)) (snd (wit_snap 12 wit_snaps)) = Ok y"
    by (auto simp: is_ok_iff pid)
  have "\<forall>n. ps_snaps ps_wit_env wit_snaps (sn_PersistenceId (sn_wit 12), n) \<noteq> None \<longrightarrow> n \<le> sn_SequenceNumber (sn_wit 12)"
    by (auto simp: wit_snaps_spec(2) sn_wit_def)
  from snapshot_latest_after_write [OF ps_wit_rely [unfolded ps_wit_env_def] wit_snaps_spec(1) [unfolded ps_wit_env_def]
      ps_storable_wit run_of_fst [OF ok] this [unfolded ps_wit_env_def] y]
  show ?thesis using y by (simp add: pid)
qed

text \<open>
  C20. Deleting the snapshots up to a number leaves the latest snapshot if its number is greater,
  and no snapshot of the id otherwise.
\<close>

theorem snapshot_latest_after_delete:
  assumes "ps_rely (L, D, G)" "ps_inv (L, D, G) s" "p \<noteq> []" "ps_GetLatestSnapshot L D p s = Ok y"
    and "ps_DeleteSnapshots D p n s = (Ok (), s')" "ps_GetLatestSnapshot L D p s' = Ok y'"
  shows "y' = (case y of None \<Rightarrow> None | Some x \<Rightarrow> if sn_SequenceNumber x \<le> n then None else Some x)"
  using ps.latest_after_delete [OF assms(1-3), of y n s' y'] assms(4-6) by simp

theorem snapshot_latest_after_delete_witness:
  "ps_GetLatestSnapshot ref_protolib ref_drv ''p'' (snd (ps_DeleteSnapshots ref_drv ''p'' 4 wit_snaps)) = Ok (Some (sn_wit 9)) \<and>
   ps_GetLatestSnapshot ref_protolib ref_drv ''p'' (snd (ps_DeleteSnapshots ref_drv ''p'' 9 wit_snaps)) = Ok None"
proof -
  let ?get = "ps_GetLatestSnapshot ref_protolib ref_drv ''p''"
  have "?get wit_snaps = Ok (Some (sn_wit 9))" by code_simp
  note after = snapshot_latest_after_delete [OF ps_wit_rely [unfolded ps_wit_env_def] wit_snaps_spec(1) [unfolded ps_wit_env_def]
      _ this run_of_fst]
  have "fst (ps_DeleteSnapshots ref_drv ''p'' 4 wit_snaps) = Ok ()" "fst (ps_DeleteSnapshots ref_drv ''p'' 9 wit_snaps) = Ok ()"
    "is_ok (?get (snd (ps_DeleteSnapshots ref_drv ''p'' 4 wit_snaps)))"
    "is_ok (?get (snd (ps_DeleteSnapshots ref_drv ''p'' 9 wit_snaps)))" by code_simp+
  then obtain x y where g: "?get (snd (ps_DeleteSnapshots ref_drv ''p'' 4 wit_snaps)) = Ok x"
    "?get (snd (ps_DeleteSnapshots ref_drv ''p'' 9 wit_snaps)) = Ok y" by (auto simp: is_ok_iff)
  then have "x = Some (sn_wit 9)" "y = None"
    using after [OF _ \<open>fst (ps_DeleteSnapshots ref_drv ''p'' 4 wit_snaps) = Ok ()\<close> g(1)]
      after [OF _ \<open>fst (ps_DeleteSnapshots ref_drv ''p'' 9 wit_snaps) = Ok ()\<close> g(2)]
    by (simp_all add: sn_wit_def)
  then show ?thesis using g by simp
qed

end
