(* ===== verification/ConnectRace.thy ===== *)
theory ConnectRace
  imports Prelude
begin

text \<open>
  Goroutines that call \<open>Connect\<close> and \<open>Disconnect\<close> of one Postgres store at the same time, one
  shared access per step. The durable and the snapshot store hold a mutex during the call
  (\<open>guarded\<close>); the event and the offset store only load and store an atomic flag, with the
  work of the layer (\<open>postgres.go\<close>) in between: create a pool, ping it, set \<open>pg.pool\<close>, or
  close \<open>pg.pool\<close>. Pools are numbered as they are created. Meanwhile the operations of the store
  acquire connections of the open pools and return them; \<open>Close\<close> of a pool refuses new ones and
  waits until all are returned, as pgxpool documents.
\<close>

section \<open>The steps\<close>

datatype conn_op = OpConnect | OpDisconnect

text \<open>Where a goroutine stands in its call.\<close>

datatype conn_pc = Idle | Entered conn_op | Checked conn_op | Opened nat | Closing nat | Acted conn_op

text \<open>
  The next access of a goroutine, with the answer of the driver where there is one; or a connection
  of a pool that is acquired or returned by an operation.
\<close>

datatype conn_event = Enter conn_op | ReadFlag | OpenPool bool | PingPool bool | ClosePool | AwaitClose | WriteFlag
  | Borrow nat | Return nat

record conn_state =
  cn_flag :: bool
  cn_pool :: "nat option"
  cn_live :: "nat list"
  cn_abandoned :: "nat list"
  cn_opened :: nat
  cn_busy :: "nat \<Rightarrow> nat"
  cn_lock :: "nat option"
  cn_pc :: "nat \<Rightarrow> conn_pc"

definition conn_init :: conn_state where
  "conn_init = \<lparr>cn_flag = False, cn_pool = None, cn_live = [], cn_abandoned = [], cn_opened = 0,
     cn_busy = (\<lambda>_. 0), cn_lock = None, cn_pc = (\<lambda>_. Idle)\<rparr>"

definition conn_goto :: "nat \<Rightarrow> conn_pc \<Rightarrow> conn_state \<Rightarrow> conn_state" where
  "conn_goto i pc s = s\<lparr>cn_pc := (cn_pc s)(i := pc)\<rparr>"

definition conn_leave :: "bool \<Rightarrow> nat \<Rightarrow> conn_state \<Rightarrow> conn_state" where
  "conn_leave guarded i s = (conn_goto i Idle s)\<lparr>cn_lock := (if guarded then None else cn_lock s)\<rparr>"

text \<open>
  One access of goroutine \<open>i\<close>, \<open>None\<close> where it cannot make it (another one holds the mutex, the
  pool that it closes has connections out, or the event is not its next access). A pool whose
  ping fails stays open: \<open>Connect\<close> returns the error without closing it. \<open>cn_live\<close> lists the pools
  that have not been closed, \<open>cn_busy\<close> counts the connections out of a pool.
\<close>

definition conn_access :: "bool \<Rightarrow> nat \<Rightarrow> conn_event \<Rightarrow> conn_state \<Rightarrow> conn_state option" where
  "conn_access guarded i e s =
     (case cn_pc s i of
        Idle \<Rightarrow>
          (case e of
             Enter op \<Rightarrow>
               if guarded \<and> cn_lock s \<noteq> None then None
               else Some ((conn_goto i (Entered op) s)\<lparr>cn_lock := (if guarded then Some i else cn_lock s)\<rparr>)
           | _ \<Rightarrow> None)
      | Entered op \<Rightarrow>
          (case e of
             ReadFlag \<Rightarrow> Some (if cn_flag s = (op = OpConnect) then conn_leave guarded i s else conn_goto i (Checked op) s)
           | _ \<Rightarrow> None)
      | Checked OpConnect \<Rightarrow>
          (case e of
             OpenPool ok \<Rightarrow>
               Some (if ok then (conn_goto i (Opened (cn_opened s)) s)\<lparr>cn_live := cn_live s @ [cn_opened s], cn_opened := Suc (cn_opened s)\<rparr>
                     else conn_leave guarded i s)
           | _ \<Rightarrow> None)
      | Checked OpDisconnect \<Rightarrow>
          (case e of
             ClosePool \<Rightarrow>
               Some (case cn_pool s of
                       None \<Rightarrow> conn_goto i (Acted OpDisconnect) s
                     | Some k \<Rightarrow> (conn_goto i (Closing k) s)\<lparr>cn_live := filter (\<lambda>p. p \<noteq> k) (cn_live s)\<rparr>)
           | _ \<Rightarrow> None)
      | Opened k \<Rightarrow>
          (case e of
             PingPool ok \<Rightarrow>
               Some (if ok then (conn_goto i (Acted OpConnect) s)\<lparr>cn_pool := Some k\<rparr>
                     else conn_leave guarded i (s\<lparr>cn_abandoned := k # cn_abandoned s\<rparr>))
           | _ \<Rightarrow> None)
      | Closing k \<Rightarrow>
          (case e of
             AwaitClose \<Rightarrow> if cn_busy s k = 0 then Some (conn_goto i (Acted OpDisconnect) s) else None
           | _ \<Rightarrow> None)
      | Acted op \<Rightarrow>
          (case e of
             WriteFlag \<Rightarrow> Some (conn_leave guarded i (s\<lparr>cn_flag := (op = OpConnect)\<rparr>))
           | _ \<Rightarrow> None))"

text \<open>A pool that is being closed, or is closed, gives no connection; a connection is returned once.\<close>

definition conn_exec :: "bool \<Rightarrow> nat \<Rightarrow> conn_event \<Rightarrow> conn_state \<Rightarrow> conn_state option" where
  "conn_exec guarded i e s =
     (case e of
        Borrow k \<Rightarrow>
          if k \<in> set (cn_live s) then Some (s\<lparr>cn_busy := (cn_busy s)(k := Suc (cn_busy s k))\<rparr>) else None
      | Return k \<Rightarrow>
          if 0 < cn_busy s k then Some (s\<lparr>cn_busy := (cn_busy s)(k := cn_busy s k - 1)\<rparr>) else None
      | _ \<Rightarrow> conn_access guarded i e s)"

text \<open>A schedule: which goroutine takes which step.\<close>

fun conn_run :: "bool \<Rightarrow> (nat \<times> conn_event) list \<Rightarrow> conn_state \<Rightarrow> conn_state option" where
  "conn_run guarded [] s = Some s"
| "conn_run guarded ((i, e) # es) s =
     (case conn_exec guarded i e s of None \<Rightarrow> None | Some s' \<Rightarrow> conn_run guarded es s')"

inductive conn_step :: "bool \<Rightarrow> conn_state \<Rightarrow> conn_state \<Rightarrow> bool" where
  conn_stepI: "conn_exec guarded i e s = Some s' \<Longrightarrow> conn_step guarded s s'"

inductive_cases conn_stepE: "conn_step guarded s s'"

abbreviation conn_steps :: "bool \<Rightarrow> conn_state \<Rightarrow> conn_state \<Rightarrow> bool" where
  "conn_steps guarded \<equiv> (conn_step guarded)\<^sup>*\<^sup>*"

lemma conn_run_steps: "conn_run guarded es s = Some s' \<Longrightarrow> conn_steps guarded s s'"
proof (induction es arbitrary: s)
  case (Cons ie es)
  obtain i e where ie: "ie = (i, e)" by (cases ie)
  then obtain s1 where "conn_exec guarded i e s = Some s1" "conn_run guarded es s1 = Some s'"
    using Cons.prems by (auto split: option.splits)
  then show ?case using Cons.IH by (meson conn_stepI converse_rtranclp_into_rtranclp)
qed simp

lemmas conn_defs = conn_exec_def conn_access_def conn_leave_def conn_goto_def

section \<open>With the mutex\<close>

text \<open>
  Between calls the flag tells the truth: a connected store has the open pool it uses, and no
  pool is open but that one and those whose ping failed.
\<close>

definition conn_settled :: "conn_state \<Rightarrow> bool" where
  "conn_settled s \<longleftrightarrow>
     (if cn_flag s
      then (\<exists>k. cn_pool s = Some k \<and> k \<in> set (cn_live s) \<and> set (cn_live s) \<subseteq> insert k (set (cn_abandoned s)))
      else set (cn_live s) \<subseteq> set (cn_abandoned s))"

fun conn_inside :: "conn_pc \<Rightarrow> conn_state \<Rightarrow> bool" where
  "conn_inside Idle s \<longleftrightarrow> False"
| "conn_inside (Entered op) s \<longleftrightarrow> conn_settled s"
| "conn_inside (Checked op) s \<longleftrightarrow> conn_settled s \<and> cn_flag s = (op = OpDisconnect)"
| "conn_inside (Opened k) s \<longleftrightarrow>
     \<not> cn_flag s \<and> k \<in> set (cn_live s) \<and> set (cn_live s) \<subseteq> insert k (set (cn_abandoned s))"
| "conn_inside (Closing k) s \<longleftrightarrow> conn_settled (s\<lparr>cn_flag := False\<rparr>)"
| "conn_inside (Acted OpConnect) s \<longleftrightarrow> conn_settled (s\<lparr>cn_flag := True\<rparr>)"
| "conn_inside (Acted OpDisconnect) s \<longleftrightarrow> conn_settled (s\<lparr>cn_flag := False\<rparr>)"

definition conn_inv :: "conn_state \<Rightarrow> bool" where
  "conn_inv s \<longleftrightarrow> (\<forall>i. cn_lock s \<noteq> Some i \<longrightarrow> cn_pc s i = Idle) \<and>
     (case cn_lock s of None \<Rightarrow> conn_settled s | Some i \<Rightarrow> conn_inside (cn_pc s i) s)"

lemma conn_inv_init: "conn_inv conn_init"
  by (simp add: conn_inv_def conn_init_def conn_settled_def)

lemma conn_inv_busy: "conn_inv (s\<lparr>cn_busy := f\<rparr>) = conn_inv s"
proof -
  have settled: "conn_settled (s\<lparr>cn_busy := f\<rparr>) = conn_settled s" for s by (simp add: conn_settled_def)
  have "conn_inside pc (s\<lparr>cn_busy := f\<rparr>) = conn_inside pc s" for pc
    by (cases "(pc, s)" rule: conn_inside.cases) (simp_all add: settled conn_settled_def)
  then show ?thesis by (simp add: conn_inv_def settled split: option.split)
qed

lemma conn_access_inv:
  assumes "conn_inv s" "conn_access True i e s = Some s'"
  shows "conn_inv s'"
proof (cases "cn_pc s i")
  case Idle
  then show ?thesis using assms
    by (auto simp: conn_defs conn_inv_def conn_settled_def split: conn_event.splits if_splits)
next
  case (Entered op)
  then have "cn_lock s = Some i" using assms(1) by (auto simp: conn_inv_def)
  then show ?thesis using assms Entered
    by (cases op) (auto simp: conn_defs conn_inv_def conn_settled_def split: conn_event.splits if_splits)
next
  case (Checked op)
  then have "cn_lock s = Some i" using assms(1) by (auto simp: conn_inv_def)
  then show ?thesis using assms Checked
    by (cases op) (auto simp: conn_defs conn_inv_def conn_settled_def split: conn_event.splits if_splits option.splits)
next
  case (Opened k)
  then have "cn_lock s = Some i" using assms(1) by (auto simp: conn_inv_def)
  then show ?thesis using assms Opened
    by (auto simp: conn_defs conn_inv_def conn_settled_def split: conn_event.splits if_splits)
next
  case (Closing k)
  then have "cn_lock s = Some i" using assms(1) by (auto simp: conn_inv_def)
  then show ?thesis using assms Closing
    by (auto simp: conn_defs conn_inv_def conn_settled_def split: conn_event.splits if_splits)
next
  case (Acted op)
  then have "cn_lock s = Some i" using assms(1) by (auto simp: conn_inv_def)
  then show ?thesis using assms Acted
    by (cases op) (auto simp: conn_defs conn_inv_def conn_settled_def split: conn_event.splits if_splits)
qed

lemma conn_exec_inv:
  assumes "conn_inv s" "conn_exec True i e s = Some s'"
  shows "conn_inv s'"
  using assms conn_access_inv [OF assms(1)]
  by (cases e) (auto simp: conn_exec_def conn_inv_busy split: if_splits)

lemma conn_steps_inv: "conn_steps True s s' \<Longrightarrow> conn_inv s \<Longrightarrow> conn_inv s'"
  by (induction rule: rtranclp_induct) (auto elim!: conn_stepE intro: conn_exec_inv)

section \<open>Without it\<close>

text \<open>An open pool that no goroutine is going to ping and that the store does not use.\<close>

definition conn_lost :: "nat \<Rightarrow> conn_state \<Rightarrow> bool" where
  "conn_lost k s \<longleftrightarrow> k \<in> set (cn_live s) \<and> k \<notin> set (cn_abandoned s) \<and> k < cn_opened s \<and> cn_pool s \<noteq> Some k \<and>
     (\<forall>i. cn_pc s i \<noteq> Opened k)"

lemma conn_exec_lost:
  assumes "conn_lost k s" "conn_exec guarded i e s = Some s'"
  shows "conn_lost k s'"
  using assms
  by (auto simp: conn_lost_def conn_defs split: conn_pc.splits conn_op.splits conn_event.splits if_splits option.splits)

lemma conn_steps_lost: "conn_steps guarded s s' \<Longrightarrow> conn_lost k s \<Longrightarrow> conn_lost k s'"
  by (induction rule: rtranclp_induct) (auto elim!: conn_stepE intro: conn_exec_lost)

text \<open>With the mutex there is none.\<close>

lemma conn_inv_not_lost:
  assumes "conn_inv s"
  shows "\<not> conn_lost k s"
proof
  assume lost: "conn_lost k s"
  then have no: "\<not> conn_settled (s\<lparr>cn_flag := b\<rparr>)" for b
    by (auto simp: conn_lost_def conn_settled_def)
  then have "\<not> conn_settled s" using no [of "cn_flag s"] by simp
  then obtain i where i: "conn_inside (cn_pc s i) s" using assms by (auto simp: conn_inv_def split: option.splits)
  then show False using lost no \<open>\<not> conn_settled s\<close>
    by (cases "(cn_pc s i, s)" rule: conn_inside.cases) (auto simp: conn_lost_def)
qed

text \<open>A pool has a new number when it is created.\<close>

definition conn_fresh :: "conn_state \<Rightarrow> bool" where
  "conn_fresh s \<longleftrightarrow> (\<forall>k \<in> set (cn_live s) \<union> set (cn_abandoned s) \<union> set_option (cn_pool s). k < cn_opened s) \<and>
     (\<forall>i k. cn_pc s i = Opened k \<longrightarrow> k < cn_opened s)"

lemma conn_exec_fresh:
  assumes "conn_fresh s" "conn_exec guarded i e s = Some s'"
  shows "conn_fresh s'"
  using assms
  by (auto simp: conn_fresh_def conn_defs less_SucI
      split: conn_pc.splits conn_op.splits conn_event.splits if_splits option.splits)

lemma conn_steps_fresh: "conn_steps guarded s s' \<Longrightarrow> conn_fresh s \<Longrightarrow> conn_fresh s'"
  by (induction rule: rtranclp_induct) (auto elim!: conn_stepE intro: conn_exec_fresh)

lemma conn_fresh_init: "conn_fresh conn_init"
  by (simp add: conn_fresh_def conn_init_def)

text \<open>Two goroutines that connect at the same time: both find the flag clear before either sets it.\<close>

definition connect_overlap :: "nat \<Rightarrow> nat \<Rightarrow> (nat \<times> conn_event) list" where
  "connect_overlap i j = [(i, Enter OpConnect), (i, ReadFlag), (j, Enter OpConnect), (j, ReadFlag), (i, OpenPool True),
     (i, PingPool True), (i, WriteFlag), (j, OpenPool True), (j, PingPool True), (j, WriteFlag)]"

lemma connect_overlap_loses:
  assumes "conn_fresh s" "\<not> cn_flag s" "i \<noteq> j" "cn_pc s i = Idle" "cn_pc s j = Idle"
  shows "\<exists>s1. conn_run False (connect_overlap i j) s = Some s1 \<and> conn_lost (cn_opened s) s1"
proof -
  have new: "cn_opened s \<notin> set (cn_abandoned s)" "cn_pc s l \<noteq> Opened (cn_opened s)" for l
    using assms(1) by (auto simp: conn_fresh_def)
  show ?thesis using assms(2-) new
    by (simp add: connect_overlap_def conn_defs conn_lost_def)
qed

section \<open>Properties\<close>

text \<open>
  C16. With the mutex, however the calls of any number of goroutines interleave and the driver
  answers, at most one goroutine is inside a call, and between calls the flag tells the truth:
  a connected store uses an open pool, and no other pool is open but those whose ping failed,
  which \<open>Connect\<close> never closes.
\<close>

theorem mutex_keeps_pools:
  assumes "conn_steps True conn_init s"
  shows "(\<forall>i j. cn_pc s i \<noteq> Idle \<and> cn_pc s j \<noteq> Idle \<longrightarrow> i = j) \<and> (cn_lock s = None \<longrightarrow> conn_settled s)"
proof -
  have inv: "conn_inv s" using conn_steps_inv [OF assms conn_inv_init] .
  then have "i = j" if "cn_pc s i \<noteq> Idle" "cn_pc s j \<noteq> Idle" for i j
    using that unfolding conn_inv_def by (metis option.inject)
  moreover have "conn_settled s" if "cn_lock s = None" using inv that by (simp add: conn_inv_def)
  ultimately show ?thesis by blast
qed

definition wit_schedule :: "(nat \<times> conn_event) list" where
  "wit_schedule = [(0, Enter OpConnect), (0, ReadFlag), (0, OpenPool True), (0, PingPool False),
     (1, Enter OpConnect), (1, ReadFlag), (1, OpenPool True), (1, PingPool True), (1, WriteFlag)]"

theorem mutex_keeps_pools_witness:
  "\<exists>s. conn_run True wit_schedule conn_init = Some s \<and> cn_flag s \<and> conn_settled s \<and> cn_live s = [0, 1]"
proof -
  have "case conn_run True wit_schedule conn_init of
      Some s \<Rightarrow> cn_lock s = None \<and> cn_flag s \<and> cn_live s = [0, 1] | None \<Rightarrow> False" by code_simp
  then obtain s where s: "conn_run True wit_schedule conn_init = Some s" "cn_lock s = None" "cn_flag s" "cn_live s = [0, 1]"
    by (auto split: option.splits)
  then show ?thesis using mutex_keeps_pools [OF conn_run_steps [OF s(1)]] by blast
qed

text \<open>
  C34. Without the mutex two goroutines that connect at the same time lose a pool: in every state
  that the store can be in while it is not connected and two goroutines are outside a call, they
  can both create a pool, and the one set first is then open and in nobody's hand, and stays so
  whatever any goroutine does afterwards, \<open>Disconnect\<close> included. With the mutex no state that
  the store can be in has such a pool.
\<close>

theorem lost_pool_stays_open:
  "(\<forall>s k. conn_steps True conn_init s \<longrightarrow> \<not> conn_lost k s) \<and>
   (\<forall>s i j. conn_steps False conn_init s \<and> \<not> cn_flag s \<and> i \<noteq> j \<and> cn_pc s i = Idle \<and> cn_pc s j = Idle \<longrightarrow>
      (\<exists>s1. conn_run False (connect_overlap i j) s = Some s1 \<and>
         (\<forall>s2. conn_steps False s1 s2 \<longrightarrow>
            conn_lost (cn_opened s) s2 \<and> cn_opened s \<in> set (cn_live s2) \<and> cn_pool s2 \<noteq> Some (cn_opened s))))"
proof (intro conjI allI impI)
  show "\<not> conn_lost k s" if "conn_steps True conn_init s" for s k
    using conn_inv_not_lost [OF conn_steps_inv [OF that conn_inv_init]] .
  fix s i j
  assume a: "conn_steps False conn_init s \<and> \<not> cn_flag s \<and> i \<noteq> j \<and> cn_pc s i = Idle \<and> cn_pc s j = Idle"
  then have "conn_fresh s" using conn_steps_fresh conn_fresh_init by blast
  then obtain s1 where s1: "conn_run False (connect_overlap i j) s = Some s1" "conn_lost (cn_opened s) s1"
    using connect_overlap_loses a by blast
  have "conn_lost (cn_opened s) s2" if "conn_steps False s1 s2" for s2 using conn_steps_lost [OF that s1(2)] .
  then show "\<exists>s1. conn_run False (connect_overlap i j) s = Some s1 \<and>
      (\<forall>s2. conn_steps False s1 s2 \<longrightarrow>
         conn_lost (cn_opened s) s2 \<and> cn_opened s \<in> set (cn_live s2) \<and> cn_pool s2 \<noteq> Some (cn_opened s))"
    using s1(1) by (intro exI [of _ s1]) (simp add: conn_lost_def)
qed

definition wit_disconnect :: "(nat \<times> conn_event) list" where
  "wit_disconnect = [(0, Enter OpDisconnect), (0, ReadFlag), (0, ClosePool), (0, AwaitClose), (0, WriteFlag)]"

theorem lost_pool_stays_open_witness:
  "\<exists>s s'. conn_run False (connect_overlap 0 1) conn_init = Some s \<and> conn_run False wit_disconnect s = Some s' \<and>
     \<not> cn_flag s' \<and> 0 \<in> set (cn_live s')"
proof -
  have init: "conn_steps False conn_init conn_init \<and> \<not> cn_flag conn_init \<and> (0 :: nat) \<noteq> 1 \<and>
      cn_pc conn_init 0 = Idle \<and> cn_pc conn_init 1 = Idle" "cn_opened conn_init = 0"
    by (simp_all add: conn_init_def)
  obtain s where s: "conn_run False (connect_overlap 0 1) conn_init = Some s"
    "\<And>s2. conn_steps False s s2 \<Longrightarrow> 0 \<in> set (cn_live s2)"
    using lost_pool_stays_open [THEN conjunct2, rule_format, OF init(1)] init(2) by auto
  have "case conn_run False (connect_overlap 0 1) conn_init of None \<Rightarrow> False
    | Some s \<Rightarrow> (case conn_run False wit_disconnect s of None \<Rightarrow> False | Some s' \<Rightarrow> \<not> cn_flag s')" by code_simp
  then obtain s' where s': "conn_run False wit_disconnect s = Some s'" "\<not> cn_flag s'"
    using s(1) by (auto split: option.splits)
  then show ?thesis using s(1) s(2) [OF conn_run_steps [OF s'(1)]] by blast
qed

end
