(* ===== verification/ConnectLive.thy ===== *)
theory ConnectLive
  imports ConnectRace EventsPg RefClients
begin

text \<open>
  The interleaved model of \<open>ConnectRace\<close> against the calls of the store: every call ends after
  at most five accesses, with or without the mutex, unless the pool that it closes has a
  connection out that is never returned; and every sequence of complete calls of the store is
  a schedule of the interleaved model, down to the pools that are open.
\<close>

section \<open>Calls end\<close>

fun is_enter :: "conn_event \<Rightarrow> bool" where
  "is_enter (Enter op) = True"
| "is_enter _ = False"

text \<open>A connection acquired or returned: a step of an operation, not of these calls.\<close>

fun is_use :: "conn_event \<Rightarrow> bool" where
  "is_use (Borrow k) = True"
| "is_use (Return k) = True"
| "is_use _ = False"

fun is_borrow :: "conn_event \<Rightarrow> bool" where
  "is_borrow (Borrow k) = True"
| "is_borrow _ = False"

text \<open>The accesses a goroutine has left in its call, at most.\<close>

fun conn_left :: "conn_pc \<Rightarrow> nat" where
  "conn_left Idle = 0"
| "conn_left (Entered op) = 4"
| "conn_left (Checked op) = 3"
| "conn_left (Opened k) = 2"
| "conn_left (Closing k) = 2"
| "conn_left (Acted op) = 1"

text \<open>Its next access, with the answer of the driver where there is one.\<close>

fun next_event :: "bool \<Rightarrow> conn_pc \<Rightarrow> conn_event" where
  "next_event b Idle = Enter OpConnect"
| "next_event b (Entered op) = ReadFlag"
| "next_event b (Checked OpConnect) = OpenPool b"
| "next_event b (Checked OpDisconnect) = ClosePool"
| "next_event b (Opened k) = PingPool b"
| "next_event b (Closing k) = AwaitClose"
| "next_event b (Acted op) = WriteFlag"

definition enters :: "(nat \<times> conn_event) list \<Rightarrow> nat" where
  "enters es = length (filter (\<lambda>(i, e). is_enter e) es)"

definition accesses :: "(nat \<times> conn_event) list \<Rightarrow> nat" where
  "accesses es = length (filter (\<lambda>(i, e). \<not> is_use e) es)"

definition borrows :: "(nat \<times> conn_event) list \<Rightarrow> nat" where
  "borrows es = length (filter (\<lambda>(i, e). is_borrow e) es)"

lemma enters_simps [simp]:
  "enters [] = 0" "enters ((i, e) # es) = (if is_enter e then Suc (enters es) else enters es)"
  "enters (es @ fs) = enters es + enters fs"
  by (simp_all add: enters_def)

lemma accesses_simps [simp]:
  "accesses [] = 0" "accesses ((i, e) # es) = (if is_use e then accesses es else Suc (accesses es))"
  by (simp_all add: accesses_def)

lemma borrows_simps [simp]:
  "borrows [] = 0" "borrows ((i, e) # es) = (if is_borrow e then Suc (borrows es) else borrows es)"
  "borrows (es @ fs) = borrows es + borrows fs"
  by (simp_all add: borrows_def)

lemma conn_run_append:
  "conn_run g (es @ fs) s = (case conn_run g es s of None \<Rightarrow> None | Some s' \<Rightarrow> conn_run g fs s')"
  by (induction g es s rule: conn_run.induct) (auto split: option.splits)

lemma conn_exec_left:
  assumes "conn_exec g i e s = Some s'"
  shows "conn_left (cn_pc s' i) + (if is_use e then 0 else 1) \<le> conn_left (cn_pc s i) + (if is_enter e then 5 else 0)"
    and "j \<noteq> i \<Longrightarrow> cn_pc s' j = cn_pc s j"
  using assms
  by (auto simp: conn_defs split: conn_pc.splits conn_op.splits conn_event.splits if_splits option.splits)

text \<open>A goroutine inside a call can go on, unless it waits in \<open>Close\<close> for a connection.\<close>

lemma conn_exec_next:
  assumes "cn_pc s i \<noteq> Idle"
  shows "conn_exec g i (next_event b (cn_pc s i)) s = None \<longleftrightarrow> (\<exists>k. cn_pc s i = Closing k \<and> 0 < cn_busy s k)"
    and "\<not> is_enter (next_event b (cn_pc s i)) \<and> \<not> is_use (next_event b (cn_pc s i))"
  using assms by (cases "(b, cn_pc s i)" rule: next_event.cases; simp add: conn_exec_def conn_access_def)+

lemma is_use_borrow: "is_borrow e \<Longrightarrow> is_use e"
  by (cases e) simp_all

text \<open>All connections of a pool come back.\<close>

lemma conn_returns:
  "n \<le> cn_busy s k \<Longrightarrow>
     conn_run g (replicate n (i, Return k)) s = Some (s\<lparr>cn_busy := (cn_busy s)(k := cn_busy s k - n)\<rparr>)"
  by (induction n arbitrary: s) (simp_all add: conn_exec_def)

lemma returns_count: "enters (replicate n (i, Return k)) = 0" "borrows (replicate n (i, Return k)) = 0"
  by (induction n) simp_all

definition conn_work :: "nat \<Rightarrow> conn_state \<Rightarrow> nat" where
  "conn_work N s = (\<Sum>i<N. conn_left (cn_pc s i))"

lemma conn_exec_work:
  assumes "conn_exec g i e s = Some s'" "i < N"
  shows "conn_work N s' + (if is_use e then 0 else 1) \<le> conn_work N s + (if is_enter e then 5 else 0)"
proof -
  have split: "conn_work N t = conn_left (cn_pc t i) + (\<Sum>j \<in> {..<N} - {i}. conn_left (cn_pc t j))" for t
    unfolding conn_work_def using assms(2) by (intro sum.remove) auto
  have "(\<Sum>j \<in> {..<N} - {i}. conn_left (cn_pc s' j)) = (\<Sum>j \<in> {..<N} - {i}. conn_left (cn_pc s j))"
    using conn_exec_left(2) [OF assms(1)] by (intro sum.cong) auto
  then show ?thesis using conn_exec_left(1) [OF assms(1)] split [of s] split [of s'] by simp
qed

lemma conn_run_work:
  assumes "conn_run g es s = Some s'" "\<forall>(i, e) \<in> set es. i < N"
  shows "accesses es + conn_work N s' \<le> 5 * enters es + conn_work N s"
  using assms
proof (induction g es s rule: conn_run.induct)
  case (2 g i e es s)
  then obtain t where t: "conn_exec g i e s = Some t" "conn_run g es t = Some s'" by (auto split: option.splits)
  have "conn_work N t + (if is_use e then 0 else 1) \<le> conn_work N s + (if is_enter e then 5 else 0)"
    using conn_exec_work [OF t(1), of N] 2(3) by simp
  then show ?case using 2(1) [OF t] 2(3) by (simp split: if_splits)
qed simp

lemma conn_run_idle:
  assumes "conn_run g es s = Some s'" "\<forall>(i, e) \<in> set es. i < N" "\<forall>i \<ge> N. cn_pc s i = Idle"
  shows "\<forall>i \<ge> N. cn_pc s' i = Idle"
  using assms
proof (induction g es s rule: conn_run.induct)
  case (2 g i e es s)
  then obtain t where t: "conn_exec g i e s = Some t" "conn_run g es t = Some s'" by (auto split: option.splits)
  have "\<forall>j \<ge> N. cn_pc t j = Idle" using conn_exec_left(2) [OF t(1)] 2(3,4) by auto
  then show ?case using 2(1) [OF t] 2(3) by simp
qed simp

text \<open>The next access of a goroutine, after the connections that it waits for have come back.\<close>

lemma conn_next_run:
  assumes "cn_pc s i \<noteq> Idle"
  shows "\<exists>es t. conn_run g es s = Some t \<and> enters es = 0 \<and> borrows es = 0 \<and>
    (\<forall>j. j \<noteq> i \<longrightarrow> cn_pc t j = cn_pc s j) \<and> (i < N \<longrightarrow> conn_work N t < conn_work N s)"
proof -
  define pre where "pre = (case cn_pc s i of Closing k \<Rightarrow> replicate (cn_busy s k) (i, Return k) | _ \<Rightarrow> [])"
  obtain s1 where s1: "conn_run g pre s = Some s1" "cn_pc s1 = cn_pc s" "\<forall>k. cn_pc s i = Closing k \<longrightarrow> cn_busy s1 k = 0"
    by (cases "cn_pc s i") (simp_all add: pre_def conn_returns)
  have pre: "enters pre = 0" "borrows pre = 0" by (simp_all add: pre_def returns_count split: conn_pc.split)
  let ?e = "next_event True (cn_pc s1 i)"
  note nxt = conn_exec_next(1) [of s1 i g True] conn_exec_next(2) [of s1 i True]
  obtain t where t: "conn_exec g i ?e s1 = Some t"
    using nxt(1) assms s1(2,3) by (cases "conn_exec g i ?e s1") auto
  have e: "\<not> is_enter ?e" "\<not> is_use ?e" "\<not> is_borrow ?e" using nxt(2) assms s1(2) is_use_borrow by auto
  have "conn_work N t < conn_work N s" if "i < N"
    using conn_exec_work [OF t that] e s1(2) by (simp add: conn_work_def)
  then show ?thesis using s1 t e pre conn_exec_left(2) [OF t]
    by (intro exI [of _ "pre @ [(i, ?e)]"] exI [of _ t]) (simp add: conn_run_append)
qed

lemma conn_finish:
  assumes "\<forall>i \<ge> N. cn_pc s i = Idle"
  shows "\<exists>es s'. conn_run g es s = Some s' \<and> enters es = 0 \<and> borrows es = 0 \<and> (\<forall>i. cn_pc s' i = Idle)"
  using assms
proof (induction "conn_work N s" arbitrary: s rule: less_induct)
  case less
  show ?case
  proof (cases "\<forall>i. cn_pc s i = Idle")
    case True
    then show ?thesis by (intro exI [of _ "[]"]) simp
  next
    case False
    then obtain i where i: "cn_pc s i \<noteq> Idle" by blast
    then have "i < N" using less.prems not_less by blast
    obtain pre t where t: "conn_run g pre s = Some t" "enters pre = 0" "borrows pre = 0"
      "\<forall>j. j \<noteq> i \<longrightarrow> cn_pc t j = cn_pc s j" "conn_work N t < conn_work N s"
      using conn_next_run [OF i, of g N] \<open>i < N\<close> by blast
    have "\<forall>j \<ge> N. cn_pc t j = Idle" using t(4) less.prems \<open>i < N\<close> by auto
    then obtain es s' where "conn_run g es t = Some s'" "enters es = 0" "borrows es = 0" "\<forall>i. cn_pc s' i = Idle"
      using less.hyps [OF t(5)] by blast
    then show ?thesis using t by (intro exI [of _ "pre @ es"]) (simp add: conn_run_append)
  qed
qed

text \<open>As long as a connection of its pool is not returned, a \<open>Disconnect\<close> stays in \<open>Close\<close>.\<close>

lemma conn_exec_waits:
  assumes "conn_exec g j e s = Some s'" "cn_pc s i = Closing k" "0 < cn_busy s k" "e \<noteq> Return k"
  shows "cn_pc s' i = Closing k \<and> 0 < cn_busy s' k"
  using assms
  by (auto simp: conn_defs split: conn_pc.splits conn_op.splits conn_event.splits if_splits option.splits)

lemma conn_run_waits:
  assumes "conn_run g es s = Some s'" "cn_pc s i = Closing k" "0 < cn_busy s k" "\<forall>(j, e) \<in> set es. e \<noteq> Return k"
  shows "cn_pc s' i = Closing k"
  using assms
proof (induction g es s rule: conn_run.induct)
  case (2 g j e es s)
  then obtain t where t: "conn_exec g j e s = Some t" "conn_run g es t = Some s'" by (auto split: option.splits)
  have "cn_pc t i = Closing k \<and> 0 < cn_busy t k" using conn_exec_waits [OF t(1) 2(3,4)] 2(5) by simp
  then show ?case using 2(1) [OF t] 2(5) by simp
qed simp

lemma conn_run_unlocked:
  "conn_run False es s = Some s' \<Longrightarrow> cn_lock s' = cn_lock s"
proof (induction es arbitrary: s)
  case (Cons ie es)
  obtain i e where ie: "ie = (i, e)" by (cases ie)
  then obtain t where t: "conn_exec False i e s = Some t" "conn_run False es t = Some s'"
    using Cons.prems by (auto split: option.splits)
  have "cn_lock t = cn_lock s" using t(1)
    by (auto simp: conn_defs split: conn_pc.splits conn_op.splits conn_event.splits if_splits option.splits)
  then show ?case using Cons.IH [OF t(2)] by simp
qed simp

lemma conn_idle_unlocked:
  assumes "conn_run guarded es conn_init = Some s" "\<forall>i. cn_pc s i = Idle"
  shows "cn_lock s = None"
proof (cases guarded)
  case True
  then have "conn_inv s" using conn_steps_inv [OF conn_run_steps conn_inv_init] assms(1) by simp
  then show ?thesis using assms(2) by (auto simp: conn_inv_def split: option.splits)
next
  case False
  then show ?thesis using conn_run_unlocked assms(1) by (fastforce simp: conn_init_def)
qed

text \<open>
  C17. Calls of \<open>Connect\<close> and \<open>Disconnect\<close>, however they interleave: a schedule has at most five
  accesses for each call that was entered. A goroutine inside a call can always make its next
  access, whatever the driver answers, unless it is a \<open>Disconnect\<close> that waits in \<open>Close\<close> for a
  connection of its pool. Every schedule can be continued, without a new call and without
  acquiring a connection, until all calls have returned and the mutex is free. But as long as
  a connection is not returned, as after the leak of \<open>pg_transaction_leak\<close>, the \<open>Disconnect\<close>
  that closes its pool never returns, and in the stores with a mutex it keeps it.
\<close>

theorem calls_return:
  assumes "conn_run guarded es conn_init = Some s"
  shows "accesses es \<le> 5 * enters es \<and>
    (\<forall>i b. cn_pc s i \<noteq> Idle \<longrightarrow>
       (conn_exec guarded i (next_event b (cn_pc s i)) s = None \<longleftrightarrow> (\<exists>k. cn_pc s i = Closing k \<and> 0 < cn_busy s k))) \<and>
    (\<exists>es' s'. conn_run guarded (es @ es') conn_init = Some s' \<and> enters es' = 0 \<and> borrows es' = 0 \<and>
       (\<forall>i. cn_pc s' i = Idle) \<and> cn_lock s' = None) \<and>
    (\<forall>i k es' s'. cn_pc s i = Closing k \<and> 0 < cn_busy s k \<and> conn_run guarded es' s = Some s' \<and>
       (\<forall>(j, e) \<in> set es'. e \<noteq> Return k) \<longrightarrow> cn_pc s' i = Closing k \<and> (guarded \<longrightarrow> cn_lock s' = Some i))"
proof -
  define N where "N = Suc (sum_list (map fst es))"
  have N: "\<forall>(i, e) \<in> set es. i < N"
    using member_le_sum_list [of _ "map fst es"] by (fastforce simp: N_def less_Suc_eq_le)
  have init: "conn_work N conn_init = 0" "\<forall>i \<ge> N. cn_pc conn_init i = Idle"
    by (simp_all add: conn_work_def conn_init_def)
  have "accesses es \<le> 5 * enters es" using conn_run_work [OF assms N] init(1) by simp
  moreover obtain es' s' where s': "conn_run guarded es' s = Some s'" "enters es' = 0" "borrows es' = 0" "\<forall>i. cn_pc s' i = Idle"
    using conn_finish [OF conn_run_idle [OF assms N init(2)]] by blast
  then have run: "conn_run guarded (es @ es') conn_init = Some s'" using assms by (simp add: conn_run_append)
  moreover have "cn_lock s' = None" using conn_idle_unlocked [OF run s'(4)] .
  moreover have "cn_pc t i = Closing k \<and> (guarded \<longrightarrow> cn_lock t = Some i)"
    if w: "cn_pc s i = Closing k" "0 < cn_busy s k" "conn_run guarded fs s = Some t" "\<forall>(j, e) \<in> set fs. e \<noteq> Return k"
    for i k fs t
  proof -
    have pc: "cn_pc t i = Closing k" by (rule conn_run_waits [OF w(3,1,2,4)])
    have "conn_run guarded (es @ fs) conn_init = Some t" using assms w(3) by (simp add: conn_run_append)
    then have "conn_inv t" if guarded using conn_steps_inv [OF conn_run_steps conn_inv_init] that by simp
    then have "guarded \<Longrightarrow> cn_lock t \<noteq> Some i \<Longrightarrow> cn_pc t i = Idle" by (simp add: conn_inv_def)
    then show ?thesis using pc by auto
  qed
  ultimately show ?thesis using s'(2-4) conn_exec_next(1) by blast
qed

definition wit_leak :: "(nat \<times> conn_event) list" where
  "wit_leak = [(0, Enter OpConnect), (0, ReadFlag), (0, OpenPool True), (0, PingPool True), (0, WriteFlag), (1, Borrow 0),
     (0, Enter OpDisconnect), (0, ReadFlag), (0, ClosePool)]"

theorem calls_return_witness:
  "\<exists>s. conn_run True wit_leak conn_init = Some s \<and> conn_exec True 0 AwaitClose s = None \<and>
     (\<exists>es' s'. conn_run True (wit_leak @ es') conn_init = Some s' \<and> enters es' = 0 \<and> borrows es' = 0 \<and> (\<forall>i. cn_pc s' i = Idle))"
proof -
  have "case conn_run True wit_leak conn_init of None \<Rightarrow> False | Some s \<Rightarrow> cn_pc s 0 = Closing 0 \<and> 0 < cn_busy s 0" by code_simp
  then obtain s where s: "conn_run True wit_leak conn_init = Some s" "cn_pc s 0 = Closing 0" "0 < cn_busy s 0"
    by (auto split: option.splits)
  note r = calls_return [OF s(1)]
  have "conn_exec True 0 (next_event True (cn_pc s 0)) s = None"
    using r [THEN conjunct2, THEN conjunct1, rule_format, of 0 True] s(2,3) by simp
  then have "conn_exec True 0 AwaitClose s = None" by (simp add: s(2))
  then show ?thesis using s(1) r by blast
qed

section \<open>The calls of the store are schedules\<close>

text \<open>
  The pools that are open in the world of the driver, in the order of their creation: \<open>new_pool\<close>
  opens a pool that is not among them, or none, a ping leaves them alone, and \<open>Close\<close>, once it
  returns, has closed its pool and no other.
\<close>

definition pools_contract :: "('q, 'cfg, 'pool, 'tx, 'w) pgdrv \<Rightarrow> ('w \<Rightarrow> 'pool list) \<Rightarrow> bool" where
  "pools_contract D pools \<longleftrightarrow>
     (\<forall>cfg w r w'. new_pool D cfg w = (r, w') \<longrightarrow>
        (\<forall>p. r = Ok p \<longrightarrow> p \<notin> set (pools w) \<and> pools w' = pools w @ [p]) \<and> (\<not> is_ok r \<longrightarrow> pools w' = pools w)) \<and>
     (\<forall>p w. pools (snd (pool_ping D p w)) = pools w) \<and>
     (\<forall>p w. pools (pool_close D p w) = filter (\<lambda>q. q \<noteq> p) (pools w))"

text \<open>
  The state of the store and the state of the interleaved model agree between calls: on the flag,
  and, with a numbering of the pools, on those that are open in the driver's world and on the one
  that the store holds. While the flag is set, that one is open.
\<close>

definition conn_rel :: "('w \<Rightarrow> 'pool list) \<Rightarrow> ('pool, 'w, 'x) pg_store_scheme \<Rightarrow> conn_state \<Rightarrow> bool" where
  "conn_rel pools s c \<longleftrightarrow> cn_flag c = st_connected s \<and>
     (\<exists>num. inj_on num (set (cn_live c)) \<and> map num (cn_live c) = pools (st_world s) \<and>
        map_option num (cn_pool c) = pg_pool (st_db s)) \<and>
     (cn_flag c \<longrightarrow> (\<exists>k \<in> set (cn_live c). cn_pool c = Some k)) \<and>
     (\<forall>i. cn_pc c i = Idle) \<and> cn_lock c = None \<and> (\<forall>k. cn_busy c k = 0) \<and> conn_fresh c"

text \<open>The numbering after a pool was opened.\<close>

lemma conn_renumber:
  fixes num :: "nat \<Rightarrow> 'pool"
  assumes "inj_on num (set ks)" "\<forall>k \<in> set ks \<union> set_option h. k < n" "p \<notin> num ` set ks"
  shows "inj_on (num(n := p)) (set (ks @ [n]))" and "map (num(n := p)) (ks @ [n]) = map num ks @ [p]"
    and "map_option (num(n := p)) h = map_option num h"
proof -
  have "n \<notin> set ks" "h \<noteq> Some n" using assms(2) less_irrefl [of n] by force+
  then show "inj_on (num(n := p)) (set (ks @ [n]))" "map (num(n := p)) (ks @ [n]) = map num ks @ [p]"
    using assms(1,3) by (auto simp: inj_on_def)
  show "map_option (num(n := p)) h = map_option num h" using \<open>h \<noteq> Some n\<close> by (cases h) auto
qed

text \<open>The calls that a schedule starts, in their order.\<close>

fun calls_of :: "(nat \<times> conn_event) list \<Rightarrow> (nat \<times> conn_op) list" where
  "calls_of [] = []"
| "calls_of ((i, e) # es) = (case e of Enter op \<Rightarrow> (i, op) # calls_of es | _ \<Rightarrow> calls_of es)"

lemma calls_of_append [simp]: "calls_of (es @ fs) = calls_of es @ calls_of fs"
  by (induction es rule: calls_of.induct) (auto split: conn_event.splits)

text \<open>Calls of one store, one after the other, whatever their results.\<close>

fun run_calls ::
  "('s \<Rightarrow> unit res \<times> 's) \<Rightarrow> ('s \<Rightarrow> unit res \<times> 's) \<Rightarrow> (nat \<times> conn_op) list \<Rightarrow> 's \<Rightarrow> 's" where
  "run_calls C X [] s = s"
| "run_calls C X ((i, op) # ops) s = run_calls C X ops (snd (case op of OpConnect \<Rightarrow> C s | OpDisconnect \<Rightarrow> X s))"

text \<open>The accesses of one undisturbed call.\<close>

definition call_schedule :: "nat \<Rightarrow> conn_op \<Rightarrow> conn_event list \<Rightarrow> (nat \<times> conn_event) list" where
  "call_schedule i op es = map (Pair i) ([Enter op, ReadFlag] @ es)"

lemma call_schedule_simps:
  "call_schedule i op es = (i, Enter op) # (i, ReadFlag) # map (Pair i) es"
  by (simp add: call_schedule_def)

lemma calls_of_schedule: "\<forall>e \<in> set es. \<not> is_enter e \<Longrightarrow> calls_of (call_schedule i op es) = [(i, op)]"
proof -
  have "\<forall>e \<in> set es. \<not> is_enter e \<Longrightarrow> calls_of (map (Pair i) es) = []"
    by (induction es) (auto split: conn_event.splits)
  then show "\<forall>e \<in> set es. \<not> is_enter e \<Longrightarrow> calls_of (call_schedule i op es) = [(i, op)]"
    by (simp add: call_schedule_def)
qed

lemma connect_is_schedule:
  assumes "conn_rel pools s c" "pools_contract D pools"
  shows "\<exists>es c'. conn_run g (call_schedule i OpConnect es) c = Some c' \<and> conn_rel pools (snd (store_Connect D s)) c' \<and>
    (\<forall>e \<in> set es. \<not> is_enter e)"
proof -
  obtain num where rel: "cn_flag c = st_connected s" "\<forall>i. cn_pc c i = Idle" "cn_lock c = None" "\<forall>k. cn_busy c k = 0"
    "conn_fresh c" "cn_flag c \<longrightarrow> (\<exists>k \<in> set (cn_live c). cn_pool c = Some k)"
    and num: "inj_on num (set (cn_live c))" "map num (cn_live c) = pools (st_world s)"
      "map_option num (cn_pool c) = pg_pool (st_db s)" using assms(1) unfolding conn_rel_def by blast
  have fresh: "\<forall>k \<in> set (cn_live c) \<union> set_option (cn_pool c). k < cn_opened c" "\<forall>k \<in> set (cn_abandoned c). k < cn_opened c"
    using rel(5) by (auto simp: conn_fresh_def)
  have idle: "(cn_pc c)(i := Idle) = cn_pc c" "(cn_pc c)(i := pc, i := Idle) = cn_pc c" for pc
    using rel(2) by (simp_all add: fun_eq_iff)
  show ?thesis
  proof (cases "st_connected s")
    case True
    then have "conn_run g (call_schedule i OpConnect []) c = Some c \<and> store_Connect D s = (Ok (), s)"
      using rel(1-3) by (simp add: call_schedule_simps conn_defs store_defs fun_upd_idem)
    then show ?thesis using assms(1) by (intro exI [of _ "[]"] exI [of _ c]) simp
  next
    case False
    let ?w = "st_world s" and ?db = "st_db s" and ?n = "cn_opened c"
    let ?cfg = "set_config D (pg_settings (pg_config ?db))"
    define made where "made = bind_st (parse_config D (pg_connStr ?db), ?w) (\<lambda>cfg. new_pool D (?cfg cfg))"
    obtain r w where made': "made = (r, w)" by (cases made)
    then have "(\<exists>cfg. parse_config D (pg_connStr ?db) = Ok cfg \<and> new_pool D (?cfg cfg) ?w = (r, w)) \<or> w = ?w \<and> \<not> is_ok r"
      by (cases "parse_config D (pg_connStr ?db)") (auto simp: made_def)
    then have pools: "(\<forall>p. r = Ok p \<longrightarrow> p \<notin> set (pools ?w) \<and> pools w = pools ?w @ [p]) \<and> (\<not> is_ok r \<longrightarrow> pools w = pools ?w)"
      using assms(2) unfolding pools_contract_def by (elim disjE exE conjE) (blast, auto)
    show ?thesis
    proof (cases r)
      case (Ok p)
      have "p \<notin> set (pools ?w) \<and> pools w = pools ?w @ [p]" using pools Ok by blast
      then have p: "p \<notin> num ` set (cn_live c)" "pools w = pools ?w @ [p]" using num(2) by (metis image_set)+
      obtain r2 w2 where ping: "pool_ping D p w = (r2, w2)" by (cases "pool_ping D p w")
      have w2: "pools w2 = pools ?w @ [p]" using assms(2) p(2) ping unfolding pools_contract_def by (metis snd_conv)
      note num' = conn_renumber [OF num(1) fresh(1) p(1)]
      let ?es = "if is_ok r2 then [OpenPool True, PingPool True, WriteFlag] else [OpenPool True, PingPool False]"
      let ?c = "c\<lparr>cn_live := cn_live c @ [?n], cn_opened := Suc ?n\<rparr>"
      let ?c' = "if is_ok r2 then ?c\<lparr>cn_pool := Some ?n, cn_flag := True\<rparr> else ?c\<lparr>cn_abandoned := ?n # cn_abandoned c\<rparr>"
      have run: "conn_run g (call_schedule i OpConnect ?es) c = Some ?c'"
        using rel(1-3) False by (simp add: call_schedule_simps conn_defs fun_upd_idem)
      have "conn_rel pools (snd (store_Connect D s)) ?c'"
      proof (cases "is_ok r2")
        case True
        then have "snd (store_Connect D s) = (st_put (?db\<lparr>pg_pool := Some p\<rparr>, w2) s)\<lparr>st_connected := True\<rparr>"
          using False made' Ok ping
          by (auto simp: store_defs pg_Connect_def st_pair_def made_def is_ok_iff split: res.splits)
        moreover have "map_option (num(?n := p)) (Some ?n) = Some p" by simp
        ultimately show ?thesis using True num'(1,2) num(2) w2 rel fresh
          by (auto simp: conn_rel_def conn_fresh_def st_put_def less_SucI intro!: exI [of _ "num(?n := p)"])
      next
        case failed: False
        then have "snd (store_Connect D s) = st_put (?db, w2) s"
          using False made' Ok ping
          by (auto simp: store_defs pg_Connect_def st_pair_def made_def is_ok_iff split: res.splits)
        then show ?thesis using failed num' num(2,3) w2 rel fresh False
          by (auto simp: conn_rel_def conn_fresh_def st_put_def less_SucI intro!: exI [of _ "num(?n := p)"])
      qed
      then show ?thesis using run by (intro exI [of _ ?es] exI [of _ ?c']) simp
    next
      case (Err e)
      then have "pools w = pools ?w \<and> snd (store_Connect D s) = st_put (?db, w) s"
        using False made' pools
        by (auto simp: store_defs pg_Connect_def st_pair_def made_def split: res.splits prod.splits)
      then have "conn_rel pools (snd (store_Connect D s)) c"
        using rel num by (auto simp: conn_rel_def st_put_def)
      moreover have "conn_run g (call_schedule i OpConnect [OpenPool False]) c = Some c"
        using rel(1-3) False by (simp add: call_schedule_simps conn_defs fun_upd_idem)
      ultimately show ?thesis by (intro exI [of _ "[OpenPool False]"] exI [of _ c]) simp
    next
      case Panic
      then have "pools w = pools ?w \<and> snd (store_Connect D s) = st_put (?db, w) s"
        using False made' pools
        by (auto simp: store_defs pg_Connect_def st_pair_def made_def split: res.splits prod.splits)
      then have "conn_rel pools (snd (store_Connect D s)) c"
        using rel num by (auto simp: conn_rel_def st_put_def)
      moreover have "conn_run g (call_schedule i OpConnect [OpenPool False]) c = Some c"
        using rel(1-3) False by (simp add: call_schedule_simps conn_defs fun_upd_idem)
      ultimately show ?thesis by (intro exI [of _ "[OpenPool False]"] exI [of _ c]) simp
    qed
  qed
qed

lemma disconnect_is_schedule:
  assumes "conn_rel pools s c" "pools_contract D pools"
  shows "\<exists>es c'. conn_run g (call_schedule i OpDisconnect es) c = Some c' \<and> conn_rel pools (snd (store_Disconnect D s)) c' \<and>
    (\<forall>e \<in> set es. \<not> is_enter e)"
proof -
  obtain num where rel: "cn_flag c = st_connected s" "\<forall>i. cn_pc c i = Idle" "cn_lock c = None" "\<forall>k. cn_busy c k = 0"
    "conn_fresh c" "cn_flag c \<longrightarrow> (\<exists>k \<in> set (cn_live c). cn_pool c = Some k)"
    and num: "inj_on num (set (cn_live c))" "map num (cn_live c) = pools (st_world s)"
      "map_option num (cn_pool c) = pg_pool (st_db s)" using assms(1) unfolding conn_rel_def by blast
  show ?thesis
  proof (cases "st_connected s")
    case False
    then have "conn_run g (call_schedule i OpDisconnect []) c = Some c \<and> store_Disconnect D s = (Ok (), s)"
      using rel(1-3) by (simp add: call_schedule_simps conn_defs store_defs fun_upd_idem)
    then show ?thesis using assms(1) by (intro exI [of _ "[]"] exI [of _ c]) simp
  next
    case True
    then obtain k where k: "k \<in> set (cn_live c)" "cn_pool c = Some k" using rel(1,6) by blast
    let ?c' = "c\<lparr>cn_live := filter (\<lambda>q. q \<noteq> k) (cn_live c), cn_flag := False\<rparr>"
    have run: "conn_run g (call_schedule i OpDisconnect [ClosePool, AwaitClose, WriteFlag]) c = Some ?c'"
      using rel(1-4) True k(2) by (simp add: call_schedule_simps conn_defs fun_upd_idem)
    have pool: "pg_pool (st_db s) = Some (num k)" using num(3) k(2) by simp
    then have s': "snd (store_Disconnect D s) = (st_put (st_db s, pool_close D (num k) (st_world s)) s)\<lparr>st_connected := False\<rparr>"
      using True by (simp add: store_defs pg_Disconnect_def st_pair_def)
    have "map num (filter (\<lambda>q. q \<noteq> k) (cn_live c)) = filter (\<lambda>q. q \<noteq> num k) (map num (cn_live c))"
      using num(1) k(1) by (auto simp: filter_map comp_def inj_on_def intro!: arg_cong [where f = "map num"] filter_cong)
    then have "map num (filter (\<lambda>q. q \<noteq> k) (cn_live c)) = pools (pool_close D (num k) (st_world s))"
      using assms(2) num(2) by (simp add: pools_contract_def)
    moreover have "inj_on num (set (filter (\<lambda>q. q \<noteq> k) (cn_live c)))" by (rule inj_on_subset [OF num(1)]) auto
    moreover have "conn_fresh ?c'" using rel(5) by (auto simp: conn_fresh_def)
    ultimately have "conn_rel pools (snd (store_Disconnect D s)) ?c'"
      using num(3) rel(2-4) unfolding s' by (auto simp: conn_rel_def st_put_def)
    then show ?thesis using run by (intro exI [of _ "[ClosePool, AwaitClose, WriteFlag]"] exI [of _ ?c']) simp
  qed
qed

lemma store_calls_schedules:
  assumes "conn_rel pools s c" "pools_contract D pools"
  shows "\<exists>es c'. conn_run g es c = Some c' \<and> calls_of es = ops \<and>
    conn_rel pools (run_calls (store_Connect D) (store_Disconnect D) ops s) c'"
  using assms(1)
proof (induction ops arbitrary: s c)
  case Nil
  then show ?case by (intro exI [of _ "[]"]) simp
next
  case (Cons iop ops)
  obtain i op where iop: "iop = (i, op)" by (cases iop)
  let ?s1 = "snd (case op of OpConnect \<Rightarrow> store_Connect D s | OpDisconnect \<Rightarrow> store_Disconnect D s)"
  obtain es1 c1 where step: "conn_run g (call_schedule i op es1) c = Some c1" "conn_rel pools ?s1 c1"
    "\<forall>e \<in> set es1. \<not> is_enter e"
    using connect_is_schedule [OF Cons.prems assms(2), of g i] disconnect_is_schedule [OF Cons.prems assms(2), of g i]
    by (cases op) auto
  from Cons.IH [OF step(2)] obtain es2 c2 where "conn_run g es2 c1 = Some c2" "calls_of es2 = ops"
    "conn_rel pools (run_calls (store_Connect D) (store_Disconnect D) ops ?s1) c2" by blast
  then show ?case using step(1) calls_of_schedule [OF step(3)]
    by (intro exI [of _ "call_schedule i op es1 @ es2"] exI [of _ c2]) (simp add: iop conn_run_append)
qed

text \<open>
  C22. Every sequence of complete calls of the Postgres event store is a schedule of the
  interleaved model that starts the same calls and ends in a state that agrees with the store:
  the same flag, as many open pools as the driver has, in the same order, and the same pool held
  by the store, which is open while the flag is set. What the interleaved model says of all
  schedules, of the flag and of the open pools, holds of the calls.
\<close>

theorem calls_are_schedules:
  fixes D :: "('q, 'cfg, 'pool, 'tx, 'w) pgdrv"
  assumes "pools_contract D pools" "pools w = []"
  shows "\<exists>es c. conn_run guarded es conn_init = Some c \<and> calls_of es = ops \<and>
    conn_rel pools (run_calls (pe_Connect D) (pe_Disconnect D) ops (pe_NewEventsStore config w)) c"
  unfolding pe_store
  by (rule store_calls_schedules [OF _ assms(1)])
    (simp add: assms(2) conn_rel_def conn_init_def conn_fresh_def pe_NewEventsStore_def plain_newDatabase_def Let_def)

text \<open>A driver whose world is the list of its open pools, and whose pool \<open>2\<close> does not answer.\<close>

definition wit_pool_config :: event_config where
  "wit_pool_config = \<lparr>ec_DBHost = ''localhost'', ec_DBPort = 5432, ec_DBName = ''ego'', ec_DBUser = ''ego'',
     ec_DBPassword = ''secret'', ec_DBSchema = ''''\<rparr>"

definition wit_pool_drv :: "(unit, unit, nat, unit, nat list) pgdrv" where
  "wit_pool_drv =
     \<lparr>to_sql = (\<lambda>_. Ok ()), parse_config = (\<lambda>_. Ok ()), set_config = (\<lambda>_ cfg. cfg),
      new_pool = (\<lambda>_ ps. (Ok (Suc (sum_list ps)), ps @ [Suc (sum_list ps)])),
      pool_ping = (\<lambda>p ps. (if p = 2 then Err (ErrExt ''ping'') else Ok (), ps)),
      pool_exec = (\<lambda>_ _ ps. (Ok (), ps)), pool_begin = (\<lambda>_ ps. (Ok (), ps)),
      pool_close = (\<lambda>p ps. filter (\<lambda>q. q \<noteq> p) ps),
      tx_exec = (\<lambda>_ _ ps. (Ok (), ps)), tx_rollback = (\<lambda>_ ps. (Ok (), ps)), tx_commit = (\<lambda>_ ps. (Ok (), ps)),
      scan_all = (\<lambda>_ _ _. Ok []), scan_one = (\<lambda>_ _ _. Err (ErrExt ''no rows'')), not_found = (\<lambda>_. True)\<rparr>"

theorem calls_are_schedules_witness:
  "\<exists>es c. conn_run False es conn_init = Some c \<and> calls_of es = [(0, OpConnect), (1, OpDisconnect), (0, OpConnect)] \<and>
     cn_flag c \<and> length (cn_live c) = 1"
proof -
  have "Suc (sum_list ps) \<notin> set ps" for ps :: "nat list" using member_le_sum_list [of _ ps] by fastforce
  then have "pools_contract wit_pool_drv (\<lambda>ps. ps)" by (simp add: pools_contract_def wit_pool_drv_def)
  from calls_are_schedules [OF this, of "[]" False "[(0, OpConnect), (1, OpDisconnect), (0, OpConnect)]" wit_pool_config]
  obtain es c where c: "conn_run False es conn_init = Some c" "calls_of es = [(0, OpConnect), (1, OpDisconnect), (0, OpConnect)]"
    "conn_rel (\<lambda>ps. ps) (run_calls (pe_Connect wit_pool_drv) (pe_Disconnect wit_pool_drv)
       [(0, OpConnect), (1, OpDisconnect), (0, OpConnect)] (pe_NewEventsStore wit_pool_config [])) c" by auto
  let ?s = "run_calls (pe_Connect wit_pool_drv) (pe_Disconnect wit_pool_drv)
       [(0, OpConnect), (1, OpDisconnect), (0, OpConnect)] (pe_NewEventsStore wit_pool_config [])"
  have "st_connected ?s \<and> length (st_world ?s) = 1" by code_simp
  moreover have "length (cn_live c) = length (st_world ?s)" using c(3) unfolding conn_rel_def by (metis length_map)
  ultimately show ?thesis using c by (auto simp: conn_rel_def)
qed

end
