(* ===== verification/Schema.thy ===== *)
theory Schema
  imports DurablePg EventsPgStore OffsetPg SnapshotPg
begin

text \<open>
  The tables of the SQL files under \<open>resources/\<close>, and when a statement is well typed in them:
  it names the table and its columns, its values have the columns' types, an insert fills
  every column (none may be null), and an upsert is on the primary key. The statements of the
  four Postgres stores are checked against their tables.
\<close>

section \<open>Tables\<close>

datatype sqltype = TVarchar nat | TBigint | TBoolean | TBytea

record table_schema =
  ts_name :: string
  ts_columns :: "(string \<times> sqltype) list"
  ts_pk :: "string list"

definition states_table :: table_schema where
  "states_table = \<lparr>ts_name = ''states_store'',
     ts_columns = [(''persistence_id'', TVarchar 255), (''version_number'', TBigint), (''state_payload'', TBytea),
       (''state_manifest'', TVarchar 255), (''timestamp'', TBigint), (''shard_number'', TBigint)],
     ts_pk = [''persistence_id'']\<rparr>"

definition events_table :: table_schema where
  "events_table = \<lparr>ts_name = ''events_store'',
     ts_columns = [(''persistence_id'', TVarchar 255), (''sequence_number'', TBigint), (''is_deleted'', TBoolean),
       (''event_payload'', TBytea), (''event_manifest'', TVarchar 255), (''timestamp'', TBigint),
       (''shard_number'', TBigint), (''encryption_key_id'', TVarchar 255), (''is_encrypted'', TBoolean)],
     ts_pk = [''persistence_id'', ''sequence_number'']\<rparr>"

definition offsets_table :: table_schema where
  "offsets_table = \<lparr>ts_name = ''offsets_store'',
     ts_columns = [(''projection_name'', TVarchar 255), (''shard_number'', TBigint), (''current_offset'', TBigint),
       (''timestamp'', TBigint)],
     ts_pk = [''projection_name'', ''shard_number'']\<rparr>"

definition snapshots_table :: table_schema where
  "snapshots_table = \<lparr>ts_name = ''snapshots_store'',
     ts_columns = [(''persistence_id'', TVarchar 255), (''sequence_number'', TBigint), (''state_payload'', TBytea),
       (''state_manifest'', TVarchar 255), (''timestamp'', TBigint), (''encryption_key_id'', TVarchar 255),
       (''is_encrypted'', TBoolean)],
     ts_pk = [''persistence_id'', ''sequence_number'']\<rparr>"

section \<open>Typing\<close>

text \<open>
  The characters of a text: its bytes in UTF-8, less the continuation bytes, which are those from
  \<open>0x80\<close> to \<open>0xBF\<close>.
\<close>

definition char_count :: "string \<Rightarrow> nat" where
  "char_count s = length (filter (\<lambda>c. (of_char c :: nat) div 64 \<noteq> 2) s)"

lemma char_count_simps [simp]:
  "char_count [] = 0" "char_count (c # s) = (if (of_char c :: nat) div 64 \<noteq> 2 then Suc (char_count s) else char_count s)"
  "char_count (s @ t) = char_count s + char_count t"
  by (simp_all add: char_count_def)

text \<open>
  A value that a column can hold as it is: a \<open>varchar\<close> is bounded in characters. Whether a text is
  UTF-8 at all is a matter of its encoding and not of its type.
\<close>

fun val_typed :: "sqltype \<Rightarrow> sqlval \<Rightarrow> bool" where
  "val_typed (TVarchar n) (SText s) \<longleftrightarrow> char_count s \<le> n"
| "val_typed TBigint (SInt i) \<longleftrightarrow> - 9223372036854775808 \<le> i \<and> i < 9223372036854775808"
| "val_typed TBoolean (SBool b) \<longleftrightarrow> True"
| "val_typed TBytea (SBytes bs) \<longleftrightarrow> True"
| "val_typed _ _ \<longleftrightarrow> False"

text \<open>A value that can be compared with a column: a text of any length with a \<open>varchar\<close>.\<close>

fun val_comparable :: "sqltype \<Rightarrow> sqlval \<Rightarrow> bool" where
  "val_comparable (TVarchar n) (SText s) \<longleftrightarrow> True"
| "val_comparable t v \<longleftrightarrow> val_typed t v"

definition column_typed :: "table_schema \<Rightarrow> string \<Rightarrow> sqlval \<Rightarrow> bool" where
  "column_typed T c v \<longleftrightarrow> (case map_of (ts_columns T) c of None \<Rightarrow> False | Some t \<Rightarrow> val_typed t v)"

definition has_column :: "table_schema \<Rightarrow> string \<Rightarrow> bool" where
  "has_column T c \<longleftrightarrow> map_of (ts_columns T) c \<noteq> None"

definition compares :: "table_schema \<Rightarrow> string \<Rightarrow> sqlval \<Rightarrow> bool" where
  "compares T c v \<longleftrightarrow> (case map_of (ts_columns T) c of None \<Rightarrow> False | Some t \<Rightarrow> val_comparable t v)"

fun cond_typed :: "table_schema \<Rightarrow> cond \<Rightarrow> bool" where
  "cond_typed T (CondEq c v) \<longleftrightarrow> compares T c v"
| "cond_typed T (CondGt c v) \<longleftrightarrow> compares T c v"
| "cond_typed T (CondGtOrEq c v) \<longleftrightarrow> compares T c v"
| "cond_typed T (CondLtOrEq c v) \<longleftrightarrow> compares T c v"

definition row_typed :: "table_schema \<Rightarrow> string list \<Rightarrow> sqlval list \<Rightarrow> bool" where
  "row_typed T cols vs \<longleftrightarrow> list_all2 (column_typed T) cols vs"

text \<open>A \<open>BIGINT\<close> is signed: the upper half of \<open>uint64\<close> does not fit.\<close>

definition fits_bigint :: "u64 \<Rightarrow> bool" where
  "fits_bigint w \<longleftrightarrow> w < 9223372036854775808"

text \<open>With \<open>DISTINCT\<close>, Postgres orders by selected columns only. A \<open>LIMIT\<close> is a \<open>BIGINT\<close> as well.\<close>

fun stmt_typed :: "table_schema \<Rightarrow> stmt \<Rightarrow> bool" where
  "stmt_typed T (Select q) \<longleftrightarrow>
     sel_from q = ts_name T \<and> distinct (sel_columns q) \<and> list_all (has_column T) (sel_columns q) \<and>
     list_all (cond_typed T) (sel_where q) \<and>
     (case sel_order q of None \<Rightarrow> True
      | Some (c, _) \<Rightarrow> has_column T c \<and> (sel_distinct q \<longrightarrow> c \<in> set (sel_columns q))) \<and>
     (case sel_limit q of None \<Rightarrow> True | Some n \<Rightarrow> fits_bigint n)"
| "stmt_typed T (Insert i) \<longleftrightarrow>
     ins_into i = ts_name T \<and> distinct (ins_columns i) \<and> set (ins_columns i) = set (map fst (ts_columns T)) \<and>
     ins_values i \<noteq> [] \<and> list_all (row_typed T (ins_columns i)) (ins_values i) \<and>
     (case ins_conflict i of None \<Rightarrow> True
      | Some (ks, us) \<Rightarrow> ks = ts_pk T \<and> distinct us \<and> list_all (has_column T) us \<and> length (ins_values i) = 1)"
| "stmt_typed T (Delete d) \<longleftrightarrow> del_from d = ts_name T \<and> list_all (cond_typed T) (del_where d)"
| "stmt_typed T (Update u) \<longleftrightarrow>
     upd_table u = ts_name T \<and> distinct (map fst (upd_set u)) \<and>
     list_all (\<lambda>(c, v). column_typed T c v) (upd_set u) \<and> list_all (cond_typed T) (upd_where u)"

lemmas schema_defs = states_table_def events_table_def offsets_table_def snapshots_table_def
  column_typed_def has_column_def compares_def row_typed_def

section \<open>Values that fit\<close>

lemma bigint_u64 [simp]: "val_typed TBigint (bind_u64 w) = fits_bigint w"
  using order_trans [OF _ uint_ge_0 [of w], of "- 9223372036854775808"]
  by (auto simp: bind_u64_def fits_bigint_def word_less_alt)

lemma bigint_i64 [simp]: "val_typed TBigint (bind_i64 w)"
  using sint_ge [of w] sint_lt [of w] by (simp add: bind_i64_def)

lemma bytea_bytes [simp]: "val_typed TBytea (bind_bytes b) = (b \<noteq> None)"
  by (cases b) (simp_all add: bind_bytes_def)

lemma comparable_int [simp]:
  "val_comparable TBigint (bind_u64 w) = fits_bigint w" "val_comparable TBigint (bind_i64 w)"
  using bigint_u64 [of w] bigint_i64 [of w] by (simp_all add: bind_u64_def bind_i64_def)

text \<open>What a message must satisfy for its row to fit its table.\<close>

definition text_fits :: "string \<Rightarrow> bool" where
  "text_fits s \<longleftrightarrow> char_count s \<le> 255"

definition payload_fits :: "('t, 'm) protolib \<Rightarrow> any option \<Rightarrow> bool" where
  "payload_fits L x \<longleftrightarrow> marshal_bytes L x \<noteq> None \<and> text_fits (full_name L x)"

definition state_fits :: "('t, 'm) protolib \<Rightarrow> durable_state \<Rightarrow> bool" where
  "state_fits L d \<longleftrightarrow> text_fits (ds_PersistenceId d) \<and> fits_bigint (ds_VersionNumber d) \<and>
     fits_bigint (ds_Shard d) \<and> payload_fits L (ds_ResultingState d)"

definition event_fits :: "('t, 'm) protolib \<Rightarrow> event \<Rightarrow> bool" where
  "event_fits L e \<longleftrightarrow> text_fits (ev_PersistenceId e) \<and> fits_bigint (ev_SequenceNumber e) \<and>
     fits_bigint (ev_Shard e) \<and> text_fits (ev_EncryptionKeyId e) \<and> payload_fits L (ev_Event e)"

definition offset_fits :: "offset \<Rightarrow> bool" where
  "offset_fits x \<longleftrightarrow> text_fits (of_ProjectionName x) \<and> fits_bigint (of_ShardNumber x)"

definition snapshot_fits :: "('t, 'm) protolib \<Rightarrow> snapshot \<Rightarrow> bool" where
  "snapshot_fits L x \<longleftrightarrow> text_fits (sn_PersistenceId x) \<and> fits_bigint (sn_SequenceNumber x) \<and>
     text_fits (sn_EncryptionKeyId x) \<and> payload_fits L (sn_State x)"

lemmas fits_defs = text_fits_def payload_fits_def state_fits_def event_fits_def offset_fits_def snapshot_fits_def

section \<open>The statements\<close>

lemma states_typed:
  "stmt_typed states_table (Insert (dp_upsert L d)) = state_fits L d"
  "stmt_typed states_table (Select (dp_select p))"
  by (auto simp: dp_upsert_def dp_select_def dp_columns_def dp_tableName_def sq_defs schema_defs fits_defs)

lemma fits_bigint_small [simp]: "fits_bigint 1"
  by (simp add: fits_bigint_def)

lemma events_typed:
  "stmt_typed events_table (Select (pe_ids_select n tok)) = fits_bigint n"
  "stmt_typed events_table (Select (pe_latest_select p))"
  "stmt_typed events_table (Select (pe_replay_select p lo hi n)) = (fits_bigint lo \<and> fits_bigint hi \<and> fits_bigint n)"
  "stmt_typed events_table (Select (pe_shard_select shard off n)) = (fits_bigint shard \<and> fits_bigint n)"
  "stmt_typed events_table (Select (sq_Distinct (sq_Select [''shard_number''] pe_tableName)))"
  "stmt_typed events_table (Delete (pe_delete p hi)) = fits_bigint hi"
  by (auto simp: pe_ids_select_def pe_latest_select_def pe_replay_select_def pe_shard_select_def pe_delete_def
      pe_columns_def pe_tableName_def sq_defs schema_defs Let_def)

lemma event_row_typed:
  "row_typed events_table pe_columns (pe_event_values L e (marshal_bytes L (ev_Event e))) = event_fits L e"
  by (auto simp: pe_event_values_def pe_columns_def schema_defs fits_defs)

text \<open>The insert of a batch: the statement to which the loop of \<open>WriteEvents\<close> adds a row for each event.\<close>

definition batch_insert :: "('t, 'm) protolib \<Rightarrow> event list \<Rightarrow> insert_stmt" where
  "batch_insert L es = fold (\<lambda>e. sq_Values (pe_event_values L e (marshal_bytes L (ev_Event e)))) es
     (sq_Insert pe_tableName pe_columns)"

lemma batch_insert_fields:
  "ins_values (fold (\<lambda>e. sq_Values (f e)) es i) = ins_values i @ map f es"
  "ins_into (fold (\<lambda>e. sq_Values (f e)) es i) = ins_into i"
  "ins_columns (fold (\<lambda>e. sq_Values (f e)) es i) = ins_columns i"
  "ins_conflict (fold (\<lambda>e. sq_Values (f e)) es i) = ins_conflict i"
  by (induction es arbitrary: i) (simp_all add: sq_Values_def)

lemma batch_typed:
  "stmt_typed events_table (Insert (batch_insert L es)) \<longleftrightarrow> es \<noteq> [] \<and> list_all (event_fits L) es"
proof -
  have cols: "distinct pe_columns" "set pe_columns = set (map fst (ts_columns events_table))"
    "pe_tableName = ts_name events_table" by (auto simp: pe_columns_def events_table_def pe_tableName_def)
  have "list_all (row_typed events_table pe_columns)
      (map (\<lambda>e. pe_event_values L e (marshal_bytes L (ev_Event e))) es) \<longleftrightarrow> list_all (event_fits L) es"
    by (simp add: list_all_iff event_row_typed)
  then show ?thesis using cols
    by (simp add: batch_insert_def batch_insert_fields sq_Insert_def del: set_map)
qed

lemma offsets_typed:
  "stmt_typed offsets_table (Insert (po_upsert x)) = offset_fits x"
  "stmt_typed offsets_table (Select (po_select k)) = fits_bigint (pj_ShardNumber k)"
  "stmt_typed offsets_table (Update (po_update n v ts))"
  by (auto simp: po_upsert_def po_select_def po_update_def po_columns_def po_tableName_def sq_defs schema_defs
      fits_defs)

lemma snapshots_typed:
  "stmt_typed snapshots_table (Insert (ps_upsert L x)) = snapshot_fits L x"
  "stmt_typed snapshots_table (Select (ps_select p))"
  "stmt_typed snapshots_table (Delete (ps_delete p n)) = fits_bigint n"
  by (auto simp: ps_upsert_def ps_select_def ps_delete_def ps_columns_def ps_tableName_def sq_defs schema_defs
      fits_defs)

end
