(* ===== verification/SchemaProps.thy ===== *)
theory SchemaProps
  imports Schema EventPgProps
begin

text \<open>
  The statements of the Postgres stores in the tables of the SQL files: which are well typed,
  and that a write of events whose rows fit hands only well-typed statements to the builder.
\<close>

text \<open>
  C19. The statements that the Postgres stores build name the table and the columns of their SQL
  file, and exactly when each is well typed there. Always: the reads of a state, of the latest
  event, of the latest snapshot and of the shard numbers, and the update of the offsets. If the
  limit of the page is below \<open>2 ^ 63\<close>: the listing of the ids. If the limit and the other \<open>uint64\<close>
  arguments are: a replay, the events of a shard, the read of an offset and the deletes, since
  \<open>BIGINT\<close> is signed. An insert of one row: if the message fits its columns (texts of at most 255
  characters, a payload that is not nil, \<open>uint64\<close> fields below \<open>2 ^ 63\<close>). The insert of a batch of
  events: if there is one and each fits.
\<close>

theorem statements_typed:
  "(stmt_typed states_table (Insert (dp_upsert L d)) \<longleftrightarrow> state_fits L d) \<and>
   stmt_typed states_table (Select (dp_select p)) \<and>
   (stmt_typed events_table (Insert (batch_insert L es)) \<longleftrightarrow> es \<noteq> [] \<and> list_all (event_fits L) es) \<and>
   (stmt_typed events_table (Select (pe_ids_select n tok)) \<longleftrightarrow> fits_bigint n) \<and>
   stmt_typed events_table (Select (pe_latest_select p)) \<and>
   (stmt_typed events_table (Select (pe_replay_select p lo hi n)) \<longleftrightarrow> fits_bigint lo \<and> fits_bigint hi \<and> fits_bigint n) \<and>
   (stmt_typed events_table (Select (pe_shard_select shard off n)) \<longleftrightarrow> fits_bigint shard \<and> fits_bigint n) \<and>
   stmt_typed events_table (Select (sq_Distinct (sq_Select [''shard_number''] pe_tableName))) \<and>
   (stmt_typed events_table (Delete (pe_delete p hi)) \<longleftrightarrow> fits_bigint hi) \<and>
   (stmt_typed offsets_table (Insert (po_upsert x)) \<longleftrightarrow> offset_fits x) \<and>
   (stmt_typed offsets_table (Select (po_select k)) \<longleftrightarrow> fits_bigint (pj_ShardNumber k)) \<and>
   stmt_typed offsets_table (Update (po_update name v ts)) \<and>
   (stmt_typed snapshots_table (Insert (ps_upsert L sn)) \<longleftrightarrow> snapshot_fits L sn) \<and>
   stmt_typed snapshots_table (Select (ps_select p)) \<and>
   (stmt_typed snapshots_table (Delete (ps_delete p hi)) \<longleftrightarrow> fits_bigint hi)"
  by (simp only: states_typed events_typed batch_typed offsets_typed snapshots_typed simp_thms)

section \<open>The batches of a write\<close>

text \<open>An insert that is still being filled.\<close>

definition pending_typed :: "insert_stmt \<Rightarrow> bool" where
  "pending_typed i \<longleftrightarrow> ins_into i = ts_name events_table \<and> ins_columns i = pe_columns \<and> ins_conflict i = None \<and>
     list_all (row_typed events_table pe_columns) (ins_values i)"

lemma pending_fresh: "pending_typed (sq_Insert pe_tableName pe_columns)"
  by (simp add: pending_typed_def sq_defs events_table_def pe_tableName_def)

lemma pending_values:
  assumes "pending_typed i" "event_fits L e"
  shows "pending_typed (sq_Values (pe_event_values L e (marshal_bytes L (ev_Event e))) i)"
    and "stmt_typed events_table (Insert (sq_Values (pe_event_values L e (marshal_bytes L (ev_Event e))) i))"
proof -
  show p: "pending_typed (sq_Values (pe_event_values L e (marshal_bytes L (ev_Event e))) i)"
    using assms event_row_typed [of L e] by (simp add: pending_typed_def sq_defs)
  have "distinct pe_columns" "set pe_columns = set (map fst (ts_columns events_table))"
    by (auto simp: pe_columns_def events_table_def)
  then show "stmt_typed events_table (Insert (sq_Values (pe_event_values L e (marshal_bytes L (ev_Event e))) i))"
    using p by (simp add: pending_typed_def sq_Values_def)
qed

lemma pe_write_loop_typed:
  assumes "\<forall>i. stmt_typed events_table (Insert i) \<longrightarrow> f (Insert i) = to_sql D (Insert i)"
    and "\<forall>e \<in> set es. event_fits L (or_zero zero_event e)" "pending_typed st"
  shows "pe_write_loop L (D\<lparr>to_sql := f\<rparr>) tx batch n es index st w = pe_write_loop L D tx batch n es index st w"
  using assms(2,3)
proof (induction es arbitrary: index st w)
  case (Cons event es)
  let ?e = "or_zero zero_event event"
  obtain bs err where m: "marshal L (ev_Event ?e) = (bs, err)" by (cases "marshal L (ev_Event ?e)")
  then have bs: "marshal_bytes L (ev_Event ?e) = bs" by (simp add: marshal_bytes_def)
  let ?st = "sq_Values (pe_event_values L ?e bs) st"
  have "event_fits L ?e" using Cons.prems(1) by simp
  note next_st = pending_values [OF Cons.prems(2) this, unfolded bs]
  have sql: "f (Insert ?st) = to_sql D (Insert ?st)" using assms(1) next_st(2) by blast
  have "pe_write_loop L (D\<lparr>to_sql := f\<rparr>) tx batch n es index' st' w' = pe_write_loop L D tx batch n es index' st' w'"
    if "pending_typed st'" for index' st' w'
    using Cons.IH [OF _ that] Cons.prems(1) by simp
  note IH = this [OF next_st(1)] this [OF pending_fresh]
  show ?case using m by (cases err) (simp_all add: Let_def sql IH split: prod.split res.split)
qed simp

text \<open>
  C26. A write of events that fit their columns gives only well-typed statements to the builder,
  whatever its batches: it has the same result with any builder that agrees on those.
\<close>

theorem pg_writes_typed:
  assumes "\<forall>i. stmt_typed events_table (Insert i) \<longrightarrow> f (Insert i) = to_sql D (Insert i)"
    and "\<forall>e \<in> set es. event_fits L (or_zero zero_event e)"
  shows "pe_WriteEvents L (D\<lparr>to_sql := f\<rparr>) es s = pe_WriteEvents L D es s"
proof -
  have tx: "pg_BeginTx (D\<lparr>to_sql := f\<rparr>) p = pg_BeginTx D p" for p
    by (simp add: pg_BeginTx_def split: prod.split option.split)
  note loop = pe_write_loop_typed [OF assms pending_fresh]
  obtain r db w where "pg_BeginTx D (st_pair s) = (r, (db, w))" by (cases "pg_BeginTx D (st_pair s)") auto
  then show ?thesis by (cases r) (simp_all add: pe_WriteEvents_def tx loop split: prod.split res.split)
qed

theorem pg_writes_typed_witness:
  "pe_WriteEvents ref_protolib
     (ref_drv\<lparr>to_sql := \<lambda>st. case st of Insert i \<Rightarrow> if stmt_typed events_table st then Ok st else Err (ErrExt ''type'') | _ \<Rightarrow> Ok st\<rparr>)
     (map Some wit_events) pe_wit =
   pe_WriteEvents ref_protolib ref_drv (map Some wit_events) pe_wit"
proof (rule pg_writes_typed)
  show "\<forall>e \<in> set (map Some wit_events). event_fits ref_protolib (or_zero zero_event e)"
    by (simp add: wit_events_def ev_wit_def fits_defs fits_bigint_def ref_protolib_def marshal_bytes_def any_name_def)
qed (simp add: ref_drv_def)

end
