(* ===== verification/PgEventLayer.thy ===== *)
theory PgEventLayer
  imports SqlDatabase
begin

text \<open>
  \<open>eventstore/postgres/postgres.go\<close> and \<open>db_config.go\<close>: the event store's own copy of the layer over
  the pgx pool. Its configuration has no SSL mode, and it can begin transactions.
\<close>

section \<open>Configuration\<close>

record epg_config =
  epg_DBHost :: string
  epg_DBPort :: i64
  epg_DBName :: string
  epg_DBUser :: string
  epg_DBPassword :: string
  epg_DBSchema :: string
  epg_MaxConnections :: i64
  epg_MinConnections :: i64
  epg_MaxConnectionLifetime :: i64
  epg_MaxConnIdleTime :: i64
  epg_HealthCheckPeriod :: i64

definition epg_newConfig :: "string \<Rightarrow> i64 \<Rightarrow> string \<Rightarrow> string \<Rightarrow> string \<Rightarrow> string \<Rightarrow> epg_config" where
  "epg_newConfig host port user password dbName schema =
     \<lparr>epg_DBHost = host, epg_DBPort = port, epg_DBName = dbName, epg_DBUser = user, epg_DBPassword = password,
      epg_DBSchema = schema, epg_MaxConnections = 4, epg_MinConnections = 0, epg_MaxConnectionLifetime = Hour,
      epg_MaxConnIdleTime = 30 * Minute, epg_HealthCheckPeriod = Minute\<rparr>"

definition epg_createConnectionString ::
  "string \<Rightarrow> i64 \<Rightarrow> string \<Rightarrow> string \<Rightarrow> string \<Rightarrow> string \<Rightarrow> string" where
  "epg_createConnectionString host port name user password schema =
     (let info = ''host='' @ host @ '' port='' @ fmt_i64 port @ '' user='' @ user @
                 '' dbname='' @ name @ '' sslmode=disable'';
          info = (if password \<noteq> '''' then info @ '' password='' @ password else info);
          info = (if schema \<noteq> '''' then info @ '' search_path='' @ schema else info)
      in info)"

section \<open>The layer\<close>

record 'pool epg_postgres =
  epg_connStr :: string
  epg_pool :: "'pool option"
  epg_cfg :: epg_config

type_synonym ('pool, 'w) epgdb = "'pool epg_postgres \<times> 'w"

definition epg_newDatabase :: "epg_config \<Rightarrow> 'pool epg_postgres" where
  "epg_newDatabase config =
     \<lparr>epg_connStr = epg_createConnectionString (epg_DBHost config) (epg_DBPort config) (epg_DBName config)
        (epg_DBUser config) (epg_DBPassword config) (epg_DBSchema config), epg_pool = None, epg_cfg = config\<rparr>"

definition epg_settings :: "epg_config \<Rightarrow> pool_settings" where
  "epg_settings c =
     \<lparr>po_MaxConns = ucast (epg_MaxConnections c), po_MaxConnLifetime = epg_MaxConnectionLifetime c,
      po_MaxConnIdleTime = epg_MaxConnIdleTime c, po_MinConns = ucast (epg_MinConnections c),
      po_HealthCheckPeriod = epg_HealthCheckPeriod c\<rparr>"

definition epg_Connect :: "('q, 'cfg, 'pool, 'tx, 'w) pgdrv \<Rightarrow> ('pool, 'w) epgdb \<Rightarrow> unit res \<times> ('pool, 'w) epgdb" where
  "epg_Connect D s =
     (case s of (pg, w) \<Rightarrow>
        (case parse_config D (epg_connStr pg) of
           Err e \<Rightarrow> (Err (ErrWrap ''failed to parse connection string'' e), (pg, w))
         | Panic \<Rightarrow> (Panic, (pg, w))
         | Ok config \<Rightarrow>
             (case new_pool D (set_config D (epg_settings (epg_cfg pg)) config) w of
                (Err e, w1) \<Rightarrow> (Err (ErrWrap ''failed to create the connection pool'' e), (pg, w1))
              | (Panic, w1) \<Rightarrow> (Panic, (pg, w1))
              | (Ok pool, w1) \<Rightarrow>
                  (case pool_ping D pool w1 of
                     (Err e, w2) \<Rightarrow> (Err (ErrWrap ''failed to ping the database connection'' e), (pg, w2))
                   | (Panic, w2) \<Rightarrow> (Panic, (pg, w2))
                   | (Ok _, w2) \<Rightarrow> (Ok (), (pg\<lparr>epg_pool := Some pool\<rparr>, w2))))))"

definition epg_Ping :: "('q, 'cfg, 'pool, 'tx, 'w) pgdrv \<Rightarrow> ('pool, 'w) epgdb \<Rightarrow> unit res \<times> ('pool, 'w) epgdb" where
  "epg_Ping D s =
     (case s of (pg, w) \<Rightarrow>
        (case epg_pool pg of
           None \<Rightarrow> (Panic, (pg, w))
         | Some pool \<Rightarrow> (let (r, w') = pool_ping D pool w in (r, (pg, w')))))"

definition epg_Exec :: "('q, 'cfg, 'pool, 'tx, 'w) pgdrv \<Rightarrow> 'q \<Rightarrow> ('pool, 'w) epgdb \<Rightarrow> unit res \<times> ('pool, 'w) epgdb" where
  "epg_Exec D query s =
     (case s of (pg, w) \<Rightarrow>
        (case epg_pool pg of
           None \<Rightarrow> (Panic, (pg, w))
         | Some pool \<Rightarrow> (let (r, w') = pool_exec D pool query w in (r, (pg, w')))))"

definition epg_BeginTx :: "('q, 'cfg, 'pool, 'tx, 'w) pgdrv \<Rightarrow> ('pool, 'w) epgdb \<Rightarrow> 'tx res \<times> ('pool, 'w) epgdb" where
  "epg_BeginTx D s =
     (case s of (pg, w) \<Rightarrow>
        (case epg_pool pg of
           None \<Rightarrow> (Panic, (pg, w))
         | Some pool \<Rightarrow> (let (r, w') = pool_begin D pool w in (r, (pg, w')))))"

definition epg_SelectAll :: "('q, 'cfg, 'pool, 'tx, 'w) pgdrv \<Rightarrow> 'q \<Rightarrow> ('pool, 'w) epgdb \<Rightarrow> row list res" where
  "epg_SelectAll D query s =
     (case epg_pool (fst s) of
        None \<Rightarrow> Panic
      | Some pool \<Rightarrow>
          (case scan_all D pool query (snd s) of
             Err err \<Rightarrow> if not_found D err then Ok [] else Err err
           | Panic \<Rightarrow> Panic
           | Ok rs \<Rightarrow> Ok rs))"

definition epg_Select :: "('q, 'cfg, 'pool, 'tx, 'w) pgdrv \<Rightarrow> 'q \<Rightarrow> ('pool, 'w) epgdb \<Rightarrow> row option res" where
  "epg_Select D query s =
     (case epg_pool (fst s) of
        None \<Rightarrow> Panic
      | Some pool \<Rightarrow>
          (case scan_one D pool query (snd s) of
             Err err \<Rightarrow> if not_found D err then Ok None else Err err
           | Panic \<Rightarrow> Panic
           | Ok r \<Rightarrow> Ok (Some r)))"

definition epg_Disconnect :: "('q, 'cfg, 'pool, 'tx, 'w) pgdrv \<Rightarrow> ('pool, 'w) epgdb \<Rightarrow> unit res \<times> ('pool, 'w) epgdb" where
  "epg_Disconnect D s =
     (case s of (pg, w) \<Rightarrow>
        (case epg_pool pg of
           None \<Rightarrow> (Ok (), (pg, w))
         | Some pool \<Rightarrow> (Ok (), (pg, pool_close D pool w))))"

section \<open>The shared layer\<close>

text \<open>The same layer as a value of \<open>PgDatabase\<close>, with which every call commutes.\<close>

definition epg_dbconfig :: "epg_config \<Rightarrow> db_config" where
  "epg_dbconfig c = \<lparr>dc_DBHost = epg_DBHost c, dc_DBPort = epg_DBPort c, dc_DBName = epg_DBName c,
     dc_DBUser = epg_DBUser c, dc_DBPassword = epg_DBPassword c, dc_DBSchema = epg_DBSchema c,
     dc_DBSSLMode = '''', dc_MaxConnections = epg_MaxConnections c, dc_MinConnections = epg_MinConnections c,
     dc_MaxConnectionLifetime = epg_MaxConnectionLifetime c, dc_MaxConnIdleTime = epg_MaxConnIdleTime c, dc_HealthCheckPeriod = epg_HealthCheckPeriod c\<rparr>"

definition epg_lift :: "('pool, 'w) epgdb \<Rightarrow> ('pool, 'w) pgdb" where
  "epg_lift s = (\<lparr>pg_connStr = epg_connStr (fst s), pg_pool = epg_pool (fst s), pg_config = epg_dbconfig (epg_cfg (fst s))\<rparr>, snd s)"

lemma epg_lift_simps [simp]:
  "pg_connStr (fst (epg_lift s)) = epg_connStr (fst s)" "pg_pool (fst (epg_lift s)) = epg_pool (fst s)"
  "snd (epg_lift s) = snd s" "pg_settings (epg_dbconfig c) = epg_settings c"
  by (simp_all add: epg_lift_def epg_dbconfig_def epg_settings_def pg_settings_def)

lemma epg_commutes:
  "pg_Connect D (epg_lift s) = map_prod id epg_lift (epg_Connect D s)"
  "pg_Ping D (epg_lift s) = map_prod id epg_lift (epg_Ping D s)"
  "pg_Exec D q (epg_lift s) = map_prod id epg_lift (epg_Exec D q s)"
  "pg_BeginTx D (epg_lift s) = map_prod id epg_lift (epg_BeginTx D s)"
  "pg_SelectAll D q (epg_lift s) = epg_SelectAll D q s" "pg_Select D q (epg_lift s) = epg_Select D q s"
  "pg_Disconnect D (epg_lift s) = map_prod id epg_lift (epg_Disconnect D s)"
proof -
  obtain pg w where s: "s = (pg, w)" by (cases s)
  show "pg_Connect D (epg_lift s) = map_prod id epg_lift (epg_Connect D s)"
    by (simp add: s epg_lift_def pg_Connect_def epg_Connect_def split: res.split prod.split)
  show "pg_Ping D (epg_lift s) = map_prod id epg_lift (epg_Ping D s)"
    "pg_Exec D q (epg_lift s) = map_prod id epg_lift (epg_Exec D q s)"
    "pg_BeginTx D (epg_lift s) = map_prod id epg_lift (epg_BeginTx D s)"
    "pg_Disconnect D (epg_lift s) = map_prod id epg_lift (epg_Disconnect D s)"
    by (simp_all add: s epg_lift_def pg_defs epg_Ping_def epg_Exec_def epg_BeginTx_def epg_Disconnect_def split: option.split prod.split)
  show "pg_SelectAll D q (epg_lift s) = epg_SelectAll D q s" "pg_Select D q (epg_lift s) = epg_Select D q s"
    by (simp_all add: s epg_lift_def pg_SelectAll_def epg_SelectAll_def pg_Select_def epg_Select_def split: option.split)
qed

text \<open>So the package provides the interface \<open>database\<close> on its own layer.\<close>

interpretation epgdb: sql_database pgenv_ok "\<lambda>env s. pg_ready env (epg_lift s)" "\<lambda>env s. pg_tables env (epg_lift s)"
  "\<lambda>env. gh_coll (snd env)" "\<lambda>env. gh_pk (snd env)" pg_renders "\<lambda>env. epg_Exec (fst env)"
  "\<lambda>env. epg_Select (fst env)" "\<lambda>env. epg_SelectAll (fst env)"
proof unfold_locales
  fix env :: "('q, 'cfg, 'pool, 'tx, 'w) pgenv" and st q s r s'
  assume rely: "pgenv_ok env" "pg_ready env (epg_lift s)"
  note commutes = epg_commutes [where D = "fst env" and s = s]
  show "pg_ready env (epg_lift s')" if "pg_renders env st q" "epg_Exec (fst env) q s = (r, s')"
    using pgdb.exec_ready [OF rely that(1), of r] that(2) by (simp add: commutes)
  show "pg_tables env (epg_lift s') = exec_stmt (gh_coll (snd env)) st (pg_tables env (epg_lift s))"
    if "pg_renders env st q" "epg_Exec (fst env) q s = (Ok (), s')"
    using pgdb.exec_ok [OF rely that(1)] that(2) by (simp add: commutes)
  show "pg_tables env (epg_lift s') = pg_tables env (epg_lift s) \<or>
      pg_tables env (epg_lift s') = exec_stmt (gh_coll (snd env)) st (pg_tables env (epg_lift s))"
    if "pg_renders env st q" "epg_Exec (fst env) q s = (r, s')" "r \<noteq> Ok ()"
    using pgdb.exec_fail [OF rely that(1), of r "epg_lift s'"] that(2,3) by (simp add: commutes)
  show "sel_result (gh_coll (snd env)) sl (pg_tables env (epg_lift s) (sel_from sl)) (case x of None \<Rightarrow> [] | Some r \<Rightarrow> [r])"
    if "pg_renders env (Select sl) q" "epg_Select (fst env) q s = Ok x" for sl x
    using pgdb.select_ok [OF rely that(1)] that(2) by (simp add: commutes)
  show "sel_result (gh_coll (snd env)) sl (pg_tables env (epg_lift s) (sel_from sl)) rs"
    if "pg_renders env (Select sl) q" "epg_SelectAll (fst env) q s = Ok rs" for sl rs
    using pgdb.select_all_ok [OF rely that(1)] that(2) by (simp add: commutes)
  show "keyed (gh_pk (snd env) t) (pg_tables env (epg_lift s) t)" if "gh_pk (snd env) t \<noteq> []" for t
    using pgdb.pk_keyed [OF rely that] .
qed

end
