(* ===== verification/PgOffsetLayer.thy ===== *)
theory PgOffsetLayer
  imports SqlDatabase
begin

text \<open>
  \<open>offsetstore/postgres/internal/postgres.go\<close> and \<open>config.go\<close>: the offset store's own copy of the
  layer over the pgx pool, which its test kit uses too. The constructor of its configuration
  takes no schema.
\<close>

section \<open>Configuration\<close>

record opg_config =
  opg_DBHost :: string
  opg_DBPort :: i64
  opg_DBName :: string
  opg_DBUser :: string
  opg_DBPassword :: string
  opg_DBSchema :: string
  opg_MaxConnections :: i64
  opg_MinConnections :: i64
  opg_MaxConnectionLifetime :: i64
  opg_MaxConnIdleTime :: i64
  opg_HealthCheckPeriod :: i64

definition opg_NewConfig :: "string \<Rightarrow> i64 \<Rightarrow> string \<Rightarrow> string \<Rightarrow> string \<Rightarrow> opg_config" where
  "opg_NewConfig host port user password dbName =
     \<lparr>opg_DBHost = host, opg_DBPort = port, opg_DBName = dbName, opg_DBUser = user, opg_DBPassword = password,
      opg_DBSchema = '''', opg_MaxConnections = 4, opg_MinConnections = 0, opg_MaxConnectionLifetime = Hour,
      opg_MaxConnIdleTime = 30 * Minute, opg_HealthCheckPeriod = Minute\<rparr>"

definition opg_createConnectionString ::
  "string \<Rightarrow> i64 \<Rightarrow> string \<Rightarrow> string \<Rightarrow> string \<Rightarrow> string \<Rightarrow> string" where
  "opg_createConnectionString host port name user password schema =
     (let info = ''host='' @ host @ '' port='' @ fmt_i64 port @ '' user='' @ user @
                 '' dbname='' @ name @ '' sslmode=disable'';
          info = (if password \<noteq> '''' then info @ '' password='' @ password else info);
          info = (if schema \<noteq> '''' then info @ '' search_path='' @ schema else info)
      in info)"

section \<open>The layer\<close>

record 'pool opg_postgres =
  opg_connStr :: string
  opg_pool :: "'pool option"
  opg_cfg :: opg_config

type_synonym ('pool, 'w) opgdb = "'pool opg_postgres \<times> 'w"

definition opg_New :: "opg_config \<Rightarrow> 'pool opg_postgres" where
  "opg_New config =
     \<lparr>opg_connStr = opg_createConnectionString (opg_DBHost config) (opg_DBPort config) (opg_DBName config)
        (opg_DBUser config) (opg_DBPassword config) (opg_DBSchema config), opg_pool = None, opg_cfg = config\<rparr>"

definition opg_settings :: "opg_config \<Rightarrow> pool_settings" where
  "opg_settings c =
     \<lparr>po_MaxConns = ucast (opg_MaxConnections c), po_MaxConnLifetime = opg_MaxConnectionLifetime c,
      po_MaxConnIdleTime = opg_MaxConnIdleTime c, po_MinConns = ucast (opg_MinConnections c),
      po_HealthCheckPeriod = opg_HealthCheckPeriod c\<rparr>"

definition opg_Connect :: "('q, 'cfg, 'pool, 'tx, 'w) pgdrv \<Rightarrow> ('pool, 'w) opgdb \<Rightarrow> unit res \<times> ('pool, 'w) opgdb" where
  "opg_Connect D s =
     (case s of (pg, w) \<Rightarrow>
        (case parse_config D (opg_connStr pg) of
           Err e \<Rightarrow> (Err (ErrWrap ''failed to parse connection string'' e), (pg, w))
         | Panic \<Rightarrow> (Panic, (pg, w))
         | Ok config \<Rightarrow>
             (case new_pool D (set_config D (opg_settings (opg_cfg pg)) config) w of
                (Err e, w1) \<Rightarrow> (Err (ErrWrap ''failed to create the connection pool'' e), (pg, w1))
              | (Panic, w1) \<Rightarrow> (Panic, (pg, w1))
              | (Ok pool, w1) \<Rightarrow>
                  (case pool_ping D pool w1 of
                     (Err e, w2) \<Rightarrow> (Err (ErrWrap ''failed to ping the database connection'' e), (pg, w2))
                   | (Panic, w2) \<Rightarrow> (Panic, (pg, w2))
                   | (Ok _, w2) \<Rightarrow> (Ok (), (pg\<lparr>opg_pool := Some pool\<rparr>, w2))))))"

definition opg_Ping :: "('q, 'cfg, 'pool, 'tx, 'w) pgdrv \<Rightarrow> ('pool, 'w) opgdb \<Rightarrow> unit res \<times> ('pool, 'w) opgdb" where
  "opg_Ping D s =
     (case s of (pg, w) \<Rightarrow>
        (case opg_pool pg of
           None \<Rightarrow> (Panic, (pg, w))
         | Some pool \<Rightarrow> (let (r, w') = pool_ping D pool w in (r, (pg, w')))))"

definition opg_Exec :: "('q, 'cfg, 'pool, 'tx, 'w) pgdrv \<Rightarrow> 'q \<Rightarrow> ('pool, 'w) opgdb \<Rightarrow> unit res \<times> ('pool, 'w) opgdb" where
  "opg_Exec D query s =
     (case s of (pg, w) \<Rightarrow>
        (case opg_pool pg of
           None \<Rightarrow> (Panic, (pg, w))
         | Some pool \<Rightarrow> (let (r, w') = pool_exec D pool query w in (r, (pg, w')))))"

definition opg_BeginTx :: "('q, 'cfg, 'pool, 'tx, 'w) pgdrv \<Rightarrow> ('pool, 'w) opgdb \<Rightarrow> 'tx res \<times> ('pool, 'w) opgdb" where
  "opg_BeginTx D s =
     (case s of (pg, w) \<Rightarrow>
        (case opg_pool pg of
           None \<Rightarrow> (Panic, (pg, w))
         | Some pool \<Rightarrow> (let (r, w') = pool_begin D pool w in (r, (pg, w')))))"

definition opg_SelectAll :: "('q, 'cfg, 'pool, 'tx, 'w) pgdrv \<Rightarrow> 'q \<Rightarrow> ('pool, 'w) opgdb \<Rightarrow> row list res" where
  "opg_SelectAll D query s =
     (case opg_pool (fst s) of
        None \<Rightarrow> Panic
      | Some pool \<Rightarrow>
          (case scan_all D pool query (snd s) of
             Err err \<Rightarrow> if not_found D err then Ok [] else Err err
           | Panic \<Rightarrow> Panic
           | Ok rs \<Rightarrow> Ok rs))"

definition opg_Select :: "('q, 'cfg, 'pool, 'tx, 'w) pgdrv \<Rightarrow> 'q \<Rightarrow> ('pool, 'w) opgdb \<Rightarrow> row option res" where
  "opg_Select D query s =
     (case opg_pool (fst s) of
        None \<Rightarrow> Panic
      | Some pool \<Rightarrow>
          (case scan_one D pool query (snd s) of
             Err err \<Rightarrow> if not_found D err then Ok None else Err err
           | Panic \<Rightarrow> Panic
           | Ok r \<Rightarrow> Ok (Some r)))"

definition opg_Disconnect :: "('q, 'cfg, 'pool, 'tx, 'w) pgdrv \<Rightarrow> ('pool, 'w) opgdb \<Rightarrow> unit res \<times> ('pool, 'w) opgdb" where
  "opg_Disconnect D s =
     (case s of (pg, w) \<Rightarrow>
        (case opg_pool pg of
           None \<Rightarrow> (Ok (), (pg, w))
         | Some pool \<Rightarrow> (Ok (), (pg, pool_close D pool w))))"

section \<open>The shared layer\<close>

text \<open>The same layer as a value of \<open>PgDatabase\<close>, with which every call commutes.\<close>

definition opg_dbconfig :: "opg_config \<Rightarrow> db_config" where
  "opg_dbconfig c = \<lparr>dc_DBHost = opg_DBHost c, dc_DBPort = opg_DBPort c, dc_DBName = opg_DBName c,
     dc_DBUser = opg_DBUser c, dc_DBPassword = opg_DBPassword c, dc_DBSchema = opg_DBSchema c,
     dc_DBSSLMode = '''', dc_MaxConnections = opg_MaxConnections c, dc_MinConnections = opg_MinConnections c,
     dc_MaxConnectionLifetime = opg_MaxConnectionLifetime c, dc_MaxConnIdleTime = opg_MaxConnIdleTime c, dc_HealthCheckPeriod = opg_HealthCheckPeriod c\<rparr>"

definition opg_lift :: "('pool, 'w) opgdb \<Rightarrow> ('pool, 'w) pgdb" where
  "opg_lift s = (\<lparr>pg_connStr = opg_connStr (fst s), pg_pool = opg_pool (fst s), pg_config = opg_dbconfig (opg_cfg (fst s))\<rparr>, snd s)"

lemma opg_lift_simps [simp]:
  "pg_connStr (fst (opg_lift s)) = opg_connStr (fst s)" "pg_pool (fst (opg_lift s)) = opg_pool (fst s)"
  "snd (opg_lift s) = snd s" "pg_settings (opg_dbconfig c) = opg_settings c"
  by (simp_all add: opg_lift_def opg_dbconfig_def opg_settings_def pg_settings_def)

lemma opg_commutes:
  "pg_Connect D (opg_lift s) = map_prod id opg_lift (opg_Connect D s)"
  "pg_Ping D (opg_lift s) = map_prod id opg_lift (opg_Ping D s)"
  "pg_Exec D q (opg_lift s) = map_prod id opg_lift (opg_Exec D q s)"
  "pg_BeginTx D (opg_lift s) = map_prod id opg_lift (opg_BeginTx D s)"
  "pg_SelectAll D q (opg_lift s) = opg_SelectAll D q s" "pg_Select D q (opg_lift s) = opg_Select D q s"
  "pg_Disconnect D (opg_lift s) = map_prod id opg_lift (opg_Disconnect D s)"
proof -
  obtain pg w where s: "s = (pg, w)" by (cases s)
  show "pg_Connect D (opg_lift s) = map_prod id opg_lift (opg_Connect D s)"
    by (simp add: s opg_lift_def pg_Connect_def opg_Connect_def split: res.split prod.split)
  show "pg_Ping D (opg_lift s) = map_prod id opg_lift (opg_Ping D s)"
    "pg_Exec D q (opg_lift s) = map_prod id opg_lift (opg_Exec D q s)"
    "pg_BeginTx D (opg_lift s) = map_prod id opg_lift (opg_BeginTx D s)"
    "pg_Disconnect D (opg_lift s) = map_prod id opg_lift (opg_Disconnect D s)"
    by (simp_all add: s opg_lift_def pg_defs opg_Ping_def opg_Exec_def opg_BeginTx_def opg_Disconnect_def split: option.split prod.split)
  show "pg_SelectAll D q (opg_lift s) = opg_SelectAll D q s" "pg_Select D q (opg_lift s) = opg_Select D q s"
    by (simp_all add: s opg_lift_def pg_SelectAll_def opg_SelectAll_def pg_Select_def opg_Select_def split: option.split)
qed

text \<open>So the package provides the interface \<open>database\<close> on its own layer.\<close>

interpretation opgdb: sql_database pgenv_ok "\<lambda>env s. pg_ready env (opg_lift s)" "\<lambda>env s. pg_tables env (opg_lift s)"
  "\<lambda>env. gh_coll (snd env)" "\<lambda>env. gh_pk (snd env)" pg_renders "\<lambda>env. opg_Exec (fst env)"
  "\<lambda>env. opg_Select (fst env)" "\<lambda>env. opg_SelectAll (fst env)"
proof unfold_locales
  fix env :: "('q, 'cfg, 'pool, 'tx, 'w) pgenv" and st q s r s'
  assume rely: "pgenv_ok env" "pg_ready env (opg_lift s)"
  note commutes = opg_commutes [where D = "fst env" and s = s]
  show "pg_ready env (opg_lift s')" if "pg_renders env st q" "opg_Exec (fst env) q s = (r, s')"
    using pgdb.exec_ready [OF rely that(1), of r] that(2) by (simp add: commutes)
  show "pg_tables env (opg_lift s') = exec_stmt (gh_coll (snd env)) st (pg_tables env (opg_lift s))"
    if "pg_renders env st q" "opg_Exec (fst env) q s = (Ok (), s')"
    using pgdb.exec_ok [OF rely that(1)] that(2) by (simp add: commutes)
  show "pg_tables env (opg_lift s') = pg_tables env (opg_lift s) \<or>
      pg_tables env (opg_lift s') = exec_stmt (gh_coll (snd env)) st (pg_tables env (opg_lift s))"
    if "pg_renders env st q" "opg_Exec (fst env) q s = (r, s')" "r \<noteq> Ok ()"
    using pgdb.exec_fail [OF rely that(1), of r "opg_lift s'"] that(2,3) by (simp add: commutes)
  show "sel_result (gh_coll (snd env)) sl (pg_tables env (opg_lift s) (sel_from sl)) (case x of None \<Rightarrow> [] | Some r \<Rightarrow> [r])"
    if "pg_renders env (Select sl) q" "opg_Select (fst env) q s = Ok x" for sl x
    using pgdb.select_ok [OF rely that(1)] that(2) by (simp add: commutes)
  show "sel_result (gh_coll (snd env)) sl (pg_tables env (opg_lift s) (sel_from sl)) rs"
    if "pg_renders env (Select sl) q" "opg_SelectAll (fst env) q s = Ok rs" for sl rs
    using pgdb.select_all_ok [OF rely that(1)] that(2) by (simp add: commutes)
  show "keyed (gh_pk (snd env) t) (pg_tables env (opg_lift s) t)" if "gh_pk (snd env) t \<noteq> []" for t
    using pgdb.pk_keyed [OF rely that] .
qed

end
