(* ===== verification/PgSnapshotLayer.thy ===== *)
theory PgSnapshotLayer
  imports SqlDatabase
begin

text \<open>
  \<open>snapshotstore/postgres/postgres.go\<close>, \<open>db_config.go\<close> and \<open>config.go\<close>: the snapshot store's own
  copy of the layer over the pgx pool and of its configuration.
\<close>

section \<open>Configuration\<close>

record spg_config =
  spg_DBHost :: string
  spg_DBPort :: i64
  spg_DBName :: string
  spg_DBUser :: string
  spg_DBPassword :: string
  spg_DBSchema :: string
  spg_DBSSLMode :: string
  spg_MaxConnections :: i64
  spg_MinConnections :: i64
  spg_MaxConnectionLifetime :: i64
  spg_MaxConnIdleTime :: i64
  spg_HealthCheckPeriod :: i64

text \<open>The public \<open>Config\<close> of \<open>config.go\<close>.\<close>

record spg_public =
  sc_DBHost :: string
  sc_DBPort :: i64
  sc_DBName :: string
  sc_DBUser :: string
  sc_DBPassword :: string
  sc_DBSchema :: string
  sc_DBSSLMode :: string
  sc_MaxConnections :: i64
  sc_MinConnections :: i64
  sc_MaxConnectionLifetime :: i64
  sc_MaxConnIdleTime :: i64
  sc_HealthCheckPeriod :: i64

definition spg_sanitize :: "spg_config \<Rightarrow> spg_config" where
  "spg_sanitize c =
     (let c = (if spg_DBSSLMode c = '''' then c\<lparr>spg_DBSSLMode := ''disable''\<rparr> else c);
          c = (if spg_MaxConnections c = 0 then c\<lparr>spg_MaxConnections := 4\<rparr> else c);
          c = (if spg_MaxConnectionLifetime c = 0 then c\<lparr>spg_MaxConnectionLifetime := Hour\<rparr> else c);
          c = (if spg_MaxConnIdleTime c = 0 then c\<lparr>spg_MaxConnIdleTime := 30 * Minute\<rparr> else c);
          c = (if spg_HealthCheckPeriod c = 0 then c\<lparr>spg_HealthCheckPeriod := Minute\<rparr> else c)
      in c)"

definition spg_newConfig :: "spg_public \<Rightarrow> spg_config" where
  "spg_newConfig config =
     spg_sanitize \<lparr>spg_DBHost = sc_DBHost config, spg_DBPort = sc_DBPort config,
       spg_DBName = sc_DBName config, spg_DBUser = sc_DBUser config,
       spg_DBPassword = sc_DBPassword config, spg_DBSchema = sc_DBSchema config,
       spg_DBSSLMode = sc_DBSSLMode config, spg_MaxConnections = sc_MaxConnections config,
       spg_MinConnections = sc_MinConnections config, spg_MaxConnectionLifetime = sc_MaxConnectionLifetime config,
       spg_MaxConnIdleTime = sc_MaxConnIdleTime config, spg_HealthCheckPeriod = sc_HealthCheckPeriod config\<rparr>"

definition spg_createConnectionString :: "spg_config \<Rightarrow> string" where
  "spg_createConnectionString config =
     (let info = ''host='' @ spg_DBHost config @ '' port='' @ fmt_i64 (spg_DBPort config) @
                 '' user='' @ spg_DBUser config @ '' dbname='' @ spg_DBName config @
                 '' sslmode='' @ spg_DBSSLMode config;
          info = (if spg_DBPassword config \<noteq> '''' then info @ '' password='' @ spg_DBPassword config else info);
          info = (if spg_DBSchema config \<noteq> '''' then info @ '' search_path='' @ spg_DBSchema config else info)
      in info)"

section \<open>The layer\<close>

record 'pool spg_postgres =
  spg_connStr :: string
  spg_pool :: "'pool option"
  spg_cfg :: spg_config

type_synonym ('pool, 'w) spgdb = "'pool spg_postgres \<times> 'w"

definition spg_newDatabase :: "spg_config \<Rightarrow> 'pool spg_postgres" where
  "spg_newDatabase config =
     \<lparr>spg_connStr = spg_createConnectionString config, spg_pool = None, spg_cfg = config\<rparr>"

definition spg_settings :: "spg_config \<Rightarrow> pool_settings" where
  "spg_settings c =
     \<lparr>po_MaxConns = ucast (spg_MaxConnections c), po_MaxConnLifetime = spg_MaxConnectionLifetime c,
      po_MaxConnIdleTime = spg_MaxConnIdleTime c, po_MinConns = ucast (spg_MinConnections c),
      po_HealthCheckPeriod = spg_HealthCheckPeriod c\<rparr>"

definition spg_Connect :: "('q, 'cfg, 'pool, 'tx, 'w) pgdrv \<Rightarrow> ('pool, 'w) spgdb \<Rightarrow> unit res \<times> ('pool, 'w) spgdb" where
  "spg_Connect D s =
     (case s of (pg, w) \<Rightarrow>
        (case parse_config D (spg_connStr pg) of
           Err e \<Rightarrow> (Err (ErrWrap ''failed to parse connection string'' e), (pg, w))
         | Panic \<Rightarrow> (Panic, (pg, w))
         | Ok config \<Rightarrow>
             (case new_pool D (set_config D (spg_settings (spg_cfg pg)) config) w of
                (Err e, w1) \<Rightarrow> (Err (ErrWrap ''failed to create the connection pool'' e), (pg, w1))
              | (Panic, w1) \<Rightarrow> (Panic, (pg, w1))
              | (Ok pool, w1) \<Rightarrow>
                  (case pool_ping D pool w1 of
                     (Err e, w2) \<Rightarrow> (Err (ErrWrap ''failed to ping the database connection'' e), (pg, w2))
                   | (Panic, w2) \<Rightarrow> (Panic, (pg, w2))
                   | (Ok _, w2) \<Rightarrow> (Ok (), (pg\<lparr>spg_pool := Some pool\<rparr>, w2))))))"

definition spg_Ping :: "('q, 'cfg, 'pool, 'tx, 'w) pgdrv \<Rightarrow> ('pool, 'w) spgdb \<Rightarrow> unit res \<times> ('pool, 'w) spgdb" where
  "spg_Ping D s =
     (case s of (pg, w) \<Rightarrow>
        (case spg_pool pg of
           None \<Rightarrow> (Panic, (pg, w))
         | Some pool \<Rightarrow> (let (r, w') = pool_ping D pool w in (r, (pg, w')))))"

definition spg_Exec :: "('q, 'cfg, 'pool, 'tx, 'w) pgdrv \<Rightarrow> 'q \<Rightarrow> ('pool, 'w) spgdb \<Rightarrow> unit res \<times> ('pool, 'w) spgdb" where
  "spg_Exec D query s =
     (case s of (pg, w) \<Rightarrow>
        (case spg_pool pg of
           None \<Rightarrow> (Panic, (pg, w))
         | Some pool \<Rightarrow> (let (r, w') = pool_exec D pool query w in (r, (pg, w')))))"

definition spg_SelectAll :: "('q, 'cfg, 'pool, 'tx, 'w) pgdrv \<Rightarrow> 'q \<Rightarrow> ('pool, 'w) spgdb \<Rightarrow> row list res" where
  "spg_SelectAll D query s =
     (case spg_pool (fst s) of
        None \<Rightarrow> Panic
      | Some pool \<Rightarrow>
          (case scan_all D pool query (snd s) of
             Err err \<Rightarrow> if not_found D err then Ok [] else Err err
           | Panic \<Rightarrow> Panic
           | Ok rs \<Rightarrow> Ok rs))"

definition spg_Select :: "('q, 'cfg, 'pool, 'tx, 'w) pgdrv \<Rightarrow> 'q \<Rightarrow> ('pool, 'w) spgdb \<Rightarrow> row option res" where
  "spg_Select D query s =
     (case spg_pool (fst s) of
        None \<Rightarrow> Panic
      | Some pool \<Rightarrow>
          (case scan_one D pool query (snd s) of
             Err err \<Rightarrow> if not_found D err then Ok None else Err err
           | Panic \<Rightarrow> Panic
           | Ok r \<Rightarrow> Ok (Some r)))"

definition spg_Disconnect :: "('q, 'cfg, 'pool, 'tx, 'w) pgdrv \<Rightarrow> ('pool, 'w) spgdb \<Rightarrow> unit res \<times> ('pool, 'w) spgdb" where
  "spg_Disconnect D s =
     (case s of (pg, w) \<Rightarrow>
        (case spg_pool pg of
           None \<Rightarrow> (Ok (), (pg, w))
         | Some pool \<Rightarrow> (Ok (), (pg, pool_close D pool w))))"

section \<open>The shared layer\<close>

text \<open>The same layer as a value of \<open>PgDatabase\<close>, with which every call commutes.\<close>

definition spg_dbconfig :: "spg_config \<Rightarrow> db_config" where
  "spg_dbconfig c = \<lparr>dc_DBHost = spg_DBHost c, dc_DBPort = spg_DBPort c, dc_DBName = spg_DBName c,
     dc_DBUser = spg_DBUser c, dc_DBPassword = spg_DBPassword c, dc_DBSchema = spg_DBSchema c,
     dc_DBSSLMode = spg_DBSSLMode c, dc_MaxConnections = spg_MaxConnections c, dc_MinConnections = spg_MinConnections c,
     dc_MaxConnectionLifetime = spg_MaxConnectionLifetime c, dc_MaxConnIdleTime = spg_MaxConnIdleTime c, dc_HealthCheckPeriod = spg_HealthCheckPeriod c\<rparr>"

definition spg_lift :: "('pool, 'w) spgdb \<Rightarrow> ('pool, 'w) pgdb" where
  "spg_lift s = (\<lparr>pg_connStr = spg_connStr (fst s), pg_pool = spg_pool (fst s), pg_config = spg_dbconfig (spg_cfg (fst s))\<rparr>, snd s)"

lemma spg_lift_simps [simp]:
  "pg_connStr (fst (spg_lift s)) = spg_connStr (fst s)" "pg_pool (fst (spg_lift s)) = spg_pool (fst s)"
  "snd (spg_lift s) = snd s" "pg_settings (spg_dbconfig c) = spg_settings c"
  by (simp_all add: spg_lift_def spg_dbconfig_def spg_settings_def pg_settings_def)

lemma spg_commutes:
  "pg_Connect D (spg_lift s) = map_prod id spg_lift (spg_Connect D s)"
  "pg_Ping D (spg_lift s) = map_prod id spg_lift (spg_Ping D s)"
  "pg_Exec D q (spg_lift s) = map_prod id spg_lift (spg_Exec D q s)"
  "pg_SelectAll D q (spg_lift s) = spg_SelectAll D q s" "pg_Select D q (spg_lift s) = spg_Select D q s"
  "pg_Disconnect D (spg_lift s) = map_prod id spg_lift (spg_Disconnect D s)"
proof -
  obtain pg w where s: "s = (pg, w)" by (cases s)
  show "pg_Connect D (spg_lift s) = map_prod id spg_lift (spg_Connect D s)"
    by (simp add: s spg_lift_def pg_Connect_def spg_Connect_def split: res.split prod.split)
  show "pg_Ping D (spg_lift s) = map_prod id spg_lift (spg_Ping D s)"
    "pg_Exec D q (spg_lift s) = map_prod id spg_lift (spg_Exec D q s)"
    "pg_Disconnect D (spg_lift s) = map_prod id spg_lift (spg_Disconnect D s)"
    by (simp_all add: s spg_lift_def pg_defs spg_Ping_def spg_Exec_def spg_Disconnect_def split: option.split prod.split)
  show "pg_SelectAll D q (spg_lift s) = spg_SelectAll D q s" "pg_Select D q (spg_lift s) = spg_Select D q s"
    by (simp_all add: s spg_lift_def pg_SelectAll_def spg_SelectAll_def pg_Select_def spg_Select_def split: option.split)
qed

text \<open>So the package provides the interface \<open>database\<close> on its own layer.\<close>

interpretation spgdb: sql_database pgenv_ok "\<lambda>env s. pg_ready env (spg_lift s)" "\<lambda>env s. pg_tables env (spg_lift s)"
  "\<lambda>env. gh_coll (snd env)" "\<lambda>env. gh_pk (snd env)" pg_renders "\<lambda>env. spg_Exec (fst env)"
  "\<lambda>env. spg_Select (fst env)" "\<lambda>env. spg_SelectAll (fst env)"
proof unfold_locales
  fix env :: "('q, 'cfg, 'pool, 'tx, 'w) pgenv" and st q s r s'
  assume rely: "pgenv_ok env" "pg_ready env (spg_lift s)"
  note commutes = spg_commutes [where D = "fst env" and s = s]
  show "pg_ready env (spg_lift s')" if "pg_renders env st q" "spg_Exec (fst env) q s = (r, s')"
    using pgdb.exec_ready [OF rely that(1), of r] that(2) by (simp add: commutes)
  show "pg_tables env (spg_lift s') = exec_stmt (gh_coll (snd env)) st (pg_tables env (spg_lift s))"
    if "pg_renders env st q" "spg_Exec (fst env) q s = (Ok (), s')"
    using pgdb.exec_ok [OF rely that(1)] that(2) by (simp add: commutes)
  show "pg_tables env (spg_lift s') = pg_tables env (spg_lift s) \<or>
      pg_tables env (spg_lift s') = exec_stmt (gh_coll (snd env)) st (pg_tables env (spg_lift s))"
    if "pg_renders env st q" "spg_Exec (fst env) q s = (r, s')" "r \<noteq> Ok ()"
    using pgdb.exec_fail [OF rely that(1), of r "spg_lift s'"] that(2,3) by (simp add: commutes)
  show "sel_result (gh_coll (snd env)) sl (pg_tables env (spg_lift s) (sel_from sl)) (case x of None \<Rightarrow> [] | Some r \<Rightarrow> [r])"
    if "pg_renders env (Select sl) q" "spg_Select (fst env) q s = Ok x" for sl x
    using pgdb.select_ok [OF rely that(1)] that(2) by (simp add: commutes)
  show "sel_result (gh_coll (snd env)) sl (pg_tables env (spg_lift s) (sel_from sl)) rs"
    if "pg_renders env (Select sl) q" "spg_SelectAll (fst env) q s = Ok rs" for sl rs
    using pgdb.select_all_ok [OF rely that(1)] that(2) by (simp add: commutes)
  show "keyed (gh_pk (snd env) t) (pg_tables env (spg_lift s) t)" if "gh_pk (snd env) t \<noteq> []" for t
    using pgdb.pk_keyed [OF rely that] .
qed

end
