(* ===== verification/LayerProps.thy ===== *)
theory LayerProps
  imports PgEventLayer PgOffsetLayer PgSnapshotLayer DurablePg EventsPg OffsetPg SnapshotPg
begin

text \<open>
  The four copies of \<open>postgres.go\<close>: the stores work on their own package's copy, and with the
  same settings all four connect in the same way.
\<close>

text \<open>What a call leaves that its caller can see: the result, the pool and the world.\<close>

definition layer_view :: "'r \<times> ('pool, 'w) pgdb \<Rightarrow> 'r \<times> 'pool option \<times> 'w" where
  "layer_view x = (fst x, pg_pool (fst (snd x)), snd (snd x))"

lemma pg_Connect_view:
  assumes "pg_connStr a = pg_connStr b" "pg_settings (pg_config a) = pg_settings (pg_config b)" "pg_pool a = pg_pool b"
  shows "layer_view (pg_Connect D (a, w)) = layer_view (pg_Connect D (b, w))"
  using assms by (simp add: layer_view_def pg_Connect_def split: res.split prod.split)

text \<open>The public configurations with the same connection settings, and nothing else set.\<close>

definition public_config :: "string \<Rightarrow> i64 \<Rightarrow> string \<Rightarrow> string \<Rightarrow> string \<Rightarrow> string \<Rightarrow> config" where
  "public_config host port name user password schema =
     \<lparr>cf_DBHost = host, cf_DBPort = port, cf_DBName = name, cf_DBUser = user, cf_DBPassword = password,
      cf_DBSchema = schema, cf_DBSSLMode = '''', cf_MaxConnections = 0, cf_MinConnections = 0,
      cf_MaxConnectionLifetime = 0, cf_MaxConnIdleTime = 0, cf_HealthCheckPeriod = 0\<rparr>"

definition snapshot_public :: "config \<Rightarrow> spg_public" where
  "snapshot_public c =
     \<lparr>sc_DBHost = cf_DBHost c, sc_DBPort = cf_DBPort c, sc_DBName = cf_DBName c, sc_DBUser = cf_DBUser c,
      sc_DBPassword = cf_DBPassword c, sc_DBSchema = cf_DBSchema c, sc_DBSSLMode = cf_DBSSLMode c,
      sc_MaxConnections = cf_MaxConnections c, sc_MinConnections = cf_MinConnections c,
      sc_MaxConnectionLifetime = cf_MaxConnectionLifetime c, sc_MaxConnIdleTime = cf_MaxConnIdleTime c,
      sc_HealthCheckPeriod = cf_HealthCheckPeriod c\<rparr>"

definition event_db :: "event_config \<Rightarrow> 'pool epg_postgres" where
  "event_db c = epg_newDatabase (epg_newConfig (ec_DBHost c) (ec_DBPort c) (ec_DBUser c) (ec_DBPassword c) (ec_DBName c) (ec_DBSchema c))"

definition offset_db :: "offset_config \<Rightarrow> 'pool opg_postgres" where
  "offset_db c = opg_New ((opg_NewConfig (oc_DBHost c) (oc_DBPort c) (oc_DBUser c) (oc_DBPassword c) (oc_DBName c))
     \<lparr>opg_DBSchema := oc_DBSchema c\<rparr>)"

lemma event_db_lift: "epg_lift (event_db c, w) = (st_db (pe_NewEventsStore c w'), w)"
  by (simp add: event_db_def epg_lift_def epg_newDatabase_def epg_newConfig_def epg_dbconfig_def
      epg_createConnectionString_def pe_NewEventsStore_def plain_newDatabase_def plain_newConfig_def
      plain_connectionString_def Let_def)

lemma offset_db_lift: "opg_lift (offset_db c, w) = (st_db (po_NewOffsetStore c w'), w)"
  by (simp add: offset_db_def opg_lift_def opg_New_def opg_NewConfig_def opg_dbconfig_def
      opg_createConnectionString_def po_NewOffsetStore_def plain_newDatabase_def NewConfig_def
      plain_connectionString_def Let_def)

lemma spg_sanitize_lift: "spg_dbconfig (spg_sanitize c) = sanitize (spg_dbconfig c)"
  by (cases "spg_DBSSLMode c = ''''"; cases "spg_MaxConnections c = 0"; cases "spg_MaxConnectionLifetime c = 0";
      cases "spg_MaxConnIdleTime c = 0"; cases "spg_HealthCheckPeriod c = 0")
    (simp_all add: spg_sanitize_def sanitize_def spg_dbconfig_def)

lemma spg_newConfig_lift: "spg_dbconfig (spg_newConfig (snapshot_public c)) = newConfig c"
  unfolding spg_newConfig_def newConfig_def spg_sanitize_lift by (simp add: spg_dbconfig_def snapshot_public_def)

lemma spg_connectionString_lift: "spg_createConnectionString c = createConnectionString (spg_dbconfig c)"
  by (simp add: spg_createConnectionString_def createConnectionString_def spg_dbconfig_def Let_def)

lemma snapshot_db_lift:
  "spg_lift (spg_newDatabase (spg_newConfig (snapshot_public c)), w) = (st_db (ps_NewSnapshotStore c w'), w)"
  by (simp add: spg_lift_def spg_newDatabase_def ps_NewSnapshotStore_def newDatabase_def
      spg_newConfig_lift spg_connectionString_lift)

text \<open>
  C29. The four packages connect alike: a store made from the same host, port, name, user,
  password and schema, with nothing else set, connects with the same connection string and the
  same pool settings, so its \<open>Connect\<close> has the same result, pool and effect in the durable, the
  event, the offset and the snapshot package, although each has its own copy of the layer and two
  of them fix the SSL mode and the pool settings in the code.
\<close>

theorem layers_agree:
  fixes D :: "('q, 'cfg, 'pool, 'tx, 'w) pgdrv" and w :: 'w
  shows "let cfg = public_config host port name user password schema;
      durable = layer_view (pg_Connect D (newDatabase (newConfig cfg), w)) in
    layer_view (map_prod id epg_lift (epg_Connect D (event_db
      \<lparr>ec_DBHost = host, ec_DBPort = port, ec_DBName = name, ec_DBUser = user, ec_DBPassword = password, ec_DBSchema = schema\<rparr>, w))) = durable \<and>
    layer_view (map_prod id opg_lift (opg_Connect D (offset_db
      \<lparr>oc_DBHost = host, oc_DBPort = port, oc_DBName = name, oc_DBUser = user, oc_DBPassword = password, oc_DBSchema = schema\<rparr>, w))) = durable \<and>
    layer_view (map_prod id spg_lift (spg_Connect D (spg_newDatabase (spg_newConfig (snapshot_public cfg)), w))) = durable"
  unfolding Let_def epg_commutes [symmetric] opg_commutes [symmetric] spg_commutes [symmetric]
    event_db_lift [where w' = w] offset_db_lift [where w' = w] snapshot_db_lift [where w' = w]
  by (intro conjI pg_Connect_view)
    (simp_all add: pe_NewEventsStore_def po_NewOffsetStore_def ps_NewSnapshotStore_def plain_newDatabase_def
      plain_newConfig_def NewConfig_def newDatabase_def newConfig_def sanitize_def public_config_def
      plain_connectionString_def createConnectionString_def pg_settings_def Let_def)

end
