(* ===== verification/NetAddr.thy ===== *)
theory NetAddr
  imports Strconv
begin

text \<open>
  Addresses as the Go standard library reads and writes them: \<open>net.JoinHostPort\<close>,
  \<open>net.SplitHostPort\<close> and \<open>strconv.Atoi\<close>, with the round trip the test kit relies on.
\<close>

section \<open>Positions of a byte in a string\<close>

fun index_byte :: "char \<Rightarrow> string \<Rightarrow> nat option" where
  "index_byte c [] = None"
| "index_byte c (x # xs) = (if x = c then Some 0 else map_option Suc (index_byte c xs))"

definition last_index_byte :: "char \<Rightarrow> string \<Rightarrow> nat option" where
  "last_index_byte c s = map_option (\<lambda>k. length s - 1 - k) (index_byte c (rev s))"

lemma index_byte_append: "c \<notin> set xs \<Longrightarrow> index_byte c (xs @ c # ys) = Some (length xs)"
  by (induction xs) auto

lemma last_index_byte_append: "c \<notin> set ys \<Longrightarrow> last_index_byte c (xs @ c # ys) = Some (length xs)"
  using index_byte_append [of c "rev ys" "rev xs"] by (simp add: last_index_byte_def)

section \<open>net\<close>

definition JoinHostPort :: "string \<Rightarrow> string \<Rightarrow> string" where
  "JoinHostPort host port =
     (if index_byte CHR '':'' host \<noteq> None then ''['' @ host @ '']:'' @ port else host @ '':'' @ port)"

definition addr_error :: "string \<Rightarrow> string \<Rightarrow> goerr" where
  "addr_error addr why = ErrExt (''address '' @ addr @ '': '' @ why)"

text \<open>The end of \<open>SplitHostPort\<close>: no bracket from \<open>j\<close> or \<open>k\<close> on, the port after the colon at \<open>i\<close>.\<close>

definition split_tail :: "string \<Rightarrow> string \<Rightarrow> nat \<Rightarrow> nat \<Rightarrow> nat \<Rightarrow> (string \<times> string) res" where
  "split_tail hostport host j k i =
     (if index_byte CHR ''['' (drop j hostport) \<noteq> None then Err (addr_error hostport ''unexpected '[' in address'')
      else if index_byte CHR '']'' (drop k hostport) \<noteq> None then Err (addr_error hostport ''unexpected ']' in address'')
      else Ok (host, drop (i + 1) hostport))"

definition SplitHostPort :: "string \<Rightarrow> (string \<times> string) res" where
  "SplitHostPort hostport =
     (case last_index_byte CHR '':'' hostport of
        None \<Rightarrow> Err (addr_error hostport ''missing port in address'')
      | Some i \<Rightarrow>
          if hostport ! 0 = CHR ''['' then
            (case index_byte CHR '']'' hostport of
               None \<Rightarrow> Err (addr_error hostport ''missing ']' in address'')
             | Some end \<Rightarrow>
                 if end + 1 = length hostport then Err (addr_error hostport ''missing port in address'')
                 else if end + 1 = i then split_tail hostport (take (end - 1) (drop 1 hostport)) 1 (end + 1) i
                 else if hostport ! (end + 1) = CHR '':'' then Err (addr_error hostport ''too many colons in address'')
                 else Err (addr_error hostport ''missing port in address''))
          else let host = take i hostport in
            if index_byte CHR '':'' host \<noteq> None then Err (addr_error hostport ''too many colons in address'')
            else split_tail hostport host 0 0 i)"

section \<open>strconv.Atoi\<close>

definition Atoi :: "string \<Rightarrow> i64 \<times> goerr option" where
  "Atoi s =
     (case ParseInt s of
        (n, None) \<Rightarrow> (n, None)
      | (n, Some ErrSyntax) \<Rightarrow> (n, Some (ErrExt ''strconv.Atoi: invalid syntax''))
      | (n, Some ErrRange) \<Rightarrow> (n, Some (ErrExt ''strconv.Atoi: value out of range'')))"

lemma Atoi_fmt_i64 [simp]: "Atoi (fmt_i64 w) = (w, None)"
  by (simp add: Atoi_def ParseInt_fmt_i64)

section \<open>Round trip\<close>

text \<open>A text that can stand between the separators of an address.\<close>

definition no_brackets :: "string \<Rightarrow> bool" where
  "no_brackets s \<longleftrightarrow> CHR ''['' \<notin> set s \<and> CHR '']'' \<notin> set s"

lemma index_byte_None [simp]: "index_byte c s = None \<longleftrightarrow> c \<notin> set s"
  by (induction s) auto

lemma SplitHostPort_join:
  assumes "no_brackets host" "no_brackets port" "CHR '':'' \<notin> set port"
  shows "SplitHostPort (JoinHostPort host port) = Ok (host, port)"
proof (cases "CHR '':'' \<in> set host")
  case True
  let ?a = "''['' @ host @ '']:'' @ port"
  have join: "JoinHostPort host port = ?a" using True by (simp add: JoinHostPort_def)
  have i: "last_index_byte CHR '':'' ?a = Some (length host + 2)"
    using last_index_byte_append [OF assms(3), of "''['' @ host @ '']''"] by simp
  have e: "index_byte CHR '']'' ?a = Some (length host + 1)"
    using index_byte_append [of "CHR '']''" "''['' @ host" "'':'' @ port"] assms(1) by (simp add: no_brackets_def)
  have "split_tail ?a host 1 (length host + 2) (length host + 2) = Ok (host, port)"
    using assms by (simp add: split_tail_def no_brackets_def)
  then show ?thesis unfolding join SplitHostPort_def i e by simp
next
  case False
  let ?a = "host @ '':'' @ port"
  have join: "JoinHostPort host port = ?a" using False by (simp add: JoinHostPort_def)
  have i: "last_index_byte CHR '':'' ?a = Some (length host)"
    using last_index_byte_append [OF assms(3), of host] by simp
  have "?a ! 0 \<noteq> CHR ''[''" using assms(1) by (cases host) (auto simp: no_brackets_def)
  moreover have "split_tail ?a host 0 0 (length host) = Ok (host, port)"
    using assms by (simp add: split_tail_def no_brackets_def)
  ultimately show ?thesis unfolding join SplitHostPort_def i using False by (simp add: Let_def)
qed

lemma set_fmt_nat: "set (fmt_nat n) \<subseteq> digit_char ` {..<10}"
proof (induction n rule: fmt_nat.induct)
  case (1 n)
  show ?case
  proof (cases "n < 10")
    case False
    then have "set (fmt_nat n) = insert (digit_char (n mod 10)) (set (fmt_nat (n div 10)))"
      by (subst fmt_nat.simps) simp
    then show ?thesis using "1.IH" [OF False] by auto
  qed (simp add: fmt_nat.simps [of n])
qed

lemma fmt_i64_plain: "no_brackets (fmt_i64 w)" "CHR '':'' \<notin> set (fmt_i64 w)"
proof -
  have digit: "digit_char d \<notin> {CHR ''['', CHR '']'', CHR '':''}" if "d < 10" for d
    using digit_of_digit_char [OF that] by (auto simp: digit_of_def)
  have "c \<notin> {CHR ''['', CHR '']'', CHR '':''}" if c: "c \<in> set (fmt_i64 w)" for c
  proof -
    have "c = CHR ''-'' \<or> c \<in> set (fmt_nat (nat (sint w))) \<or> c \<in> set (fmt_nat (nat (- sint w)))"
      using c by (auto simp: fmt_i64_def fmt_int_def split: if_splits)
    then show ?thesis using digit set_fmt_nat by fastforce
  qed
  then show "no_brackets (fmt_i64 w)" "CHR '':'' \<notin> set (fmt_i64 w)" by (auto simp: no_brackets_def)
qed

end
