(* ===== verification/TestKit.thy ===== *)
theory TestKit
  imports NetAddr SqlDatabase
begin

text \<open>
  \<open>offsetstore/postgres/internal/testkit.go\<close>: the Postgres container of the integration tests,
  the loop that waits for its database, and the helpers of \<open>TestDB\<close> over the layer of
  \<open>postgres.go\<close>. The container runtime, the \<open>database/sql\<close> driver and the clock are
  parameters; \<open>log.Fatalf\<close> ends the process and is a result of its own.
\<close>

section \<open>The parameters\<close>

text \<open>Points in time and durations in nanoseconds.\<close>

definition Second :: int where
  "Second = 1000000000"

text \<open>\<open>sql.Open\<close> of the driver, the handle's \<open>Ping\<close> and \<open>Close\<close>, \<open>time.Now\<close> and \<open>time.Sleep\<close>.\<close>

record ('h, 'w) sqldrv =
  sql_Open :: "string \<Rightarrow> 'w \<Rightarrow> 'h res \<times> 'w"
  db_Ping :: "'h \<Rightarrow> 'w \<Rightarrow> unit res \<times> 'w"
  db_Close :: "'h \<Rightarrow> 'w \<Rightarrow> unit res \<times> 'w"
  time_Now :: "'w \<Rightarrow> int \<times> 'w"
  time_Sleep :: "int \<Rightarrow> 'w \<Rightarrow> 'w"

record container_request =
  cr_Image :: string
  cr_ExposedPorts :: "string list"
  cr_Env :: "(string \<times> string) list"
  cr_Cmd :: "string list"
  cr_WaitingFor :: string
  cr_StartupTimeout :: int
  cr_Started :: bool

text \<open>The container runtime; \<open>tc_MappedPort\<close> is the mapped port with its method \<open>Port\<close> applied.\<close>

record ('c, 'w) containers =
  tc_GenericContainer :: "container_request \<Rightarrow> 'w \<Rightarrow> 'c res \<times> 'w"
  tc_Host :: "'c \<Rightarrow> 'w \<Rightarrow> string res \<times> 'w"
  tc_MappedPort :: "'c \<Rightarrow> string \<Rightarrow> 'w \<Rightarrow> string res \<times> 'w"
  tc_Terminate :: "'c \<Rightarrow> 'w \<Rightarrow> unit res \<times> 'w"

text \<open>How a function that may call \<open>log.Fatalf\<close> ends.\<close>

datatype 'a fatal = Returns 'a | LogFatal string goerr | Panics

section \<open>waitForPostgres\<close>

text \<open>One round: open the database, ping it, and close the handle whatever the ping says.\<close>

definition wait_attempt :: "('h, 'w) sqldrv \<Rightarrow> string \<Rightarrow> 'w \<Rightarrow> unit res \<times> 'w" where
  "wait_attempt K databaseURL w =
     (case sql_Open K databaseURL w of
        (Err err, w1) \<Rightarrow> (Err err, w1)
      | (Panic, w1) \<Rightarrow> (Panic, w1)
      | (Ok db, w1) \<Rightarrow>
          (case db_Ping K db w1 of
             (Panic, w2) \<Rightarrow> (Panic, w2)
           | (pingErr, w2) \<Rightarrow>
               (case db_Close K db w2 of (Panic, w3) \<Rightarrow> (Panic, w3) | (_, w3) \<Rightarrow> (pingErr, w3))))"

text \<open>The loop \<open>for { \<dots> }\<close>: \<open>None\<close> if it never returns.\<close>

partial_function (option) wait_loop :: "('h, 'w) sqldrv \<Rightarrow> string \<Rightarrow> int \<Rightarrow> 'w \<Rightarrow> (unit res \<times> 'w) option" where
  "wait_loop K databaseURL deadline w =
     (case wait_attempt K databaseURL w of
        (Ok _, w1) \<Rightarrow> Some (Ok (), w1)
      | (Panic, w1) \<Rightarrow> Some (Panic, w1)
      | (Err err, w1) \<Rightarrow>
          (case time_Now K w1 of (now, w2) \<Rightarrow>
             if deadline < now then Some (Err err, w2)
             else wait_loop K databaseURL deadline (time_Sleep K (2 * Second) w2)))"

definition waitForPostgres :: "('h, 'w) sqldrv \<Rightarrow> string \<Rightarrow> int \<Rightarrow> 'w \<Rightarrow> (unit res \<times> 'w) option" where
  "waitForPostgres K databaseURL timeout w =
     (case time_Now K w of (now, w1) \<Rightarrow> wait_loop K databaseURL (now + timeout) w1)"

section \<open>TestContainer\<close>

record 'c test_container =
  tk_host :: string
  tk_port :: i64
  tk_schema :: string
  tk_container :: 'c
  tk_dbUser :: string
  tk_dbName :: string
  tk_dbPass :: string

text \<open>The accessors that a test configures its store with.\<close>

definition Host :: "'c test_container \<Rightarrow> string" where "Host c = tk_host c"
definition Port :: "'c test_container \<Rightarrow> i64" where "Port c = tk_port c"
definition Schema_name :: "'c test_container \<Rightarrow> string" where "Schema_name c = tk_schema c"

text \<open>The two values of an error return are kept: the port is \<open>-1\<close>.\<close>

definition splitHostAndPort :: "string \<Rightarrow> string \<times> i64 \<times> goerr option" where
  "splitHostAndPort hostAndPort =
     (case SplitHostPort hostAndPort of
        Ok (host, port) \<Rightarrow>
          (case Atoi port of
             (_, Some err) \<Rightarrow> ('''', - 1, Some err)
           | (portValue, None) \<Rightarrow> (host, portValue, None))
      | Err err \<Rightarrow> ('''', - 1, Some err)
      | Panic \<Rightarrow> ('''', - 1, None))"

definition tk_request :: "string \<Rightarrow> string \<Rightarrow> string \<Rightarrow> container_request" where
  "tk_request dbName dbUser dbPassword =
     \<lparr>cr_Image = ''postgres:11'', cr_ExposedPorts = [''5432/tcp''],
      cr_Env = [(''POSTGRES_PASSWORD'', dbPassword), (''POSTGRES_USER'', dbUser), (''POSTGRES_DB'', dbName)],
      cr_Cmd = [''postgres'', ''-c'', ''log_statement=all'', ''-c'', ''log_connections=on'', ''-c'', ''log_disconnections=on''],
      cr_WaitingFor = ''5432/tcp'', cr_StartupTimeout = 120 * Second, cr_Started = True\<rparr>"

definition tk_databaseURL :: "string \<Rightarrow> string \<Rightarrow> string \<Rightarrow> string \<Rightarrow> string" where
  "tk_databaseURL dbUser dbPassword hostAndPort dbName =
     ''postgres://'' @ dbUser @ '':'' @ dbPassword @ ''@'' @ hostAndPort @ ''/'' @ dbName @ ''?sslmode=disable''"

definition NewTestContainer ::
  "('c, 'w) containers \<Rightarrow> ('h, 'w) sqldrv \<Rightarrow> string \<Rightarrow> string \<Rightarrow> string \<Rightarrow> 'w \<Rightarrow>
   ('c test_container fatal \<times> 'w) option" where
  "NewTestContainer C K dbName dbUser dbPassword w =
     (case tc_GenericContainer C (tk_request dbName dbUser dbPassword) w of
        (Err err, w1) \<Rightarrow> Some (LogFatal ''Could not start container'' err, w1)
      | (Panic, w1) \<Rightarrow> Some (Panics, w1)
      | (Ok tcContainer, w1) \<Rightarrow>
     (case tc_Host C tcContainer w1 of
        (Err err, w2) \<Rightarrow> Some (LogFatal ''Could not get container host'' err, w2)
      | (Panic, w2) \<Rightarrow> Some (Panics, w2)
      | (Ok host, w2) \<Rightarrow>
     (case tc_MappedPort C tcContainer ''5432/tcp'' w2 of
        (Err err, w3) \<Rightarrow> Some (LogFatal ''Could not get container port'' err, w3)
      | (Panic, w3) \<Rightarrow> Some (Panics, w3)
      | (Ok mappedPort, w3) \<Rightarrow>
     (let hostAndPort = JoinHostPort host mappedPort;
          databaseURL = tk_databaseURL dbUser dbPassword hostAndPort dbName
      in case waitForPostgres K databaseURL (120 * Second) w3 of
           None \<Rightarrow> None
         | Some (Err err, w4) \<Rightarrow> Some (LogFatal ''Could not connect to docker'' err, w4)
         | Some (Panic, w4) \<Rightarrow> Some (Panics, w4)
         | Some (Ok _, w4) \<Rightarrow>
             (case splitHostAndPort hostAndPort of
                (_, _, Some err) \<Rightarrow> Some (LogFatal ''Unable to get database host and port'' err, w4)
              | (host, port, None) \<Rightarrow>
                  Some (Returns \<lparr>tk_host = host, tk_port = port, tk_schema = ''public'', tk_container = tcContainer,
                          tk_dbUser = dbUser, tk_dbName = dbName, tk_dbPass = dbPassword\<rparr>, w4))))))"

definition tk_Cleanup :: "('c, 'w) containers \<Rightarrow> 'c test_container \<Rightarrow> 'w \<Rightarrow> unit fatal \<times> 'w" where
  "tk_Cleanup C c w =
     (case tc_Terminate C (tk_container c) w of
        (Err err, w1) \<Rightarrow> (LogFatal ''Could not terminate container'' err, w1)
      | (Panic, w1) \<Rightarrow> (Panics, w1)
      | (Ok _, w1) \<Rightarrow> (Returns (), w1))"

definition GetTestDB :: "'c test_container \<Rightarrow> 'pool postgres" where
  "GetTestDB c =
     plain_newDatabase
       \<lparr>dc_DBHost = tk_host c, dc_DBPort = tk_port c, dc_DBName = tk_dbName c, dc_DBUser = tk_dbUser c,
        dc_DBPassword = tk_dbPass c, dc_DBSchema = tk_schema c, dc_DBSSLMode = '''', dc_MaxConnections = 4,
        dc_MinConnections = 0, dc_MaxConnectionLifetime = Hour, dc_MaxConnIdleTime = 30 * Minute,
        dc_HealthCheckPeriod = Minute\<rparr>"

section \<open>TestDB\<close>

text \<open>
  The helpers run SQL text without arguments: \<open>raw\<close> is the query that the driver makes of a
  text. A single column is scanned into a variable, by the name Postgres gives it.
\<close>

primrec errors_Is :: "goerr \<Rightarrow> goerr \<Rightarrow> bool" where
  "errors_Is (ErrNew m) target \<longleftrightarrow> ErrNew m = target"
| "errors_Is (ErrExt m) target \<longleftrightarrow> ErrExt m = target"
| "errors_Is (ErrWrap m e) target \<longleftrightarrow> ErrWrap m e = target \<or> errors_Is e target"

definition sql_ErrNoRows :: goerr where
  "sql_ErrNoRows = ErrExt ''sql: no rows in result set''"

definition tk_DropTable ::
  "(string \<Rightarrow> 'q) \<Rightarrow> ('q, 'cfg, 'pool, 'tx, 'w) pgdrv \<Rightarrow> string \<Rightarrow> ('pool, 'w) pgdb \<Rightarrow> unit res \<times> ('pool, 'w) pgdb" where
  "tk_DropTable raw D tableName c = pg_Exec D (raw (''DROP TABLE IF EXISTS '' @ tableName @ '' CASCADE;'')) c"

definition tk_TableExists ::
  "(string \<Rightarrow> 'q) \<Rightarrow> ('q, 'cfg, 'pool, 'tx, 'w) pgdrv \<Rightarrow> string \<Rightarrow> ('pool, 'w) pgdb \<Rightarrow> unit res \<times> ('pool, 'w) pgdb" where
  "tk_TableExists raw D tableName c =
     (case pg_Exec D (raw (''SELECT to_regclass('' @ [CHR 0x27] @ tableName @ [CHR 0x27] @ '');'')) c of
        (Err err, p) \<Rightarrow> if errors_Is err sql_ErrNoRows then (Ok (), p) else (Err err, p)
      | (Panic, p) \<Rightarrow> (Panic, p)
      | (Ok _, p) \<Rightarrow> (Ok (), p))"

text \<open>The count with its error: \<open>-1\<close> where there is one.\<close>

definition tk_Count ::
  "(string \<Rightarrow> 'q) \<Rightarrow> ('q, 'cfg, 'pool, 'tx, 'w) pgdrv \<Rightarrow> string \<Rightarrow> ('pool, 'w) pgdb \<Rightarrow> (i64 \<times> goerr option) res" where
  "tk_Count raw D tableName c =
     (case bind_res (pg_Select D (raw (''SELECT COUNT(*) FROM '' @ tableName)) c)
             (\<lambda>y. case y of None \<Rightarrow> Ok 0 | Some r \<Rightarrow> scan_i64 (r ''count'')) of
        Err err \<Rightarrow> Ok (- 1, Some err)
      | Panic \<Rightarrow> Panic
      | Ok n \<Rightarrow> Ok (n, None))"

definition tk_CreateSchema ::
  "(string \<Rightarrow> 'q) \<Rightarrow> ('q, 'cfg, 'pool, 'tx, 'w) pgdrv \<Rightarrow> string \<Rightarrow> ('pool, 'w) pgdb \<Rightarrow> unit res \<times> ('pool, 'w) pgdb" where
  "tk_CreateSchema raw D schemaName c =
     (case pg_Exec D (raw (''CREATE SCHEMA '' @ schemaName)) c of
        (Err err, p) \<Rightarrow> (Err err, p)
      | (Panic, p) \<Rightarrow> (Panic, p)
      | (Ok _, p) \<Rightarrow> (Ok (), p))"

definition tk_SchemaExists ::
  "(string \<Rightarrow> 'q) \<Rightarrow> ('q, 'cfg, 'pool, 'tx, 'w) pgdrv \<Rightarrow> string \<Rightarrow> ('pool, 'w) pgdb \<Rightarrow> bool res" where
  "tk_SchemaExists raw D schemaName c =
     (case bind_res (pg_Select D (raw (''SELECT schema_name FROM information_schema.schemata WHERE schema_name = ''
                 @ [CHR 0x27] @ schemaName @ [CHR 0x27] @ '';'')) c)
             (\<lambda>y. case y of None \<Rightarrow> Ok '''' | Some r \<Rightarrow> scan_string (r ''schema_name'')) of
        Err err \<Rightarrow> Err err
      | Panic \<Rightarrow> Panic
      | Ok check \<Rightarrow> if check = schemaName then Ok True else Ok False)"

definition tk_DropSchema ::
  "(string \<Rightarrow> 'q) \<Rightarrow> ('q, 'cfg, 'pool, 'tx, 'w) pgdrv \<Rightarrow> string \<Rightarrow> ('pool, 'w) pgdb \<Rightarrow> unit res \<times> ('pool, 'w) pgdb" where
  "tk_DropSchema raw D schemaName c = pg_Exec D (raw (''DROP SCHEMA IF EXISTS '' @ schemaName @ '' CASCADE;'')) c"

end
