(* ===== verification/TestKitProps.thy ===== *)
theory TestKitProps
  imports TestKit RefClients
begin

text \<open>
  The properties of the test kit: the loop that waits for the database ends, and with success
  if the database comes up in time; an address survives \<open>JoinHostPort\<close> and
  \<open>splitHostAndPort\<close>; what the helpers of \<open>TestDB\<close> do and do not tell.
\<close>

section \<open>The wait for the database\<close>

text \<open>
  What the loop relies on: the clock never goes back, \<open>time.Now\<close> reads it, and \<open>time.Sleep\<close>
  lasts at least its duration.
\<close>

definition clock_contract :: "('h, 'w) sqldrv \<Rightarrow> ('w \<Rightarrow> int) \<Rightarrow> bool" where
  "clock_contract K clock \<longleftrightarrow>
     (\<forall>w t w'. time_Now K w = (t, w') \<longrightarrow> t = clock w' \<and> clock w \<le> clock w') \<and>
     (\<forall>d w. clock w + d \<le> clock (time_Sleep K d w)) \<and>
     (\<forall>url w r w'. sql_Open K url w = (r, w') \<longrightarrow> clock w \<le> clock w') \<and>
     (\<forall>h w r w'. db_Ping K h w = (r, w') \<longrightarrow> clock w \<le> clock w') \<and>
     (\<forall>h w r w'. db_Close K h w = (r, w') \<longrightarrow> clock w \<le> clock w')"

lemma wait_attempt_clock:
  assumes "clock_contract K clock" "wait_attempt K url w = (r, w')"
  shows "clock w \<le> clock w'"
proof -
  have mono: "sql_Open K url w = (r, w') \<Longrightarrow> clock w \<le> clock w'" "db_Ping K h w = (r1, w') \<Longrightarrow> clock w \<le> clock w'"
    "db_Close K h w = (r1, w') \<Longrightarrow> clock w \<le> clock w'" for url h w r r1 w'
    using assms(1) unfolding clock_contract_def by blast+
  show ?thesis
    using assms(2) unfolding wait_attempt_def
    by (auto split: prod.splits res.splits dest!: mono)
qed

lemma wait_loop_ends:
  assumes "clock_contract K clock"
  shows "\<exists>r w'. wait_loop K url deadline w = Some (r, w') \<and> (\<forall>e. r = Err e \<longrightarrow> deadline < clock w')"
proof (induction "nat (deadline + 1 - clock w)" arbitrary: w rule: less_induct)
  case less
  obtain r1 w1 where a: "wait_attempt K url w = (r1, w1)" by (cases "wait_attempt K url w")
  show ?case
  proof (cases r1)
    case (Err e)
    obtain now w2 where t: "time_Now K w1 = (now, w2)" by (cases "time_Now K w1")
    let ?w3 = "time_Sleep K (2 * Second) w2"
    have c: "clock w \<le> clock w1" "now = clock w2" "clock w1 \<le> clock w2" "clock w2 + 2 * Second \<le> clock ?w3"
      using wait_attempt_clock [OF assms a] assms t unfolding clock_contract_def by blast+
    show ?thesis
    proof (cases "deadline < now")
      case True
      then show ?thesis using a Err t c(2) by (simp add: wait_loop.simps [of K url deadline w])
    next
      case False
      then have "nat (deadline + 1 - clock ?w3) < nat (deadline + 1 - clock w)"
        using c by (simp add: Second_def)
      from less [OF this] show ?thesis
        using a Err t False by (simp add: wait_loop.simps [of K url deadline w])
    qed
  qed (use a in \<open>simp_all add: wait_loop.simps [of K url deadline w]\<close>)
qed

text \<open>
  If the database answers from the time \<open>up\<close> on, no round takes longer than \<open>d\<close>, and \<open>up + d\<close>
  is before the deadline, the loop succeeds: a round that fails began before \<open>up\<close>, so another
  one follows it.
\<close>

definition comes_up :: "('h, 'w) sqldrv \<Rightarrow> ('w \<Rightarrow> int) \<Rightarrow> string \<Rightarrow> int \<Rightarrow> int \<Rightarrow> bool" where
  "comes_up K clock url up d \<longleftrightarrow>
     (\<forall>w. up \<le> clock w \<longrightarrow> fst (wait_attempt K url w) = Ok ()) \<and>
     (\<forall>w. fst (wait_attempt K url w) \<noteq> Panic) \<and>
     (\<forall>w. fst (time_Now K (snd (wait_attempt K url w))) \<le> clock w + d)"

lemma wait_loop_succeeds:
  assumes "clock_contract K clock" "comes_up K clock url up d" "up + d \<le> deadline"
  shows "\<exists>w'. wait_loop K url deadline w = Some (Ok (), w')"
proof (induction "nat (deadline + 1 - clock w)" arbitrary: w rule: less_induct)
  case less
  obtain r1 w1 where a: "wait_attempt K url w = (r1, w1)" by (cases "wait_attempt K url w")
  show ?case
  proof (cases r1)
    case (Err e)
    obtain now w2 where t: "time_Now K w1 = (now, w2)" by (cases "time_Now K w1")
    let ?w3 = "time_Sleep K (2 * Second) w2"
    have c: "clock w \<le> clock w1" "now = clock w2" "clock w1 \<le> clock w2" "clock w2 + 2 * Second \<le> clock ?w3"
      using wait_attempt_clock [OF assms(1) a] assms(1) t unfolding clock_contract_def by blast+
    have "\<not> up \<le> clock w" using assms(2) a Err unfolding comes_up_def by fastforce
    moreover have "now \<le> clock w + d" using assms(2) a t unfolding comes_up_def by (metis fst_conv snd_conv)
    ultimately have "\<not> deadline < now" using assms(3) by simp
    moreover from this have "nat (deadline + 1 - clock ?w3) < nat (deadline + 1 - clock w)"
      using c by (simp add: Second_def)
    ultimately show ?thesis
      using less [of ?w3] a Err t by (simp add: wait_loop.simps [of K url deadline w])
  next
    case Panic
    then show ?thesis using assms(2) a unfolding comes_up_def by (metis fst_conv)
  qed (use a in \<open>simp_all add: wait_loop.simps [of K url deadline w]\<close>)
qed

text \<open>
  C40. The loop of \<open>waitForPostgres\<close> ends, whatever the driver answers, if the clock advances with
  every sleep. It gives up only after the timeout; and if the database answers from some moment on
  that is, with the longest round, within the timeout, it returns without an error.
\<close>

theorem wait_ends:
  assumes "clock_contract K clock"
  shows "\<exists>r w'. waitForPostgres K url timeout w = Some (r, w') \<and> (\<forall>e. r = Err e \<longrightarrow> clock w + timeout < clock w') \<and>
    (\<forall>up d. comes_up K clock url up d \<and> up + d \<le> clock w + timeout \<longrightarrow> r = Ok ())"
proof -
  obtain now w1 where t: "time_Now K w = (now, w1)" by (cases "time_Now K w")
  then have now: "clock w \<le> now" using assms unfolding clock_contract_def by metis
  obtain r w' where run: "wait_loop K url (now + timeout) w1 = Some (r, w')"
    and late: "\<forall>e. r = Err e \<longrightarrow> now + timeout < clock w'" using wait_loop_ends [OF assms] by blast
  have "r = Ok ()" if "comes_up K clock url up d" "up + d \<le> clock w + timeout" for up d
    using wait_loop_succeeds [OF assms that(1), of "now + timeout" w1] that(2) now run by simp
  then show ?thesis using run late now t by (fastforce simp: waitForPostgres_def)
qed

text \<open>A database that answers from the time \<open>up\<close> on; every operation takes a millisecond.\<close>

definition tick_drv :: "int \<Rightarrow> (unit, int) sqldrv" where
  "tick_drv up =
     \<lparr>sql_Open = (\<lambda>_ w. (Ok (), w)),
      db_Ping = (\<lambda>_ w. (if up \<le> w then Ok () else Err (ErrExt ''connection refused''), w + 1000000)),
      db_Close = (\<lambda>_ w. (Ok (), w)), time_Now = (\<lambda>w. (w, w)), time_Sleep = (\<lambda>d w. w + d)\<rparr>"

lemma tick_drv_clock: "clock_contract (tick_drv up) (\<lambda>w. w)"
  by (auto simp: clock_contract_def tick_drv_def)

lemma tick_drv_up: "comes_up (tick_drv up) (\<lambda>w. w) url up 1000000"
  by (simp add: comes_up_def wait_attempt_def tick_drv_def)

theorem wait_ends_witness:
  "(\<exists>w'. waitForPostgres (tick_drv (999 * Second)) ''postgres://localhost:5432'' (3 * Second) 0 =
     Some (Err (ErrExt ''connection refused''), w') \<and> 3 * Second < w') \<and>
   (\<exists>w'. waitForPostgres (tick_drv (50 * Second)) ''postgres://localhost:5432'' (120 * Second) 0 = Some (Ok (), w'))"
proof -
  have "waitForPostgres (tick_drv (999 * Second)) ''postgres://localhost:5432'' (3 * Second) 0 =
      Some (Err (ErrExt ''connection refused''), 4003000000)"
    by (simp add: waitForPostgres_def wait_loop.simps wait_attempt_def tick_drv_def Second_def)
  moreover obtain r w' where "waitForPostgres (tick_drv (50 * Second)) ''postgres://localhost:5432'' (120 * Second) 0 = Some (r, w')"
    "comes_up (tick_drv (50 * Second)) (\<lambda>w. w) ''postgres://localhost:5432'' (50 * Second) 1000000 \<and>
     50 * Second + 1000000 \<le> 0 + 120 * Second \<longrightarrow> r = Ok ()"
    using wait_ends [OF tick_drv_clock] by blast
  ultimately show ?thesis
    using wait_ends [OF tick_drv_clock, of "999 * Second" "''postgres://localhost:5432''" "3 * Second" 0] tick_drv_up
    by (simp add: Second_def)
qed

section \<open>The container and its address\<close>

lemma splitHostAndPort_join:
  "no_brackets host \<Longrightarrow> splitHostAndPort (JoinHostPort host (fmt_i64 port)) = (host, port, None)"
  using SplitHostPort_join [OF _ fmt_i64_plain, of host port] by (simp add: splitHostAndPort_def)

text \<open>
  \<open>splitHostAndPort\<close> gives back the host and the port of an address that \<open>JoinHostPort\<close> put
  together, IPv6 hosts included, for every port number and every host without brackets.
\<close>

theorem address_roundtrip:
  assumes "no_brackets host"
  shows "splitHostAndPort (JoinHostPort host (fmt_i64 port)) = (host, port, None)"
  using assms by (rule splitHostAndPort_join)

theorem address_roundtrip_witness:
  "splitHostAndPort ''[::1]:5432'' = (''::1'', 5432, None) \<and> splitHostAndPort ''localhost:5432'' = (''localhost'', 5432, None)"
proof -
  have "JoinHostPort ''::1'' (fmt_i64 5432) = ''[::1]:5432''" "JoinHostPort ''localhost'' (fmt_i64 5432) = ''localhost:5432''"
    by code_simp+
  then show ?thesis using address_roundtrip [of "''::1''" 5432] address_roundtrip [of "''localhost''" 5432]
    by (simp add: no_brackets_def)
qed

text \<open>
  A container that starts and whose database comes up gives a \<open>TestContainer\<close> with the host and
  the port that the runtime reports, and the \<open>TestDB\<close> made of it connects to them.
\<close>

lemma NewTestContainer_address:
  assumes "NewTestContainer C K dbName dbUser dbPassword w = Some (Returns c, w')"
    and "\<And>k w1 host w2. tc_Host C k w1 = (Ok host, w2) \<Longrightarrow> host = h \<and> no_brackets h"
    and "\<And>k p w1 port w2. tc_MappedPort C k p w1 = (Ok port, w2) \<Longrightarrow> port = fmt_i64 n"
  shows "tk_host c = h \<and> tk_port c = n \<and>
    pg_connStr (GetTestDB c) = plain_connectionString h n dbName dbUser dbPassword ''public''"
proof -
  have "c = \<lparr>tk_host = h, tk_port = n, tk_schema = ''public'', tk_container = tk_container c,
      tk_dbUser = dbUser, tk_dbName = dbName, tk_dbPass = dbPassword\<rparr>"
    using assms(1) splitHostAndPort_join [of h n]
    by (auto simp: NewTestContainer_def Let_def split: prod.splits res.splits option.splits dest!: assms(2,3))
  then show ?thesis
    by (cases c) (simp add: GetTestDB_def plain_newDatabase_def)
qed

section \<open>What the helpers tell\<close>

text \<open>
  \<open>TableExists\<close> executes the query of \<open>to_regclass\<close> and throws its row away: where the query
  runs, the answer is the same for a table that exists and one that does not.
\<close>

lemma table_exists_blind:
  assumes "pg_pool (fst c) = Some pool"
    and "\<And>name. fst (pool_exec D pool (raw (''SELECT to_regclass('' @ [CHR 0x27] @ name @ [CHR 0x27] @ '');'')) (snd c)) = Ok ()"
  shows "fst (tk_TableExists raw D tableName c) = Ok ()"
  using assms(1) assms(2) [of tableName]
  by (auto simp: tk_TableExists_def pg_Exec_def split: prod.splits)

text \<open>\<open>SchemaExists\<close> says that the schema with the empty name exists, since no row leaves \<open>check\<close> empty.\<close>

lemma schema_exists_empty:
  assumes "pg_Select D q c = Ok None" "\<And>txt. raw txt = q"
  shows "tk_SchemaExists raw D schemaName c = Ok (schemaName = '''')"
  using assms by (auto simp: tk_SchemaExists_def)

end
