(* ===== verification/Spec2Isabelle.thy ===== *)
theory Spec2Isabelle
  imports DurableProps DurableRaceProps EventProps EventRaceProps EventPgPaging OffsetProps SnapshotProps ConnectLive SchemaProps LayerProps TestKitProps
begin

text \<open>
  A model of ego-contrib, the persistence backends of the eGo framework: the stores that keep
  the durable states, the events, the projection offsets and the snapshots of an entity, in
  memory and over Postgres, Cassandra and DynamoDB. Each store is a Go struct with a connection
  flag; its methods are modelled as functions from the arguments and the state of the store to a
  result and a new state. A result is \<open>Ok\<close>, \<open>Err\<close> with the error value, or \<open>Panic\<close>.

  The parts, the source they model and their theories:

  \<^item> \<open>Prelude\<close>, \<open>Strconv\<close>, \<open>GoSort\<close>: Go values (machine integers as words, byte slices, error
    values with \<open>%w\<close> chains, interface values), the decimal text of integers as the standard
    library prints and parses it, and \<open>sort.SliceStable\<close>.
  \<^item> \<open>Proto\<close>: the messages and the protobuf runtime (a parameter with its contract), and
    \<open>toProto\<close>; the copies of it in the other packages are in their theories, each equal to it.
  \<^item> \<open>Sql\<close>, \<open>PgDatabase\<close>, \<open>SqlDatabase\<close>, \<open>TypedTable\<close>, \<open>PgStore\<close>: the statements that the
    stores build with squirrel, as data with their meaning on tables; \<open>postgres.go\<close>,
    \<open>db_config.go\<close> and \<open>config.go\<close> over a pgx driver that is a parameter; the interface
    \<open>database\<close> as a locale; the scan of rows into structs; the lifecycle that the Postgres
    stores share.
  \<^item> \<open>PgEventLayer\<close>, \<open>PgOffsetLayer\<close>, \<open>PgSnapshotLayer\<close>: the copies of that layer in the other three
    packages, with their own configurations; every call commutes with the layer of
    \<open>PgDatabase\<close>, on which the stores are built, and each interprets the interface \<open>database\<close>.
  \<^item> \<open>Schema\<close>: the tables of the SQL files, and when a statement is well typed in them.
  \<^item> \<open>StateStore\<close>, \<open>StateRow\<close>, \<open>DurableMemory\<close>, \<open>DurablePg\<close>, \<open>DurableCassandra\<close>,
    \<open>DurableDynamo\<close>: the contract of a durable store and the four packages under
    \<open>durablestore/\<close>; \<open>DurableMemoryRace\<close>: goroutines that call one memory durable store at the same
    time, one access to the flag or the \<open>sync.Map\<close> per step.
  \<^item> \<open>MemDb\<close>, \<open>EventStore\<close>, \<open>EventsMemory\<close>, \<open>EventsMemoryFacts\<close>, \<open>EventsMemoryStore\<close>,
    \<open>EventsMemoryRuns\<close>, \<open>EventsPg\<close>, \<open>EventsPgStore\<close>: go-memdb as a parameter with its contract
    (index trees), the contract of an event store, and the two packages under \<open>eventstore/\<close>,
    the histories of calls of the memory store included.
  \<^item> \<open>EventsMemoryRace\<close>: goroutines that call one memory event store at the same time, one shared
    access per step (the flag, \<open>s.db\<close>, the transactions of go-memdb with their one writer, which the
    others wait for).
  \<^item> \<open>OffsetStore\<close>, \<open>OffsetMemory\<close>, \<open>OffsetPg\<close>: the packages under \<open>offsetstore/\<close>. The memory
    store keeps pointers in the database and writes through them, so its rows live in a heap.
  \<^item> \<open>SnapshotStore\<close>, \<open>SnapshotPg\<close>: \<open>snapshotstore/postgres\<close>.
  \<^item> \<open>ConnectRace\<close>: the interleavings of concurrent \<open>Connect\<close> and \<open>Disconnect\<close> calls, with the
    mutex of the durable and the snapshot store and with the bare atomic flag of the others, and
    with the connections that operations take from the pools and \<open>Close\<close> waits for;
    \<open>ConnectLive\<close>: when calls end, and that the calls of the store are schedules of this model,
    with the same pools open.
  \<^item> \<open>Paging\<close>, \<open>EventPgPaging\<close>: the loop of a client that lists a store page by page, and its
    instances for the ids and the shards of the Postgres event store.
  \<^item> \<open>NetAddr\<close>, \<open>TestKit\<close>: addresses as \<open>net\<close> reads and writes them, and \<open>testkit.go\<close>, the
    container of the integration tests with the loop that waits for its database.
  \<^item> \<open>RefEngine\<close>, \<open>RefClients\<close>: small engines that satisfy the contracts of the drivers, on which
    the witnesses are computed.
  \<^item> \<open>DurableProps\<close>, \<open>DurableRaceProps\<close>, \<open>EventProps\<close>, \<open>EventRaceProps\<close>, \<open>EventPgProps\<close>,
    \<open>EventPgPaging\<close>, \<open>OffsetProps\<close>, \<open>SnapshotProps\<close>, \<open>ConnectRace\<close>, \<open>ConnectLive\<close>, \<open>SchemaProps\<close>, \<open>LayerProps\<close>, \<open>TestKitProps\<close>: the
    properties C1 to C40, each with a witness where it has hypotheses.

  Names follow the code, with a prefix per package where two packages use the same name:
  \<open>mss_\<close>, \<open>dp_\<close>, \<open>dc_\<close> and \<open>cas_\<close>, \<open>dy_\<close> and \<open>ddb_\<close> for the durable stores, \<open>me_\<close> and \<open>pe_\<close> for
  the event stores, \<open>ra_\<close> and \<open>dr_\<close> for the interleaved memory stores, \<open>mo_\<close> and \<open>po_\<close> for the offset stores, \<open>ps_\<close> for the snapshot store, \<open>pg_\<close>
  for \<open>postgres.go\<close>, with \<open>epg_\<close>, \<open>opg_\<close> and \<open>spg_\<close> for its copies, \<open>tk_\<close> for the test kit.

  Interfaces. Each store kind has a locale (\<open>lifecycle\<close>, \<open>state_store\<close>, \<open>event_store\<close>,
  \<open>offset_store\<close>, \<open>snapshot_store\<close>, \<open>sql_database\<close>, \<open>typed_table\<close>, \<open>pager\<close>) with the laws of the
  interface that eGo relies on, and every implementation interprets it on its own definitions.
  The event and the offset stores also refine an abstract journal (a bag of events) and an
  abstract table (a map), so that the memory and the Postgres implementation agree with each
  other. Where an implementation departs from the documented behaviour the laws exclude the
  case and a property states what the code does: the order and the limit of the memory event
  store, its latest event, its pages of ids, what a DynamoDB item loses.

  Parameters. Code outside the repository is an argument: the protobuf runtime, squirrel and
  pgx (with scany), gocql, the AWS client, go-memdb, the container runtime, the generator of UUIDs and the clock. Each
  has a contract, a named predicate that states its documented behaviour (\<open>proto_contract\<close>,
  \<open>pg_contract\<close>, \<open>cas_contract\<close>, \<open>ddb_contract\<close>, \<open>memdb_contract\<close>, \<open>uuid_ok\<close>,
  \<open>clock_contract\<close>; \<open>pools_contract\<close> for the pools a driver has open), shown to hold
  of a concrete engine. A statement that fails may have been applied or not, and a commit that
  fails too; the contracts leave that open. Primary keys are those of the SQL files under
  \<open>resources/\<close>. The contract of squirrel is only that \<open>ToSql\<close> does not panic: where a property needs
  that a statement can be built, it says which.

  Bounds. Every loop of the source but one is a recursion over a list; the loop of
  \<open>waitForPostgres\<close> is a partial function, shown to return. The client's loop over pages has
  fuel, one unit more than there are entries to list. Lengths are
  compared with \<open>uint64\<close> limits as the code does, so the properties of the memory event store
  assume fewer than \<open>2 ^ 64\<close> records. Keys of go-memdb end with a NUL byte, so the ids and names
  that are looked up in memory are assumed to have none. The columns of the SQL files are signed:
  \<open>Schema\<close> says which \<open>uint64\<close> values and limits they take, and the properties of the Postgres
  stores hold of the calls that end well, whatever the database refuses.

  Not modelled: contexts and their cancellation, the prepared state of squirrel beyond the statement, the
  concurrent use of a store other than the lifecycle of the Postgres stores, the memory event
  store and the memory durable store, and other clients of the same database. In the interleaved
  memory event store the inserts and deletes of a write transaction are one step with its commit,
  since no other goroutine sees them before, and a read is one step after its flag, since it works
  on the snapshot its one transaction was opened on. A call of \<open>pool.Close\<close> in the sequential model
  of the layer is one that returns; when it does not is said in \<open>ConnectLive\<close>. The memory offset store is not interleaved:
  \<open>ResetOffset\<close> writes through pointers that readers share without a lock, a data race whose
  outcome Go leaves to its memory model.
\<close>

end
